theory Spec2Isabelle
  imports Complex_Main "HOL-Library.Log_Nat"
begin

chapter \<open>SoPlex: LU adapter, semi-sparse vectors and the refinement driver\<close>

text \<open>
  The floating-point type \<^verbatim>\<open>Real\<close> of the sources is read as \<^typ>\<open>real\<close> and the
  arbitrary-precision type \<^verbatim>\<open>Rational\<close> as \<^typ>\<open>rat\<close>: comparisons, sums, products
  and quotients are the exact ones.
\<close>

section \<open>Semi-sparse vectors (ssvector.h, ssvector.cpp)\<close>

subsection \<open>Collaborators that are not part of the sources\<close>

text \<open>
  An \<^verbatim>\<open>SVector\<close> is a sequence of (index, value) elements. The dense part of an
  \<^verbatim>\<open>SSVector\<close> is the array \<^verbatim>\<open>val\<close> of its base class \<^verbatim>\<open>DVector\<close>; the index part
  is the array \<^verbatim>\<open>idx\<close> of its base class \<^verbatim>\<open>IdxSet\<close>, of which the model keeps the
  live entries \<^verbatim>\<open>idx[0 .. num-1]\<close>.
\<close>

type_synonym svector = "(nat \<times> real) list"

text \<open>
  Modelled from the spec: \<^verbatim>\<open>IdxSet\<close> (idxset.h) is missing from the sources. The
  specification calls it the index list of an SSV; \<open>number\<close> is the position of an
  index in the list or -1, \<open>addIdx\<close> appends an index, \<open>remove\<close> deletes the entry
  at a position by moving the last entry into it.
\<close>

fun number :: "nat list \<Rightarrow> nat \<Rightarrow> int" where
  "number [] i = -1"
| "number (j # js) i =
     (if j = i then 0 else (let n = number js i in if n < 0 then -1 else n + 1))"

definition addIdx :: "nat \<Rightarrow> nat list \<Rightarrow> nat list" where
  "addIdx i ix = ix @ [i]"

definition remove :: "nat \<Rightarrow> nat list \<Rightarrow> nat list" where
  "remove n ix = butlast (ix[n := last ix])"

text \<open>
  Modelled from the spec: the dense \<^verbatim>\<open>Vector\<close> class (vector.h) is missing from the
  sources. \<open>Vector_clear\<close> zeroes every entry; \<open>Vector_add\<close> and \<open>Vector_sub\<close> are
  the entrywise \<^verbatim>\<open>+=\<close> and \<^verbatim>\<open>-=\<close> with a dense vector of the same dimension;
  \<open>Vector_multAdd\<close> is the axpy \<^verbatim>\<open>+= x * vec\<close> with a dense vector and
  \<open>Vector_multAdd_SV\<close> the axpy with a sparse vector, one element after the other;
  \<open>Vector_assign_SV\<close> is the assignment of a sparse vector: clear, then store each
  element.
\<close>

definition Vector_clear :: "real list \<Rightarrow> real list" where
  "Vector_clear vs = replicate (length vs) 0"

definition Vector_add :: "real list \<Rightarrow> real list \<Rightarrow> real list" where
  "Vector_add vs ws = map2 (+) vs ws"

definition Vector_sub :: "real list \<Rightarrow> real list \<Rightarrow> real list" where
  "Vector_sub vs ws = map2 (-) vs ws"

definition Vector_multAdd :: "real \<Rightarrow> real list \<Rightarrow> real list \<Rightarrow> real list" where
  "Vector_multAdd x ws vs = map2 (\<lambda>v w. v + x * w) vs ws"

fun Vector_multAdd_SV :: "real \<Rightarrow> svector \<Rightarrow> real list \<Rightarrow> real list" where
  "Vector_multAdd_SV x [] vs = vs"
| "Vector_multAdd_SV x ((j, a) # es) vs = Vector_multAdd_SV x es (vs[j := vs ! j + x * a])"

definition Vector_assign_SV :: "svector \<Rightarrow> real list \<Rightarrow> real list" where
  "Vector_assign_SV rhs vs = fold (\<lambda>(j, a) ws. ws[j := a]) rhs (Vector_clear vs)"

subsection \<open>The class SSVector\<close>

record ssvector =
  val :: "real list"
  idx :: "nat list"
  setupStatus :: bool
  epsilon :: real

definition dim :: "ssvector \<Rightarrow> nat" where
  "dim v = length (val v)"

definition isSetup :: "ssvector \<Rightarrow> bool" where
  "isSetup v = setupStatus v"

definition unSetup :: "ssvector \<Rightarrow> ssvector" where
  "unSetup v = v\<lparr>setupStatus := False\<rparr>"

definition forceSetup :: "ssvector \<Rightarrow> ssvector" where
  "forceSetup v = v\<lparr>setupStatus := True\<rparr>"

text \<open>The constructor \<^verbatim>\<open>SSVector(int pdim, double peps)\<close>.\<close>

definition SSVector :: "nat \<Rightarrow> real \<Rightarrow> ssvector" where
  "SSVector pdim peps =
     \<lparr>val = replicate pdim 0, idx = [], setupStatus = True, epsilon = peps\<rparr>"

text \<open>
  \<^verbatim>\<open>size()\<close> is the number of indices. It begins with \<^verbatim>\<open>assert(isSetup())\<close>: in a
  build with assertions (\<open>NDEBUG\<close> false) the call on a vector that is not set up
  aborts, which is the result \<open>None\<close>. \<^verbatim>\<open>setSize(n)\<close> unsets the vector and makes
  the first \<open>n\<close> entries of the index array the index list.
\<close>

definition size :: "bool \<Rightarrow> ssvector \<Rightarrow> int option" where
  "size NDEBUG v =
     (if \<not> NDEBUG \<and> \<not> isSetup v then None else Some (int (length (idx v))))"

definition setSize :: "int \<Rightarrow> ssvector \<Rightarrow> ssvector" where
  "setSize n v = (unSetup v)\<lparr>idx := take (nat n) (idx v)\<rparr>"

text \<open>The sentinel and marker value \<^verbatim>\<open>1e-100\<close> of ssvector.cpp.\<close>

definition mark :: real where
  "mark = 1 / 10 ^ 100"

text \<open>\<^verbatim>\<open>clearNum(n)\<close>: zero the value of the n-th index and remove that index.\<close>

definition clearNum :: "nat \<Rightarrow> ssvector \<Rightarrow> ssvector" where
  "clearNum n v = v\<lparr>val := (val v)[idx v ! n := 0], idx := remove n (idx v)\<rparr>"

text \<open>
  \<^verbatim>\<open>SSVector::clear()\<close>: a setup vector zeroes the indexed entries only, any other
  vector zeroes every entry.
\<close>

definition clear :: "ssvector \<Rightarrow> ssvector" where
  "clear v =
     v\<lparr>val := (if isSetup v then fold (\<lambda>j vs. vs[j := 0]) (idx v) (val v)
                else Vector_clear (val v)),
       idx := [],
       setupStatus := True\<rparr>"

text \<open>
  \<^verbatim>\<open>assign(const SVector& rhs)\<close> stores every element of \<open>rhs\<close> and lists the
  indices of its nonzero values; \<^verbatim>\<open>operator=(const SVector& rhs)\<close> clears first.
\<close>

definition assign :: "svector \<Rightarrow> ssvector \<Rightarrow> ssvector" where
  "assign rhs v =
     v\<lparr>val := fold (\<lambda>(j, a) vs. vs[j := a]) rhs (val v),
       idx := map fst (filter (\<lambda>(j, a). a \<noteq> 0) rhs),
       setupStatus := True\<rparr>"

definition assign_SVector :: "svector \<Rightarrow> ssvector \<Rightarrow> ssvector" where
  "assign_SVector rhs v = assign rhs (clear v)"

text \<open>
  \<^verbatim>\<open>SSVector::setValue(i, x)\<close>. The leading assertion guards the array access: an
  index outside the vector gives \<open>None\<close>.
\<close>

definition setValue :: "nat \<Rightarrow> real \<Rightarrow> ssvector \<Rightarrow> ssvector option" where
  "setValue i x v =
     (if \<not> i < dim v then None
      else
        let v1 =
          (if isSetup v then
             (let n = number (idx v) i in
              if n < 0 then
                (if x > epsilon v \<or> x < - epsilon v then v\<lparr>idx := addIdx i (idx v)\<rparr> else v)
              else if x = 0 then clearNum (nat n) v
              else v)
           else v)
        in Some (v1\<lparr>val := (val v1)[i := x]\<rparr>))"

text \<open>
  The scan of \<^verbatim>\<open>SSVector::setup()\<close> for \<^verbatim>\<open>dim() > 1\<close>: \<open>p\<close> is the position of the
  pointer \<^verbatim>\<open>v\<close>, \<open>ii\<close> the indices written so far. One call advances \<^verbatim>\<open>v\<close> by one
  (the inner \<^verbatim>\<open>while (!*++v)\<close> skips zeros) and then runs the body of the outer
  \<^verbatim>\<open>for(;;)\<close>. The loop leaves only at \<^verbatim>\<open>v == end\<close>; a read past the last entry is
  \<open>None\<close>.
\<close>

function setup_scan :: "real \<Rightarrow> nat \<Rightarrow> real list \<Rightarrow> nat list \<Rightarrow> (real list \<times> nat list) option" where
  "setup_scan eps p vs ii =
     (let q = Suc p in
      if \<not> q < length vs then None
      else if vs ! q = 0 then setup_scan eps q vs ii
      else if \<bar>vs ! q\<bar> > eps then setup_scan eps q vs (ii @ [q])
      else if q = length vs - 1 then Some (vs[q := 0], ii)
      else setup_scan eps q (vs[q := 0]) ii)"
  by pat_completeness auto
termination
  by (relation "measure (\<lambda>(eps, p, vs, ii). length vs - p)") auto

text \<open>\<^verbatim>\<open>SSVector::setup()\<close> (the variant compiled without \<^verbatim>\<open>TWO_LOOPS\<close>).\<close>

definition SSVector_setup :: "ssvector \<Rightarrow> ssvector option" where
  "SSVector_setup v =
     (if isSetup v then Some v
      else if dim v \<le> 1 then
        (if dim v \<noteq> 0 then
           (if \<bar>val v ! 0\<bar> > epsilon v
            then Some (v\<lparr>idx := [0], setupStatus := True\<rparr>)
            else Some (v\<lparr>val := (val v)[0 := 0], idx := [], setupStatus := True\<rparr>))
         else Some (v\<lparr>idx := [], setupStatus := True\<rparr>))
      else
        (let e = dim v - 1;
             lastv = val v ! e;
             vs0 = (val v)[e := mark];
             (vs1, ii1) = (if \<bar>vs0 ! 0\<bar> > epsilon v then (vs0, [0]) else (vs0[0 := 0], []))
         in case setup_scan (epsilon v) 0 vs1 ii1 of
              None \<Rightarrow> None
            | Some (vs2, ii2) \<Rightarrow>
                if \<bar>lastv\<bar> > epsilon v
                then Some (v\<lparr>val := vs2[e := lastv], idx := ii2 @ [e], setupStatus := True\<rparr>)
                else Some (v\<lparr>val := vs2[e := 0], idx := ii2, setupStatus := True\<rparr>)))"

text \<open>
  The operators \<^verbatim>\<open>+=\<close> and \<^verbatim>\<open>-=\<close> with a dense vector and \<^verbatim>\<open>multAdd(x, Vector)\<close>:
  the dense update, then a setup vector is set up again. The dense classes assert equal
  dimensions; unequal ones give \<open>None\<close>.
\<close>

definition resetup :: "ssvector \<Rightarrow> ssvector option" where
  "resetup v = (if isSetup v then SSVector_setup (v\<lparr>setupStatus := False\<rparr>) else Some v)"

definition plus_Vector :: "real list \<Rightarrow> ssvector \<Rightarrow> ssvector option" where
  "plus_Vector vec v =
     (if length vec \<noteq> dim v then None
      else resetup (v\<lparr>val := Vector_add (val v) vec\<rparr>))"

definition minus_Vector :: "real list \<Rightarrow> ssvector \<Rightarrow> ssvector option" where
  "minus_Vector vec v =
     (if length vec \<noteq> dim v then None
      else resetup (v\<lparr>val := Vector_sub (val v) vec\<rparr>))"

definition multAdd_Vector :: "real \<Rightarrow> real list \<Rightarrow> ssvector \<Rightarrow> ssvector option" where
  "multAdd_Vector x vec v =
     (if length vec \<noteq> dim v then None
      else resetup (v\<lparr>val := Vector_multAdd x vec (val v)\<rparr>))"

text \<open>
  \<^verbatim>\<open>multAdd(xx, const SVector&)\<close>. The first loop runs over the elements of
  \<open>svec\<close> from the last to the first; \<open>multAdd_loop\<close> takes them in that order and
  carries the values, the index list and the flag \<^verbatim>\<open>adjust\<close>.
\<close>

fun multAdd_loop :: "real \<Rightarrow> real \<Rightarrow> svector \<Rightarrow> real list \<times> nat list \<times> bool \<Rightarrow> real list \<times> nat list \<times> bool" where
  "multAdd_loop eps xx [] st = st"
| "multAdd_loop eps xx ((j, a) # es) (vs, ix, adjust) =
     (if vs ! j \<noteq> 0 then
        (let x = vs ! j + xx * a in
         if x > eps \<or> x < - eps then multAdd_loop eps xx es (vs[j := x], ix, adjust)
         else multAdd_loop eps xx es (vs[j := mark], ix, True))
      else
        (let x = xx * a in
         if x > eps \<or> x < - eps then multAdd_loop eps xx es (vs[j := x], addIdx j ix, adjust)
         else multAdd_loop eps xx es (vs, ix, adjust)))"

text \<open>
  The second loop of \<^verbatim>\<open>multAdd\<close>, run when \<^verbatim>\<open>adjust\<close> is set: \<^verbatim>\<open>iptr\<close> walks the
  index list, \<^verbatim>\<open>iiptr\<close> keeps the indices of values beyond \<open>eps\<close>, the other values
  are zeroed.
\<close>

fun multAdd_adjust :: "real \<Rightarrow> nat list \<Rightarrow> real list \<Rightarrow> nat list \<times> real list" where
  "multAdd_adjust eps [] vs = ([], vs)"
| "multAdd_adjust eps (i # is) vs =
     (let x = vs ! i in
      if x > eps \<or> x < - eps
      then (let (ks, ws) = multAdd_adjust eps is vs in (i # ks, ws))
      else multAdd_adjust eps is (vs[i := 0]))"

definition multAdd_SV :: "real \<Rightarrow> svector \<Rightarrow> ssvector \<Rightarrow> ssvector option" where
  "multAdd_SV xx svec v =
     (if \<exists>e \<in> set svec. \<not> fst e < dim v then None
      else if isSetup v then
        (let (vs, ix, adjust) = multAdd_loop (epsilon v) xx (rev svec) (val v, idx v, False)
         in if adjust
            then (let (ks, ws) = multAdd_adjust (epsilon v) ix vs in Some (v\<lparr>val := ws, idx := ks\<rparr>))
            else Some (v\<lparr>val := vs, idx := ix\<rparr>))
      else Some (v\<lparr>val := Vector_multAdd_SV xx svec (val v)\<rparr>))"

text \<open>
  \<^verbatim>\<open>SSVector::isConsistent()\<close>, the check behind the closing assertions, without the
  comparison against the allocated size of the index array. The tests of the base
  classes are read as: indices are distinct and lie inside the vector.
\<close>

definition isConsistent :: "ssvector \<Rightarrow> bool" where
  "isConsistent v \<longleftrightarrow>
     (\<forall>j \<in> set (idx v). j < dim v) \<and>
     (isSetup v \<longrightarrow> (\<forall>i < dim v. val v ! i \<noteq> 0 \<longrightarrow> number (idx v) i \<ge> 0)) \<and>
     distinct (idx v)"

section \<open>SLUFactor (slufactor.cpp)\<close>

text \<open>
  \<^verbatim>\<open>SLinSolver::Status\<close> and \<^verbatim>\<open>SLinSolver::UpdateType\<close> are declared in headers that
  are not part of the sources at hand; the constructors are the names slufactor.cpp uses
  (\<^verbatim>\<open>OK\<close>, \<^verbatim>\<open>UNLOADED\<close>, \<^verbatim>\<open>ETA\<close>, \<^verbatim>\<open>FOREST_TOMLIN\<close>) and the
  failure statuses of the specification.
\<close>

datatype lu_status = OK | INCONSISTENT | SINGULAR | UNLOADED | ERROR

datatype update_type = ETA | FOREST_TOMLIN

text \<open>
  The members of the base class \<^verbatim>\<open>CLUFactor\<close> that slufactor.cpp reads or writes
  (see \<^verbatim>\<open>SLUFactor::assign\<close>, block ``clufactor''); \<open>lu_data\<close> stands for the
  permutations and the L and U stores, which only \<^verbatim>\<open>CLUFactor\<close> itself touches.
\<close>

record 'c clufactor =
  stat :: lu_status
  thedim :: int
  initMaxabs :: real
  maxabs :: real
  l_updateType :: update_type
  l_firstUpdate :: int
  l_firstUnused :: int
  lu_data :: 'c

definition MINSTABILITY :: real where
  "MINSTABILITY = 1 / 10 ^ 2"

text \<open>\<^verbatim>\<open>SLUFactor::stability()\<close>, on the base-class members it reads.\<close>

definition stability :: "'c clufactor \<Rightarrow> real" where
  "stability f =
     (if stat f \<noteq> OK then 0
      else if maxabs f < initMaxabs f then 1
      else initMaxabs f / maxabs f)"

text \<open>The static helper \<^verbatim>\<open>betterThreshold\<close>.\<close>

definition betterThreshold :: "real \<Rightarrow> real" where
  "betterThreshold th =
     (if th < 0.1 then th * 10.0
      else if th < 0.9 then (th + 1.0) / 2.0
      else if th < 0.999 then 0.99999
      else th)"

text \<open>
  The members of \<^verbatim>\<open>SLUFactor\<close> itself (see \<^verbatim>\<open>SLUFactor::assign\<close>, block
  ``slufactor'', and the constructor).
\<close>

record 'c slufactor =
  clu :: "'c clufactor"
  vec :: "real list"
  ssvec :: ssvector
  usetup :: bool
  uptype :: update_type
  eta :: ssvector
  forest :: ssvector
  minThreshold :: real
  minStability :: real
  lu_epsilon :: real
  lastThreshold :: real

text \<open>
  \<^verbatim>\<open>SLUFactor::clear()\<close>. \<open>epsFact\<close> is the value of
  \<^verbatim>\<open>Param::epsilonFactorization()\<close>; the memory multipliers and the reallocation of
  the stores are left out.
\<close>

definition SLUFactor_clear :: "real \<Rightarrow> 'c slufactor \<Rightarrow> 'c slufactor" where
  "SLUFactor_clear epsFact s =
     (let s1 = s\<lparr>clu := (clu s)\<lparr>l_firstUpdate := 0, l_firstUnused := 0, thedim := 1\<rparr>\<rparr>;
          s2 = s1\<lparr>lu_epsilon := epsFact, usetup := False\<rparr>;
          s3 = s2\<lparr>clu := (clu s2)\<lparr>maxabs := 1, initMaxabs := 1\<rparr>\<rparr>;
          s4 = s3\<lparr>minThreshold := 0.01\<rparr>;
          s5 = s4\<lparr>lastThreshold := minThreshold s4\<rparr>;
          s6 = s5\<lparr>minStability := MINSTABILITY\<rparr>;
          s7 = s6\<lparr>clu := (clu s6)\<lparr>stat := UNLOADED\<rparr>\<rparr>
      in s7\<lparr>vec := Vector_clear (vec s7), eta := clear (eta s7),
             ssvec := clear (ssvec s7), forest := clear (forest s7)\<rparr>)"

text \<open>
  The loop \<^verbatim>\<open>for (;;)\<close> that ends \<^verbatim>\<open>SLUFactor::load\<close>. \<open>factor\<close> is
  \<^verbatim>\<open>CLUFactor::factor(matrix, threshold, eps)\<close>, which is not part of the sources and
  works on the base-class members. The loop has no bound of its own, hence the
  result is optional: \<open>None\<close> is a run that never leaves the loop.
\<close>

partial_function (option) load_refactor ::
  "('m \<Rightarrow> real \<Rightarrow> real \<Rightarrow> 'c clufactor \<Rightarrow> 'c clufactor) \<Rightarrow> 'm \<Rightarrow> 'c slufactor \<Rightarrow> 'c slufactor option" where
  "load_refactor factor matrix s =
     (let s1 = s\<lparr>clu := (clu s)\<lparr>stat := OK\<rparr>\<rparr>;
          s2 = s1\<lparr>clu := factor matrix (lastThreshold s1) (lu_epsilon s1) (clu s1)\<rparr>
      in if stability (clu s2) \<ge> minStability s2 then Some s2
         else
           (let x = lastThreshold s2;
                s3 = s2\<lparr>lastThreshold := betterThreshold (lastThreshold s2)\<rparr>
            in if x = lastThreshold s3 then Some s3
               else load_refactor factor matrix (s3\<lparr>minStability := minStability s3 / 2.0\<rparr>)))"

text \<open>The first two statements of the loop body: \<^verbatim>\<open>stat = OK; factor(...)\<close>.\<close>

definition refactored ::
  "('m \<Rightarrow> real \<Rightarrow> real \<Rightarrow> 'c clufactor \<Rightarrow> 'c clufactor) \<Rightarrow> 'm \<Rightarrow> 'c slufactor \<Rightarrow> 'c slufactor" where
  "refactored factor matrix s =
     s\<lparr>clu := factor matrix (lastThreshold s) (lu_epsilon s) ((clu s)\<lparr>stat := OK\<rparr>)\<rparr>"

text \<open>
  The rest of the loop body on the path that goes round again: the threshold is raised by
  \<open>betterThreshold\<close> and \<^verbatim>\<open>minStability\<close> is halved. \<open>raised factor matrix s\<close> is
  the state in which the next round starts.
\<close>

definition raised ::
  "('m \<Rightarrow> real \<Rightarrow> real \<Rightarrow> 'c clufactor \<Rightarrow> 'c clufactor) \<Rightarrow> 'm \<Rightarrow> 'c slufactor \<Rightarrow> 'c slufactor" where
  "raised factor matrix s =
     (refactored factor matrix s)\<lparr>lastThreshold := betterThreshold (lastThreshold s),
                                     minStability := minStability s / 2.0\<rparr>"

text \<open>
  The update routines of \<^verbatim>\<open>CLUFactor\<close> that \<^verbatim>\<open>SLUFactor::change\<close> calls are not part
  of the sources. They receive raw arrays, which they may overwrite, so each one
  returns the arrays next to the new base-class state. A null pointer for the index
  array is \<open>None\<close>.
\<close>

record 'c clu_ops =
  forestUpdate :: "int \<Rightarrow> real list \<Rightarrow> int \<Rightarrow> nat list option \<Rightarrow> 'c clufactor \<Rightarrow> 'c clufactor \<times> real list \<times> nat list"
  update :: "int \<Rightarrow> real list \<Rightarrow> nat list \<Rightarrow> int \<Rightarrow> 'c clufactor \<Rightarrow> 'c clufactor \<times> real list \<times> nat list"
  updateNoClear :: "int \<Rightarrow> real list \<Rightarrow> nat list \<Rightarrow> int \<Rightarrow> 'c clufactor \<Rightarrow> 'c clufactor"
  solveLright :: "real list \<Rightarrow> 'c clufactor \<Rightarrow> 'c clufactor \<times> real list"
  solveRight :: "real list \<Rightarrow> real list \<Rightarrow> 'c clufactor \<Rightarrow> 'c clufactor \<times> real list \<times> real list"

text \<open>
  \<^verbatim>\<open>SLUFactor::changeEta(idx, et)\<close>, on the base-class state and the vector. Its first
  statement is \<^verbatim>\<open>int es = et.size()\<close>, so a build with assertions aborts when
  \<open>et\<close> is not set up.
\<close>

definition changeEta ::
  "bool \<Rightarrow> 'c clu_ops \<Rightarrow> int \<Rightarrow> ssvector \<Rightarrow> 'c clufactor \<Rightarrow> ('c clufactor \<times> ssvector) option" where
  "changeEta NDEBUG ops i et c =
     (case size NDEBUG et of
        None \<Rightarrow> None
      | Some es \<Rightarrow>
          (let (c1, vs, ix) = update ops i (val et) (idx et) es c;
               et1 = (unSetup et)\<lparr>val := vs, idx := ix\<rparr>
           in Some (c1, forceSetup (setSize 0 et1))))"

text \<open>
  The assignment \<^verbatim>\<open>forest = subst\<close> is \<^verbatim>\<open>SSVector::operator=(const SVector&)\<close>:
  \<^verbatim>\<open>clear()\<close>, which ends with \<^verbatim>\<open>assert(isConsistent())\<close>, then \<^verbatim>\<open>assign(rhs)\<close>,
  which begins with \<^verbatim>\<open>assert(rhs.dim() <= Vector::dim())\<close> and ends with
  \<^verbatim>\<open>assert(isConsistent())\<close>. \<^verbatim>\<open>SVector::dim()\<close>, not part of the sources, is read
  as the largest index plus one. A failing assertion is \<open>None\<close> when \<open>NDEBUG\<close>
  is false.
\<close>

definition assign_SVector_asserting :: "bool \<Rightarrow> svector \<Rightarrow> ssvector \<Rightarrow> ssvector option" where
  "assign_SVector_asserting NDEBUG rhs v =
     (let v1 = clear v in
      if \<not> NDEBUG \<and> \<not> isConsistent v1 then None
      else if \<not> NDEBUG \<and> (\<exists>e \<in> set rhs. \<not> fst e < dim v1) then None
      else
        (let v2 = assign rhs v1 in
         if \<not> NDEBUG \<and> \<not> isConsistent v2 then None else Some v2))"

text \<open>
  \<^verbatim>\<open>SLUFactor::change(idx, subst, e)\<close>. \<open>change_prepared\<close> is the branch taken when
  \<^verbatim>\<open>usetup\<close> holds: it consumes the vectors \<^verbatim>\<open>forest\<close> or \<^verbatim>\<open>eta\<close> that a preceding
  \<^verbatim>\<open>solveRight4update\<close> left behind. \<open>change_fresh\<close> is the rest of the
  \<^verbatim>\<open>if\<close> chain: it works from the argument \<open>e\<close>, or it recomputes the update
  vector from \<open>subst\<close>.

  The result \<open>None\<close> is a failed assertion in a build with assertions (\<open>NDEBUG\<close>
  false). These are \<^verbatim>\<open>assert(l.updateType == ETA)\<close> of the branch that works from
  \<open>e\<close> (the two other assertions of that form cannot fail, as the update type has two
  values), the assertion \<^verbatim>\<open>assert(isSetup())\<close> inside every call of \<^verbatim>\<open>size()\<close>, and
  the assertions of \<^verbatim>\<open>clear()\<close> and \<^verbatim>\<open>assign()\<close>. In the last branch
  \<^verbatim>\<open>eta.altValues()\<close> unsets \<^verbatim>\<open>eta\<close> before \<^verbatim>\<open>changeEta\<close> takes its size.
\<close>

definition change_prepared :: "bool \<Rightarrow> 'c clu_ops \<Rightarrow> int \<Rightarrow> 'c slufactor \<Rightarrow> 'c slufactor option" where
  "change_prepared NDEBUG ops i s =
     (if l_updateType (clu s) = FOREST_TOMLIN then
        (case size NDEBUG (forest s) of
           None \<Rightarrow> None
         | Some fsize \<Rightarrow>
             (let (c, vs, ix) = forestUpdate ops i (val (forest s)) fsize (Some (idx (forest s))) (clu s);
                  f = (unSetup (forest s))\<lparr>val := vs, idx := ix\<rparr>
              in Some (s\<lparr>clu := c, forest := forceSetup (setSize 0 f)\<rparr>)))
      else
        (case changeEta NDEBUG ops i (eta s) (clu s) of
           None \<Rightarrow> None
         | Some (c, et) \<Rightarrow> Some (s\<lparr>clu := c, eta := et\<rparr>)))"

definition change_fresh ::
  "bool \<Rightarrow> 'c clu_ops \<Rightarrow> int \<Rightarrow> svector \<Rightarrow> ssvector option \<Rightarrow> 'c slufactor \<Rightarrow> 'c slufactor option" where
  "change_fresh NDEBUG ops i subst e s =
     (case e of
        Some ev \<Rightarrow>
          if \<not> NDEBUG \<and> l_updateType (clu s) \<noteq> ETA then None
          else
            (let c0 = (clu s)\<lparr>l_updateType := ETA\<rparr>
             in case size NDEBUG ev of
                  None \<Rightarrow> None
                | Some es \<Rightarrow> Some (s\<lparr>clu := updateNoClear ops i (val ev) (idx ev) es c0\<rparr>))
      | None \<Rightarrow>
          if l_updateType (clu s) = FOREST_TOMLIN then
            (case assign_SVector_asserting NDEBUG subst (forest s) of
               None \<Rightarrow> None
             | Some f0 \<Rightarrow>
                 (let (c1, vs1) = solveLright ops (val f0) (clu s);
                      f1 = (unSetup f0)\<lparr>val := vs1\<rparr>;
                      (c2, vs2, ix2) = forestUpdate ops i (val f1) 0 None c1;
                      f2 = f1\<lparr>val := vs2\<rparr>
                  in Some (s\<lparr>clu := c2, forest := forceSetup (setSize 0 f2)\<rparr>)))
          else
            (let vec1 = Vector_assign_SV subst (vec s);
                 eta0 = clear (eta s)
             in if \<not> NDEBUG \<and> \<not> isConsistent eta0 then None
                else
                  (let (c1, xs, bs) = solveRight ops (val eta0) vec1 (clu s);
                       eta1 = (unSetup eta0)\<lparr>val := xs\<rparr>
                   in case changeEta NDEBUG ops i eta1 c1 of
                        None \<Rightarrow> None
                      | Some (c2, et) \<Rightarrow> Some (s\<lparr>clu := c2, vec := bs, eta := et\<rparr>))))"

definition change ::
  "bool \<Rightarrow> 'c clu_ops \<Rightarrow> int \<Rightarrow> svector \<Rightarrow> ssvector option \<Rightarrow> 'c slufactor \<Rightarrow> (lu_status \<times> 'c slufactor) option" where
  "change NDEBUG ops i subst e s =
     (case (if usetup s then change_prepared NDEBUG ops i s
            else change_fresh NDEBUG ops i subst e s) of
        None \<Rightarrow> None
      | Some s1 \<Rightarrow> (let s2 = s1\<lparr>usetup := False\<rparr> in Some (stat (clu s2), s2)))"

text \<open>
  The default constructor \<^verbatim>\<open>SLUFactor::SLUFactor()\<close>: vectors of dimension one, the
  update type \<^verbatim>\<open>FOREST_TOMLIN\<close>, then \<^verbatim>\<open>SLUFactor::clear()\<close>. The constructor leaves
  \<^verbatim>\<open>l.updateType\<close> and the stores uninitialised; they are the arguments \<open>ut\<close> and
  \<open>d\<close>.
\<close>

definition SLUFactor_new :: "real \<Rightarrow> update_type \<Rightarrow> 'c \<Rightarrow> 'c slufactor" where
  "SLUFactor_new epsFact ut d =
     SLUFactor_clear epsFact
       \<lparr>clu = \<lparr>stat = UNLOADED, thedim = 1, initMaxabs = 1, maxabs = 1, l_updateType = ut,
                l_firstUpdate = 0, l_firstUnused = 0, lu_data = d\<rparr>,
        vec = [0],
        ssvec = SSVector 1 (1 / 10 ^ 16),
        usetup = False,
        uptype = FOREST_TOMLIN,
        eta = SSVector 1 (1 / 10 ^ 16),
        forest = SSVector 1 (1 / 10 ^ 16),
        minThreshold = 0.01,
        minStability = MINSTABILITY,
        lu_epsilon = epsFact,
        lastThreshold = 0.01\<rparr>"

text \<open>
  Update routines that leave everything as it is: an instance of \<open>clu_ops\<close> for
  concrete runs.
\<close>

definition idle_ops :: "'c clu_ops" where
  "idle_ops =
     \<lparr>forestUpdate = (\<lambda>i vs n ix c. (c, vs, [])),
      update = (\<lambda>i vs ix n c. (c, vs, ix)),
      updateNoClear = (\<lambda>i vs ix n c. c),
      solveLright = (\<lambda>vs c. (c, vs)),
      solveRight = (\<lambda>xs bs c. (c, xs, bs))\<rparr>"


section \<open>The refinement driver (soplex/solverational.hpp)\<close>

subsection \<open>Progress of the refinement loop\<close>









subsection \<open>Scaling factors\<close>

text \<open>
  Modelled from the spec: the class \<^verbatim>\<open>Rational\<close> with \<^verbatim>\<open>invert\<close> and \<^verbatim>\<open>powRound\<close> is
  missing from the sources. \<open>invert\<close> is the reciprocal. For \<open>powRound\<close> the
  specification says that under \<^verbatim>\<open>POWERSCALING\<close> the factors are rounded down to a power
  of two: \<open>powRound r\<close> is the greatest power of two, with an integer exponent, that
  does not exceed a positive \<open>r\<close>; other values are left as they are.
\<close>

definition invert :: "rat \<Rightarrow> rat" where
  "invert r = 1 / r"

definition powRound :: "rat \<Rightarrow> rat" where
  "powRound r =
     (if r \<le> 0 then r
      else if 1 \<le> r then 2 ^ (floorlog 2 (nat \<lfloor>r\<rfloor>) - 1)
      else 1 / 2 ^ floorlog 2 (nat \<lceil>1 / r\<rceil> - 1))"

definition is_pow2 :: "rat \<Rightarrow> bool" where
  "is_pow2 r \<longleftrightarrow> (\<exists>k::nat. r = 2 ^ k \<or> r = 1 / 2 ^ k)"

text \<open>
  The variables of \<^verbatim>\<open>_performOptIRStable\<close> that the two scaling functions receive by
  reference, and the member \<^verbatim>\<open>_modObj\<close>.
\<close>

record scales =
  maxScale :: rat
  primalScale :: rat
  dualScale :: rat
  modObj :: "rat list"

text \<open>
  \<^verbatim>\<open>_computePrimalScalingFactor\<close>; the arguments \<open>maxscaleincr\<close> and
  \<open>POWERSCALING\<close> are the member \<^verbatim>\<open>_rationalMaxscaleincr\<close> and the Boolean parameter.
  The assertion \<^verbatim>\<open>primalScale >= 0\<close> is not a branch: a negative value goes the way
  of zero.
\<close>

definition computePrimalScalingFactor :: "rat \<Rightarrow> bool \<Rightarrow> rat \<Rightarrow> rat \<Rightarrow> rat \<Rightarrow> scales \<Rightarrow> scales" where
  "computePrimalScalingFactor maxscaleincr POWERSCALING boundsViolation sideViolation redCostViolation st =
     (let st1 = st\<lparr>maxScale := primalScale st\<rparr>;
          st2 = st1\<lparr>maxScale := maxScale st1 * maxscaleincr\<rparr>;
          st3 = st2\<lparr>primalScale := (if boundsViolation > sideViolation then boundsViolation else sideViolation)\<rparr>;
          st4 = (if primalScale st3 < redCostViolation then st3\<lparr>primalScale := redCostViolation\<rparr> else st3);
          st5 = (if primalScale st4 > 0 then
                   (let t = st4\<lparr>primalScale := invert (primalScale st4)\<rparr>
                    in if primalScale t > maxScale t then t\<lparr>primalScale := maxScale t\<rparr> else t)
                 else st4\<lparr>primalScale := maxScale st4\<rparr>)
      in if POWERSCALING then st5\<lparr>primalScale := powRound (primalScale st5)\<rparr> else st5)"

text \<open>
  The first statement of \<^verbatim>\<open>_applyScaledBounds(primalScale)\<close>, which runs between the two
  scaling functions; the rest of that function rewrites the bounds of the LPs.
\<close>

definition applyScaledBounds_scale :: "scales \<Rightarrow> scales" where
  "applyScaledBounds_scale st = (if primalScale st < 1 then st\<lparr>primalScale := 1\<rparr> else st)"

text \<open>\<^verbatim>\<open>_computeDualScalingFactor\<close>.\<close>

definition computeDualScalingFactor :: "rat \<Rightarrow> bool \<Rightarrow> rat \<Rightarrow> rat \<Rightarrow> scales \<Rightarrow> scales" where
  "computeDualScalingFactor maxscaleincr POWERSCALING redCostViolation dualViolation st =
     (let st1 = st\<lparr>maxScale := dualScale st\<rparr>;
          st2 = st1\<lparr>maxScale := maxScale st1 * maxscaleincr\<rparr>;
          st3 = st2\<lparr>dualScale := (if redCostViolation > dualViolation then redCostViolation else dualViolation)\<rparr>;
          st4 = (if dualScale st3 > 0 then
                   (let t = st3\<lparr>dualScale := invert (dualScale st3)\<rparr>
                    in if dualScale t > maxScale t then t\<lparr>dualScale := maxScale t\<rparr> else t)
                 else st3\<lparr>dualScale := maxScale st3\<rparr>);
          st5 = (if POWERSCALING then st4\<lparr>dualScale := powRound (dualScale st4)\<rparr> else st4);
          st6 = (if dualScale st5 > primalScale st5 then st5\<lparr>dualScale := primalScale st5\<rparr> else st5)
      in if dualScale st6 < 1 then st6\<lparr>dualScale := 1\<rparr>
         else st6\<lparr>modObj := map (\<lambda>x. x * dualScale st6) (modObj st6)\<rparr>)"


subsection \<open>Linear programs, basis statuses and solutions\<close>

text \<open>
  The enumerations \<^verbatim>\<open>SPxSolverBase::VarStatus\<close> and \<^verbatim>\<open>RangeType\<close> are declared in
  headers that are not part of the sources; the constructors are the names
  solverational.hpp uses.
\<close>

datatype VarStatus = ON_UPPER | ON_LOWER | FIXED | ZERO | BASIC | UNDEFINED

datatype RangeType =
  RANGETYPE_FREE | RANGETYPE_LOWER | RANGETYPE_UPPER | RANGETYPE_BOXED | RANGETYPE_FIXED

text \<open>
  Modelled from the spec: \<^verbatim>\<open>_lowerFinite\<close> and \<^verbatim>\<open>_upperFinite\<close> (soplex.h of the
  driver) are missing from the sources. The specification asks that a range type
  agrees with the finiteness of the bounds it describes.
\<close>

definition lowerFinite :: "RangeType \<Rightarrow> bool" where
  "lowerFinite t \<longleftrightarrow> t = RANGETYPE_LOWER \<or> t = RANGETYPE_BOXED \<or> t = RANGETYPE_FIXED"

definition upperFinite :: "RangeType \<Rightarrow> bool" where
  "upperFinite t \<longleftrightarrow> t = RANGETYPE_UPPER \<or> t = RANGETYPE_BOXED \<or> t = RANGETYPE_FIXED"

text \<open>
  Modelled from the spec: the LP class \<^verbatim>\<open>SPxLPBase\<close> is missing from the sources. By
  the specification an LP is an ordered sequence of rows and columns; a column has a
  lower bound, an upper bound and an objective coefficient, a row has a left-hand
  side, a right-hand side and a sparse coefficient vector; the objective is stored
  for maximization, and the sense tells whether the user minimizes. The column
  vectors are the transpose of the rows and are not stored a second time.
\<close>

datatype Sense = MAXIMIZE | MINIMIZE

record 'a lp =
  lp_lower :: "'a list"
  lp_upper :: "'a list"
  lp_maxObj :: "'a list"
  lp_lhs :: "'a list"
  lp_rhs :: "'a list"
  lp_rowVector :: "(nat \<times> 'a) list list"
  lp_sense :: Sense

definition nCols :: "'a lp \<Rightarrow> nat" where
  "nCols l = length (lp_lower l)"

definition nRows :: "'a lp \<Rightarrow> nat" where
  "nRows l = length (lp_lhs l)"

definition changeLhs :: "nat \<Rightarrow> 'a \<Rightarrow> 'a lp \<Rightarrow> 'a lp" where
  "changeLhs r x l = l\<lparr>lp_lhs := (lp_lhs l)[r := x]\<rparr>"

definition changeRhs :: "nat \<Rightarrow> 'a \<Rightarrow> 'a lp \<Rightarrow> 'a lp" where
  "changeRhs r x l = l\<lparr>lp_rhs := (lp_rhs l)[r := x]\<rparr>"

definition changeLower :: "nat \<Rightarrow> 'a \<Rightarrow> 'a lp \<Rightarrow> 'a lp" where
  "changeLower c x l = l\<lparr>lp_lower := (lp_lower l)[c := x]\<rparr>"

definition changeUpper :: "nat \<Rightarrow> 'a \<Rightarrow> 'a lp \<Rightarrow> 'a lp" where
  "changeUpper c x l = l\<lparr>lp_upper := (lp_upper l)[c := x]\<rparr>"

definition changeBounds :: "nat \<Rightarrow> 'a \<Rightarrow> 'a \<Rightarrow> 'a lp \<Rightarrow> 'a lp" where
  "changeBounds c lo up l = changeUpper c up (changeLower c lo l)"

definition changeMaxObj :: "nat \<Rightarrow> 'a \<Rightarrow> 'a lp \<Rightarrow> 'a lp" where
  "changeMaxObj c x l = l\<lparr>lp_maxObj := (lp_maxObj l)[c := x]\<rparr>"

definition changeObj :: "nat \<Rightarrow> 'a::uminus \<Rightarrow> 'a lp \<Rightarrow> 'a lp" where
  "changeObj c x l = changeMaxObj c (if lp_sense l = MINIMIZE then - x else x) l"

text \<open>
  \<open>addRow\<close> appends a row. A row that mentions columns beyond the last one makes
  the LP create them; \<open>(lo, up, obj)\<close> are the bounds and objective coefficient of a
  created column.
\<close>

definition addRow :: "'a \<times> 'a \<times> 'a \<Rightarrow> 'a \<Rightarrow> (nat \<times> 'a) list \<Rightarrow> 'a \<Rightarrow> 'a lp \<Rightarrow> 'a lp" where
  "addRow newCol lhs rowvec rhs l =
     (let k = fold (\<lambda>e m. max m (Suc (fst e))) rowvec (nCols l) - nCols l
      in l\<lparr>lp_lhs := lp_lhs l @ [lhs],
           lp_rhs := lp_rhs l @ [rhs],
           lp_rowVector := lp_rowVector l @ [rowvec],
           lp_lower := lp_lower l @ replicate k (fst newCol),
           lp_upper := lp_upper l @ replicate k (fst (snd newCol)),
           lp_maxObj := lp_maxObj l @ replicate k (snd (snd newCol))\<rparr>)"

text \<open>
  \<open>removeRowRange a b\<close> and \<open>removeColRange a b\<close> remove the rows or columns
  \<open>a, \<dots>, b\<close> (none when \<open>b < a\<close>); the entries of removed columns leave the row
  vectors and the indices of later columns move down. \<open>removeRow\<close> and
  \<open>removeCol\<close> remove one row or column.
\<close>

definition cut :: "int \<Rightarrow> int \<Rightarrow> 'b list \<Rightarrow> 'b list" where
  "cut a b xs = (if b < a then xs else take (nat a) xs @ drop (nat (b + 1)) xs)"

definition removeRowRange :: "int \<Rightarrow> int \<Rightarrow> 'a lp \<Rightarrow> 'a lp" where
  "removeRowRange a b l =
     l\<lparr>lp_lhs := cut a b (lp_lhs l), lp_rhs := cut a b (lp_rhs l),
       lp_rowVector := cut a b (lp_rowVector l)\<rparr>"

definition cut_row :: "int \<Rightarrow> int \<Rightarrow> (nat \<times> 'a) list \<Rightarrow> (nat \<times> 'a) list" where
  "cut_row a b row =
     (if b < a then row
      else map (\<lambda>(j, x). (if int j > b then nat (int j - (b - a + 1)) else j, x))
             (filter (\<lambda>(j, x). int j < a \<or> b < int j) row))"

definition removeColRange :: "int \<Rightarrow> int \<Rightarrow> 'a lp \<Rightarrow> 'a lp" where
  "removeColRange a b l =
     l\<lparr>lp_lower := cut a b (lp_lower l), lp_upper := cut a b (lp_upper l),
       lp_maxObj := cut a b (lp_maxObj l),
       lp_rowVector := map (cut_row a b) (lp_rowVector l)\<rparr>"

definition removeRow :: "nat \<Rightarrow> 'a lp \<Rightarrow> 'a lp" where
  "removeRow r l = removeRowRange (int r) (int r) l"

definition removeCol :: "nat \<Rightarrow> 'a lp \<Rightarrow> 'a lp" where
  "removeCol c l = removeColRange (int c) (int c) l"

text \<open>
  \<open>computePrimalActivity\<close> is the product of the constraint matrix with a primal
  vector, \<open>getObj\<close> the objective in the sense of the user, \<open>subDualActivity\<close>
  subtracts the product of a dual vector with the matrix.
\<close>

definition computePrimalActivity :: "rat lp \<Rightarrow> rat list \<Rightarrow> rat list" where
  "computePrimalActivity l primal =
     map (\<lambda>row. sum_list (map (\<lambda>(j, a). a * primal ! j) row)) (lp_rowVector l)"

definition getObj :: "rat lp \<Rightarrow> rat list" where
  "getObj l = map (\<lambda>x. if lp_sense l = MINIMIZE then - x else x) (lp_maxObj l)"

definition subDualActivity :: "rat lp \<Rightarrow> rat list \<Rightarrow> rat list \<Rightarrow> rat list" where
  "subDualActivity l dual v =
     fold (\<lambda>(r, row) w. fold (\<lambda>(j, a) u. u[j := u ! j - dual ! r * a]) row w)
       (zip [0 ..< length (lp_rowVector l)] (lp_rowVector l)) v"

text \<open>
  Modelled from the spec: the vector and array classes are missing from the sources.
  \<open>reDim n\<close> gives a vector of dimension \<open>n\<close>, new entries are zero;
  \<open>reSize n\<close> shortens an array to \<open>n\<close> entries (no modelled call enlarges one).
\<close>

definition reDim :: "nat \<Rightarrow> rat list \<Rightarrow> rat list" where
  "reDim n v = take n v @ replicate (n - length v) 0"

definition reSize :: "nat \<Rightarrow> 'b list \<Rightarrow> 'b list" where
  "reSize n xs = take n xs"

text \<open>
  The loops \<^verbatim>\<open>for (i = n - 1; i >= 0; i--)\<close> and \<^verbatim>\<open>for (i = a; i < n && guard; i++)\<close>
  of the driver, over a state.
\<close>

fun for_down :: "(nat \<Rightarrow> 's \<Rightarrow> 's) \<Rightarrow> nat \<Rightarrow> 's \<Rightarrow> 's" where
  "for_down body 0 st = st"
| "for_down body (Suc i) st = for_down body i (body i st)"

function for_up :: "('s \<Rightarrow> bool) \<Rightarrow> (nat \<Rightarrow> 's \<Rightarrow> 's) \<Rightarrow> nat \<Rightarrow> nat \<Rightarrow> 's \<Rightarrow> 's" where
  "for_up guard body i n st =
     (if i < n \<and> guard st then for_up guard body (Suc i) n (body i st) else st)"
  by pat_completeness auto
termination
  by (relation "measure (\<lambda>(guard, body, i, n, st). n - i)") auto

text \<open>
  The solution object \<^verbatim>\<open>SolRational\<close> (its class is not part of the sources; the
  members are the ones solverational.hpp names).
\<close>

record SolRational =
  sol_primal :: "rat list"
  sol_slacks :: "rat list"
  sol_dual :: "rat list"
  sol_redCost :: "rat list"
  sol_primalRay :: "rat list"
  sol_dualFarkas :: "rat list"
  sol_isPrimalFeasible :: bool
  sol_isDualFeasible :: bool
  sol_hasPrimalRay :: bool
  sol_hasDualFarkas :: bool

text \<open>
  The members of \<^verbatim>\<open>SoPlexBase\<close> that the modelled functions of the driver read or
  write.
\<close>

record soplex =
  rationalLP :: "rat lp"
  realLP :: "real lp"
  colTypes :: "RangeType list"
  rowTypes :: "RangeType list"
  basisStatusCols :: "VarStatus list"
  basisStatusRows :: "VarStatus list"
  hasBasis :: bool
  unboundedLower :: "rat list"
  unboundedUpper :: "rat list"
  unboundedLhs :: "rat list"
  unboundedRhs :: "rat list"
  beforeLiftCols :: int
  beforeLiftRows :: int

definition numColsRational :: "soplex \<Rightarrow> nat" where
  "numColsRational s = nCols (rationalLP s)"

definition numRowsRational :: "soplex \<Rightarrow> nat" where
  "numRowsRational s = nRows (rationalLP s)"

definition numColsReal :: "soplex \<Rightarrow> nat" where
  "numColsReal s = nCols (realLP s)"

definition numRowsReal :: "soplex \<Rightarrow> nat" where
  "numRowsReal s = nRows (realLP s)"

definition lowerRational :: "soplex \<Rightarrow> nat \<Rightarrow> rat" where
  "lowerRational s c = lp_lower (rationalLP s) ! c"

definition upperRational :: "soplex \<Rightarrow> nat \<Rightarrow> rat" where
  "upperRational s c = lp_upper (rationalLP s) ! c"

definition lhsRational :: "soplex \<Rightarrow> nat \<Rightarrow> rat" where
  "lhsRational s r = lp_lhs (rationalLP s) ! r"

definition rhsRational :: "soplex \<Rightarrow> nat \<Rightarrow> rat" where
  "rhsRational s r = lp_rhs (rationalLP s) ! r"

subsection \<open>Storing the floating-point solution\<close>

text \<open>
  \<^verbatim>\<open>_storeRealSolutionAsRational\<close>. The state of the function is the driver, the
  solution and the counter \<^verbatim>\<open>dualSize\<close>; \<open>assignR\<close> is the exact conversion
  \<^verbatim>\<open>Rational::assign\<close> of a floating-point number.
\<close>

definition store_col :: "(real \<Rightarrow> rat) \<Rightarrow> real list \<Rightarrow> nat \<Rightarrow> soplex \<times> SolRational \<Rightarrow> soplex \<times> SolRational" where
  "store_col assignR primalReal c = (\<lambda>(s, sol).
     (let basisStatusCol = basisStatusCols s ! c
      in if basisStatusCol = ON_LOWER
           then (s, sol\<lparr>sol_primal := (sol_primal sol)[c := lowerRational s c]\<rparr>)
         else if basisStatusCol = ON_UPPER
           then (s, sol\<lparr>sol_primal := (sol_primal sol)[c := upperRational s c]\<rparr>)
         else if basisStatusCol = FIXED
           then (s\<lparr>basisStatusCols := (basisStatusCols s)[c := ON_LOWER]\<rparr>,
                 sol\<lparr>sol_primal := (sol_primal sol)[c := lowerRational s c]\<rparr>)
         else if basisStatusCol = ZERO
           then (s, sol\<lparr>sol_primal := (sol_primal sol)[c := 0]\<rparr>)
         else (s, sol\<lparr>sol_primal := (sol_primal sol)[c := assignR (primalReal ! c)]\<rparr>)))"

definition store_row :: "(real \<Rightarrow> rat) \<Rightarrow> real list \<Rightarrow> nat \<Rightarrow> soplex \<times> SolRational \<times> int \<Rightarrow> soplex \<times> SolRational \<times> int" where
  "store_row assignR dualReal r = (\<lambda>(s, sol, dualSize).
     (let s1 = (if basisStatusRows s ! r = FIXED
                then s\<lparr>basisStatusRows := (basisStatusRows s)[r := ON_LOWER]\<rparr> else s);
          sol1 = sol\<lparr>sol_dual := (sol_dual sol)[r := assignR (dualReal ! r)]\<rparr>
      in (s1, sol1, if dualReal ! r \<noteq> 0 then dualSize + 1 else dualSize)))"

definition storeRealSolutionAsRational ::
  "(real \<Rightarrow> rat) \<Rightarrow> real list \<Rightarrow> real list \<Rightarrow> soplex \<times> SolRational \<times> int \<Rightarrow> soplex \<times> SolRational \<times> int" where
  "storeRealSolutionAsRational assignR primalReal dualReal = (\<lambda>(s, sol, dualSize).
     (let sol1 = sol\<lparr>sol_primal := reDim (numColsRational s) (sol_primal sol),
                     sol_slacks := reDim (numRowsRational s) (sol_slacks sol),
                     sol_dual := reDim (numRowsRational s) (sol_dual sol),
                     sol_redCost := reDim (numColsRational s) (sol_redCost sol),
                     sol_isPrimalFeasible := True,
                     sol_isDualFeasible := True\<rparr>;
          (s2, sol2) = for_down (store_col assignR primalReal) (numColsRational s) (s, sol1);
          sol3 = sol2\<lparr>sol_slacks := computePrimalActivity (rationalLP s2) (sol_primal sol2)\<rparr>;
          (s4, sol4, dualSize4) = for_down (store_row assignR dualReal) (numRowsRational s2) (s2, sol3, dualSize);
          sol5 = sol4\<lparr>sol_redCost := getObj (rationalLP s4)\<rparr>;
          sol6 = sol5\<lparr>sol_redCost := subDualActivity (rationalLP s4) (sol_dual sol5) (sol_redCost sol5)\<rparr>
      in (s4, sol6, dualSize4)))"

subsection \<open>Undoing the lifting\<close>

text \<open>
  \<^verbatim>\<open>_project\<close>. \<open>maxValue\<close> is \<^verbatim>\<open>Rational(realParam(LIFTMAXVAL))\<close> and
  \<open>rationalOpttol\<close> the member \<^verbatim>\<open>_rationalOpttol\<close>. The function is cut into its
  blocks, in the order of the source: shrinking the two LPs, adjusting the primal
  part of the solution, the loop over the reduced costs of the lifting columns,
  adjusting the dual part, adjusting the basis. The three loops test
  \<^verbatim>\<open>numColsRational()\<close> and \<^verbatim>\<open>numRowsRational()\<close> of the LP as it is when they run.
\<close>

definition project_shrink :: "soplex \<Rightarrow> soplex" where
  "project_shrink s =
     (let s1 = s\<lparr>rationalLP := removeColRange (beforeLiftCols s) (int (numColsRational s) - 1) (rationalLP s)\<rparr>;
          s2 = s1\<lparr>rationalLP := removeRowRange (beforeLiftRows s1) (int (numRowsRational s1) - 1) (rationalLP s1)\<rparr>;
          s3 = s2\<lparr>realLP := removeColRange (beforeLiftCols s2) (int (numColsReal s2) - 1) (realLP s2)\<rparr>
      in s3\<lparr>realLP := removeRowRange (beforeLiftRows s3) (int (numRowsReal s3) - 1) (realLP s3)\<rparr>)"

definition project_primal :: "soplex \<Rightarrow> SolRational \<Rightarrow> SolRational" where
  "project_primal s sol =
     (let sol1 = (if sol_isPrimalFeasible sol
                  then sol\<lparr>sol_primal := reDim (nat (beforeLiftCols s)) (sol_primal sol),
                           sol_slacks := reDim (nat (beforeLiftRows s)) (sol_slacks sol)\<rparr>
                  else sol)
      in if sol_hasPrimalRay sol1
         then sol1\<lparr>sol_primalRay := reDim (nat (beforeLiftCols s)) (sol_primalRay sol1)\<rparr>
         else sol1)"

definition project_check_redCost :: "rat \<Rightarrow> rat \<Rightarrow> soplex \<Rightarrow> SolRational \<Rightarrow> SolRational" where
  "project_check_redCost maxValue rationalOpttol s sol =
     for_up sol_isDualFeasible
       (\<lambda>i so. if \<bar>maxValue * sol_redCost so ! i\<bar> > rationalOpttol
                then so\<lparr>sol_isDualFeasible := False\<rparr> else so)
       (nat (beforeLiftCols s)) (numColsRational s) sol"

definition project_dual :: "soplex \<Rightarrow> SolRational \<Rightarrow> SolRational" where
  "project_dual s sol =
     (let sol1 = (if sol_isDualFeasible sol
                  then sol\<lparr>sol_redCost := reDim (nat (beforeLiftCols s)) (sol_redCost sol),
                           sol_dual := reDim (nat (beforeLiftRows s)) (sol_dual sol)\<rparr>
                  else sol)
      in if sol_hasDualFarkas sol1
         then sol1\<lparr>sol_dualFarkas := reDim (nat (beforeLiftRows s)) (sol_dualFarkas sol1)\<rparr>
         else sol1)"

definition project_basis :: "soplex \<Rightarrow> soplex" where
  "project_basis s =
     (let s1 = for_up hasBasis
                 (\<lambda>i st. if basisStatusCols st ! i \<noteq> BASIC then st\<lparr>hasBasis := False\<rparr> else st)
                 (nat (beforeLiftCols s)) (numColsRational s) s;
          s2 = for_up hasBasis
                 (\<lambda>i st. if basisStatusRows st ! i = BASIC then st\<lparr>hasBasis := False\<rparr> else st)
                 (nat (beforeLiftRows s1)) (numRowsRational s1) s1
      in if hasBasis s2
         then s2\<lparr>basisStatusCols := reSize (nat (beforeLiftCols s2)) (basisStatusCols s2),
                 basisStatusRows := reSize (nat (beforeLiftRows s2)) (basisStatusRows s2)\<rparr>
         else s2)"

definition project :: "rat \<Rightarrow> rat \<Rightarrow> soplex \<times> SolRational \<Rightarrow> soplex \<times> SolRational" where
  "project maxValue rationalOpttol = (\<lambda>(s, sol).
     (let s1 = project_shrink s;
          sol1 = project_primal s1 sol;
          sol2 = project_check_redCost maxValue rationalOpttol s1 sol1;
          sol3 = project_dual s1 sol2
      in (project_basis s1, sol3)))"


subsection \<open>The unboundedness problem\<close>

text \<open>
  Modelled from the spec: the sparse vector class \<^verbatim>\<open>DSVectorBase\<close> is missing from the
  sources. Assigning a dense vector to a sparse one keeps its nonzero entries, in the
  order of their indices; \<open>convert_row\<close> is the conversion of a rational sparse
  vector into a floating-point one, \<open>R\<close> being the conversion of a number.
\<close>

definition nonzeros :: "rat list \<Rightarrow> (nat \<times> rat) list" where
  "nonzeros v = filter (\<lambda>e. snd e \<noteq> 0) (zip [0 ..< length v] v)"

definition convert_row :: "(rat \<Rightarrow> real) \<Rightarrow> (nat \<times> rat) list \<Rightarrow> (nat \<times> real) list" where
  "convert_row R row = map (\<lambda>e. (fst e, R (snd e))) row"

text \<open>
  The constants of \<^verbatim>\<open>_transformUnbounded\<close> and \<^verbatim>\<open>_untransformUnbounded\<close>: the real
  parameter \<^verbatim>\<open>INFTY\<close>, the member \<^verbatim>\<open>_rationalNegInfty\<close>, the conversion \<open>R\<close> of a
  rational number into a floating-point number, and the columns that the two LPs
  create when a row is added that mentions a new column.
\<close>

record unbd_consts =
  INFTY :: real
  rationalNegInfty :: rat
  toR :: "rat \<Rightarrow> real"
  newColRational :: "rat \<times> rat \<times> rat"
  newColReal :: "real \<times> real \<times> real"

text \<open>
  \<^verbatim>\<open>_transformUnbounded\<close>, block by block in the order of the source: store bounds
  (\<open>store_bounds\<close>), store sides (\<open>store_sides\<close>), make the sides zero
  (\<open>zero_sides\<close>), move the objective function into a new row with the auxiliary
  column and set objective coefficient and bounds of that column
  (\<open>add_objective_row\<close>), zero the objective and the bounds of the problem columns
  (\<open>zero_columns\<close>), adjust the basis (\<open>adjust_basis\<close>). The call
  \<^verbatim>\<open>_rationalLUSolver.clear()\<close> works on a member that the state does not hold.
\<close>

definition store_bound :: "nat \<Rightarrow> soplex \<Rightarrow> soplex" where
  "store_bound c st =
     (let st1 = (if lowerFinite (colTypes st ! c)
                 then st\<lparr>unboundedLower := (unboundedLower st)[c := lowerRational st c]\<rparr> else st)
      in if upperFinite (colTypes st1 ! c)
         then st1\<lparr>unboundedUpper := (unboundedUpper st1)[c := upperRational st1 c]\<rparr> else st1)"

definition store_bounds :: "soplex \<Rightarrow> soplex" where
  "store_bounds s =
     for_down store_bound (numColsRational s)
       (s\<lparr>unboundedLower := reDim (numColsRational s) (unboundedLower s),
          unboundedUpper := reDim (numColsRational s) (unboundedUpper s)\<rparr>)"

definition store_side :: "nat \<Rightarrow> soplex \<Rightarrow> soplex" where
  "store_side r st =
     (let st1 = (if lowerFinite (rowTypes st ! r)
                 then st\<lparr>unboundedLhs := (unboundedLhs st)[r := lhsRational st r]\<rparr> else st)
      in if upperFinite (rowTypes st1 ! r)
         then st1\<lparr>unboundedRhs := (unboundedRhs st1)[r := rhsRational st1 r]\<rparr> else st1)"

definition store_sides :: "soplex \<Rightarrow> soplex" where
  "store_sides s =
     for_down store_side (numRowsRational s)
       (s\<lparr>unboundedLhs := reDim (numRowsRational s) (unboundedLhs s),
          unboundedRhs := reDim (numRowsRational s) (unboundedRhs s)\<rparr>)"

definition zero_side :: "unbd_consts \<Rightarrow> nat \<Rightarrow> soplex \<Rightarrow> soplex" where
  "zero_side k r st =
     (let st1 = (if lowerFinite (rowTypes st ! r)
                 then st\<lparr>rationalLP := changeLhs r 0 (rationalLP st),
                         realLP := changeLhs r 0 (realLP st)\<rparr>
                 else if lp_lhs (realLP st) ! r > - INFTY k
                 then st\<lparr>realLP := changeLhs r (- INFTY k) (realLP st)\<rparr>
                 else st)
      in if upperFinite (rowTypes st1 ! r)
         then st1\<lparr>rationalLP := changeRhs r 0 (rationalLP st1),
                  realLP := changeRhs r 0 (realLP st1)\<rparr>
         else if lp_rhs (realLP st1) ! r < INFTY k
         then st1\<lparr>realLP := changeRhs r (INFTY k) (realLP st1)\<rparr>
         else st1)"

definition zero_sides :: "unbd_consts \<Rightarrow> soplex \<Rightarrow> soplex" where
  "zero_sides k s = for_down (zero_side k) (numRowsRational s) s"

definition add_objective_row :: "unbd_consts \<Rightarrow> soplex \<Rightarrow> soplex" where
  "add_objective_row k s =
     (let numOrigCols = numColsRational s;
          obj = nonzeros (lp_maxObj (rationalLP s)) @ [(numOrigCols, - 1)];
          s1 = s\<lparr>rationalLP := addRow (newColRational k) 0 obj 0 (rationalLP s)\<rparr>;
          s2 = s1\<lparr>realLP := addRow (newColReal k) 0 (convert_row (toR k) obj) 0 (realLP s1)\<rparr>;
          s3 = s2\<lparr>rowTypes := rowTypes s2 @ [RANGETYPE_FIXED]\<rparr>;
          s4 = s3\<lparr>rationalLP := changeMaxObj numOrigCols 1 (rationalLP s3)\<rparr>;
          s5 = s4\<lparr>realLP := changeMaxObj numOrigCols 1 (realLP s4)\<rparr>;
          s6 = s5\<lparr>rationalLP := changeBounds numOrigCols (rationalNegInfty k) 1 (rationalLP s5)\<rparr>;
          s7 = s6\<lparr>realLP := changeBounds numOrigCols (- INFTY k) 1 (realLP s6)\<rparr>
      in s7\<lparr>colTypes := colTypes s7 @ [RANGETYPE_UPPER]\<rparr>)"

definition zero_column :: "unbd_consts \<Rightarrow> nat \<Rightarrow> soplex \<Rightarrow> soplex" where
  "zero_column k c st =
     (let st0 = st\<lparr>rationalLP := changeObj c 0 (rationalLP st),
                    realLP := changeObj c 0 (realLP st)\<rparr>;
          st1 = (if lowerFinite (colTypes st0 ! c)
                 then st0\<lparr>rationalLP := changeLower c 0 (rationalLP st0),
                          realLP := changeLower c 0 (realLP st0)\<rparr>
                 else if lp_lower (realLP st0) ! c > - INFTY k
                 then st0\<lparr>realLP := changeLower c (- INFTY k) (realLP st0)\<rparr>
                 else st0)
      in if upperFinite (colTypes st1 ! c)
         then st1\<lparr>rationalLP := changeUpper c 0 (rationalLP st1),
                  realLP := changeUpper c 0 (realLP st1)\<rparr>
         else if lp_upper (realLP st1) ! c < INFTY k
         then st1\<lparr>realLP := changeUpper c (INFTY k) (realLP st1)\<rparr>
         else st1)"

definition zero_columns :: "unbd_consts \<Rightarrow> soplex \<Rightarrow> soplex" where
  "zero_columns k s = for_down (zero_column k) (numColsRational s - 1) s"

definition adjust_basis :: "soplex \<Rightarrow> soplex" where
  "adjust_basis s =
     (if hasBasis s
      then s\<lparr>basisStatusCols := basisStatusCols s @ [ON_UPPER],
             basisStatusRows := basisStatusRows s @ [BASIC]\<rparr>
      else s)"

definition transformUnbounded :: "unbd_consts \<Rightarrow> soplex \<Rightarrow> soplex" where
  "transformUnbounded k s =
     adjust_basis (zero_columns k (add_objective_row k (zero_sides k (store_sides (store_bounds s)))))"

text \<open>
  \<^verbatim>\<open>_untransformUnbounded\<close> from the comment ``recover objective function'' on: recover
  the objective from the objective row, remove that row and the auxiliary column,
  restore sides and bounds. The block before it (``adjust solution and basis'') writes
  the solution object \<^verbatim>\<open>sol\<close>, the flag \<^verbatim>\<open>_hasBasis\<close> and the two arrays of basis
  statuses, and nothing else; of the state it reads the two dimensions and the basis
  statuses. It divides rational vectors by one of their own entries, through classes
  that are not part of the sources, and it is left out: the definition below is the
  effect of the function on the LPs, the range types and the stored bounds and sides.
\<close>

definition recover_obj :: "unbd_consts \<Rightarrow> nat \<Rightarrow> nat \<Rightarrow> soplex \<Rightarrow> soplex" where
  "recover_obj k numOrigRows i st =
     (let e = lp_rowVector (rationalLP st) ! numOrigRows ! i
      in st\<lparr>rationalLP := changeMaxObj (fst e) (snd e) (rationalLP st),
            realLP := changeMaxObj (fst e) (toR k (snd e)) (realLP st)\<rparr>)"

definition recover_objective :: "unbd_consts \<Rightarrow> soplex \<Rightarrow> soplex" where
  "recover_objective k s =
     (let numOrigRows = numRowsRational s - 1
      in for_down (recover_obj k numOrigRows)
           (length (lp_rowVector (rationalLP s) ! numOrigRows)) s)"

definition remove_objective_row :: "soplex \<Rightarrow> soplex" where
  "remove_objective_row s =
     (let numOrigCols = numColsRational s - 1;
          numOrigRows = numRowsRational s - 1;
          s1 = s\<lparr>rationalLP := removeRow numOrigRows (rationalLP s)\<rparr>;
          s2 = s1\<lparr>realLP := removeRow numOrigRows (realLP s1)\<rparr>;
          s3 = s2\<lparr>rowTypes := reSize numOrigRows (rowTypes s2)\<rparr>;
          s4 = s3\<lparr>rationalLP := removeCol numOrigCols (rationalLP s3)\<rparr>;
          s5 = s4\<lparr>realLP := removeCol numOrigCols (realLP s4)\<rparr>
      in s5\<lparr>colTypes := reSize numOrigCols (colTypes s5)\<rparr>)"

definition restore_side :: "unbd_consts \<Rightarrow> nat \<Rightarrow> soplex \<Rightarrow> soplex" where
  "restore_side k r st =
     (let st1 = (if lowerFinite (rowTypes st ! r)
                 then st\<lparr>rationalLP := changeLhs r (unboundedLhs st ! r) (rationalLP st),
                         realLP := changeLhs r (toR k (unboundedLhs st ! r)) (realLP st)\<rparr>
                 else st)
      in if upperFinite (rowTypes st1 ! r)
         then st1\<lparr>rationalLP := changeRhs r (unboundedRhs st1 ! r) (rationalLP st1),
                  realLP := changeRhs r (toR k (unboundedRhs st1 ! r)) (realLP st1)\<rparr>
         else st1)"

definition restore_sides :: "unbd_consts \<Rightarrow> soplex \<Rightarrow> soplex" where
  "restore_sides k s = for_down (restore_side k) (numRowsRational s) s"

definition restore_bound :: "unbd_consts \<Rightarrow> nat \<Rightarrow> soplex \<Rightarrow> soplex" where
  "restore_bound k c st =
     (let st1 = (if lowerFinite (colTypes st ! c)
                 then st\<lparr>rationalLP := changeLower c (unboundedLower st ! c) (rationalLP st),
                         realLP := changeLower c (toR k (unboundedLower st ! c)) (realLP st)\<rparr>
                 else st)
      in if upperFinite (colTypes st1 ! c)
         then st1\<lparr>rationalLP := changeUpper c (unboundedUpper st1 ! c) (rationalLP st1),
                  realLP := changeUpper c (toR k (unboundedUpper st1 ! c)) (realLP st1)\<rparr>
         else st1)"

definition restore_bounds :: "unbd_consts \<Rightarrow> soplex \<Rightarrow> soplex" where
  "restore_bounds k s = for_down (restore_bound k) (numColsRational s) s"

definition untransformUnbounded :: "unbd_consts \<Rightarrow> soplex \<Rightarrow> soplex" where
  "untransformUnbounded k s =
     restore_bounds k (restore_sides k (remove_objective_row (recover_objective k s)))"

subsection \<open>The stable floating-point solve\<close>

text \<open>
  \<^verbatim>\<open>SPxSolverBase::Status\<close> and the parameter enumerations of \<^verbatim>\<open>SoPlexBase\<close> are
  declared in headers that are not part of the sources. The status values are those
  of the specification (\<open>SPX_SINGULAR\<close> and \<open>SPX_ERROR\<close> stand for \<^verbatim>\<open>SINGULAR\<close> and
  \<^verbatim>\<open>ERROR\<close>); the integer parameters are the five that \<^verbatim>\<open>_solveRealStable\<close> names,
  and the values they take are kept in \<open>param_values\<close>.
\<close>

datatype SPxStatus =
  OPTIMAL | INFEASIBLE | UNBOUNDED | INForUNBD | REGULAR | RUNNING | ABORT_TIME | ABORT_ITER
  | ABORT_VALUE | ABORT_CYCLING | SPX_SINGULAR | NO_PROBLEM | SPX_ERROR | UNKNOWN

datatype IntParam = RATIOTESTER | PRICER | SIMPLIFIER | SCALER | ALGORITHM

datatype SolverType = ENTER | LEAVE

record param_values =
  SIMPLIFIER_OFF :: int
  SIMPLIFIER_INTERNAL :: int
  SCALER_OFF :: int
  SCALER_BIEQUI :: int
  ALGORITHM_PRIMAL :: int
  ALGORITHM_DUAL :: int
  RATIOTESTER_TEXTBOOK :: int
  RATIOTESTER_FAST :: int
  PRICER_DEVEX :: int
  PRICER_STEEP :: int

text \<open>
  The settings of the driver, and the floating-point solver with the LU factorization
  it owns: its two tolerances, the Markowitz threshold, and \<open>engine\<close> for all the
  rest (the LP, the basis, the factorization, the loaded pricer and ratio tester).
\<close>

record settings =
  intParam :: "IntParam \<Rightarrow> int"
  FPFEASTOL :: real
  FPOPTTOL :: real

record 'x solver =
  feastol :: real
  opttol :: real
  markowitz :: real
  engine :: 'x

record 'x fp =
  settings :: settings
  solver :: "'x solver"

text \<open>
  The collaborators of \<^verbatim>\<open>_solveRealStable\<close>. \<^verbatim>\<open>_solveRealForRational\<close> runs the
  simplex engine: it reads the settings and works on the solver. \<open>factorize\<close> is
  \<^verbatim>\<open>_solver.factorize()\<close>; its flag is false when it throws. \<open>applyIntParam\<close> is what
  \<^verbatim>\<open>setIntParam\<close> does to the engine (loading a pricer, a ratio tester, \<dots>). The
  other four are \<^verbatim>\<open>_solver.type()\<close>, \<^verbatim>\<open>_solver.setType\<close> and the comparisons of
  \<^verbatim>\<open>_solver.ratiotester()\<close> and \<^verbatim>\<open>_solver.pricer()\<close> with the textbook ratio tester
  and the Devex pricer.
\<close>

record 'x fp_ops =
  solveRealForRational :: "bool \<Rightarrow> settings \<Rightarrow> 'x solver \<Rightarrow> SPxStatus \<times> 'x solver"
  factorize :: "'x solver \<Rightarrow> bool \<times> 'x solver"
  applyIntParam :: "IntParam \<Rightarrow> int \<Rightarrow> 'x \<Rightarrow> 'x"
  solverType :: "'x \<Rightarrow> SolverType"
  setType :: "SolverType \<Rightarrow> 'x \<Rightarrow> 'x"
  ratiotesterIsTextbook :: "'x \<Rightarrow> bool"
  pricerIsDevex :: "'x \<Rightarrow> bool"

text \<open>
  Modelled from the spec: the setters \<^verbatim>\<open>setIntParam\<close>, \<^verbatim>\<open>setFeastol\<close>,
  \<^verbatim>\<open>setOpttol\<close>, \<^verbatim>\<open>setDelta\<close> and \<^verbatim>\<open>setMarkowitz\<close> are missing from the sources. A
  setter stores its value; \<^verbatim>\<open>setIntParam\<close> also hands it to the engine, and
  \<^verbatim>\<open>setDelta\<close> sets both tolerances.
\<close>

definition setIntParam :: "'x fp_ops \<Rightarrow> IntParam \<Rightarrow> int \<Rightarrow> 'x fp \<Rightarrow> 'x fp" where
  "setIntParam ops p v st =
     st\<lparr>settings := (settings st)\<lparr>intParam := (intParam (settings st))(p := v)\<rparr>,
        solver := (solver st)\<lparr>engine := applyIntParam ops p v (engine (solver st))\<rparr>\<rparr>"

definition setFeastol :: "real \<Rightarrow> 'x fp \<Rightarrow> 'x fp" where
  "setFeastol d st = st\<lparr>solver := (solver st)\<lparr>feastol := d\<rparr>\<rparr>"

definition setOpttol :: "real \<Rightarrow> 'x fp \<Rightarrow> 'x fp" where
  "setOpttol d st = st\<lparr>solver := (solver st)\<lparr>opttol := d\<rparr>\<rparr>"

definition setDelta :: "real \<Rightarrow> 'x fp \<Rightarrow> 'x fp" where
  "setDelta d st = st\<lparr>solver := (solver st)\<lparr>feastol := d, opttol := d\<rparr>\<rparr>"

definition setMarkowitz :: "real \<Rightarrow> 'x fp \<Rightarrow> 'x fp" where
  "setMarkowitz m st = st\<lparr>solver := (solver st)\<lparr>markowitz := m\<rparr>\<rparr>"

definition toggleType :: "'x fp_ops \<Rightarrow> 'x fp \<Rightarrow> 'x fp" where
  "toggleType ops st =
     st\<lparr>solver := (solver st)\<lparr>engine :=
          setType ops (if solverType ops (engine (solver st)) = LEAVE then ENTER else LEAVE)
            (engine (solver st))\<rparr>\<rparr>"

text \<open>
  The local variables of \<^verbatim>\<open>_solveRealStable\<close>: the flags of the ladder with the
  result, and the values saved at entry.
\<close>

record ladder =
  result :: SPxStatus
  fromScratch :: bool
  solved :: bool
  solvedFromScratch :: bool
  initialSolve :: bool
  increasedMarkowitz :: bool
  relaxedTolerances :: bool
  tightenedTolerances :: bool
  switchedScaler :: bool
  switchedSimplifier :: bool
  switchedRatiotester :: bool
  switchedPricer :: bool
  turnedoffPre :: bool

record saved =
  saved_markowitz :: real
  saved_ratiotester :: int
  saved_pricer :: int
  saved_simplifier :: int
  saved_scaler :: int
  saved_type :: int

text \<open>
  One pass through the body of \<^verbatim>\<open>while (true)\<close> is a chain of blocks. A block ends
  the loop (\<open>Break\<close>), starts the next pass (\<open>Continue\<close>) or falls through to the
  block below it (\<open>Next\<close>). The assertion at the head of the loop is not a
  branch.
\<close>

datatype outcome = Break | Continue | Next

definition and_then ::
  "('s \<Rightarrow> outcome \<times> 's) \<Rightarrow> ('s \<Rightarrow> outcome \<times> 's) \<Rightarrow> 's \<Rightarrow> outcome \<times> 's" where
  "and_then f g st = (case f st of (Next, st1) \<Rightarrow> g st1 | r \<Rightarrow> r)"

definition rung_solve ::
  "'x fp_ops \<Rightarrow> bool \<Rightarrow> bool \<Rightarrow> ladder \<times> 'x fp \<Rightarrow> outcome \<times> ladder \<times> 'x fp" where
  "rung_solve ops acceptUnbounded acceptInfeasible = (\<lambda>(l, st).
     (let (r, sv) = solveRealForRational ops (fromScratch l) (settings st) (solver st);
          st1 = st\<lparr>solver := sv\<rparr>;
          l1 = l\<lparr>result := r\<rparr>;
          l2 = l1\<lparr>solved := (result l1 = OPTIMAL \<or> (result l1 = INFEASIBLE \<and> acceptInfeasible)
                              \<or> (result l1 = UNBOUNDED \<and> acceptUnbounded))\<rparr>
      in if solved l2 \<or> result l2 = ABORT_TIME \<or> result l2 = ABORT_ITER then (Break, l2, st1)
         else (Next, (if initialSolve l2 then l2\<lparr>initialSolve := False\<rparr> else l2), st1)))"

definition rung_turnoffPre ::
  "param_values \<Rightarrow> 'x fp_ops \<Rightarrow> ladder \<times> 'x fp \<Rightarrow> outcome \<times> ladder \<times> 'x fp" where
  "rung_turnoffPre pv ops = (\<lambda>(l, st).
     if \<not> turnedoffPre l
        \<and> (intParam (settings st) SIMPLIFIER \<noteq> SIMPLIFIER_OFF pv
            \<or> intParam (settings st) SCALER \<noteq> SCALER_OFF pv)
     then (Continue,
           l\<lparr>turnedoffPre := True, fromScratch := True, solvedFromScratch := True\<rparr>,
           setIntParam ops SIMPLIFIER (SIMPLIFIER_OFF pv) (setIntParam ops SCALER (SCALER_OFF pv) st))
     else (Next, l, st))"

definition rung_markowitz ::
  "'x fp_ops \<Rightarrow> saved \<Rightarrow> ladder \<times> 'x fp \<Rightarrow> outcome \<times> ladder \<times> 'x fp" where
  "rung_markowitz ops sv = (\<lambda>(l, st).
     (let st1 = setIntParam ops SIMPLIFIER (saved_simplifier sv)
                  (setIntParam ops SCALER (saved_scaler sv) st)
      in if \<not> increasedMarkowitz l then
           (let st2 = setMarkowitz 0.9 st1;
                l1 = l\<lparr>increasedMarkowitz := True\<rparr>;
                (ok, s3) = factorize ops (solver st2)
            in (if ok then Continue else Next, l1, st2\<lparr>solver := s3\<rparr>))
         else (Next, l, st1)))"

definition rung_fromScratch :: "ladder \<times> 'x fp \<Rightarrow> outcome \<times> ladder \<times> 'x fp" where
  "rung_fromScratch = (\<lambda>(l, st).
     if \<not> solvedFromScratch l
     then (Continue, l\<lparr>fromScratch := True, solvedFromScratch := True\<rparr>, st)
     else (Next, l, st))"

definition rung_scaler ::
  "param_values \<Rightarrow> 'x fp_ops \<Rightarrow> saved \<Rightarrow> ladder \<times> 'x fp \<Rightarrow> outcome \<times> ladder \<times> 'x fp" where
  "rung_scaler pv ops sv = (\<lambda>(l, st).
     (let st1 = setIntParam ops PRICER (saved_pricer sv)
                  (setIntParam ops RATIOTESTER (saved_ratiotester sv) st)
      in if \<not> switchedScaler l then
           (Continue,
            l\<lparr>fromScratch := True, solvedFromScratch := True, switchedScaler := True\<rparr>,
            (if saved_scaler sv = SCALER_OFF pv
             then setIntParam ops SCALER (SCALER_BIEQUI pv) st1
             else setIntParam ops SCALER (SCALER_OFF pv) st1))
         else (Next, l, st1)))"

definition rung_simplifier ::
  "param_values \<Rightarrow> 'x fp_ops \<Rightarrow> bool \<Rightarrow> saved \<Rightarrow> ladder \<times> 'x fp \<Rightarrow> outcome \<times> ladder \<times> 'x fp" where
  "rung_simplifier pv ops forceNoSimplifier sv = (\<lambda>(l, st).
     if \<not> switchedSimplifier l \<and> \<not> forceNoSimplifier then
       (Continue,
        l\<lparr>fromScratch := True, solvedFromScratch := True, switchedSimplifier := True\<rparr>,
        (if saved_simplifier sv = SIMPLIFIER_OFF pv
         then setIntParam ops SIMPLIFIER (SIMPLIFIER_INTERNAL pv) st
         else setIntParam ops SIMPLIFIER (SIMPLIFIER_OFF pv) st))
     else (Next, l, st))"

definition rung_relax ::
  "param_values \<Rightarrow> 'x fp_ops \<Rightarrow> ladder \<times> 'x fp \<Rightarrow> outcome \<times> ladder \<times> 'x fp" where
  "rung_relax pv ops = (\<lambda>(l, st).
     (let st1 = setIntParam ops SIMPLIFIER (SIMPLIFIER_OFF pv) st
      in if \<not> relaxedTolerances l then
           (let st2 = setIntParam ops ALGORITHM (ALGORITHM_PRIMAL pv) st1;
                st3 = setDelta (if feastol (solver st2) * 1000 > 1 / 10 ^ 3 then 1 / 10 ^ 3
                                else feastol (solver st2) * 1000) st2
            in (Continue,
                l\<lparr>relaxedTolerances := (feastol (solver st3) \<ge> 1 / 10 ^ 3),
                  solvedFromScratch := False\<rparr>,
                st3))
         else (Next, l, st1)))"

definition rung_tighten ::
  "param_values \<Rightarrow> 'x fp_ops \<Rightarrow> ladder \<times> 'x fp \<Rightarrow> outcome \<times> ladder \<times> 'x fp" where
  "rung_tighten pv ops = (\<lambda>(l, st).
     if \<not> tightenedTolerances l \<and> result l \<noteq> INFEASIBLE then
       (let st1 = setIntParam ops ALGORITHM (ALGORITHM_DUAL pv) st;
            st2 = setDelta (if feastol (solver st1) * (1 / 10 ^ 3) < 1 / 10 ^ 9 then 1 / 10 ^ 9
                            else feastol (solver st1) * (1 / 10 ^ 3)) st1
        in (Continue,
            l\<lparr>tightenedTolerances := (feastol (solver st2) \<le> 1 / 10 ^ 9),
              solvedFromScratch := False\<rparr>,
            st2))
     else (Next, l, st))"

definition rung_ratiotester ::
  "param_values \<Rightarrow> 'x fp_ops \<Rightarrow> saved \<Rightarrow> ladder \<times> 'x fp \<Rightarrow> outcome \<times> ladder \<times> 'x fp" where
  "rung_ratiotester pv ops sv = (\<lambda>(l, st).
     (let st1 = setIntParam ops ALGORITHM (saved_type sv) st
      in if \<not> switchedRatiotester l then
           (let st2 = toggleType ops st1;
                st3 = (if \<not> ratiotesterIsTextbook ops (engine (solver st2))
                       then setIntParam ops RATIOTESTER (RATIOTESTER_TEXTBOOK pv) st2
                       else setIntParam ops RATIOTESTER (RATIOTESTER_FAST pv) st2)
            in (Continue, l\<lparr>switchedRatiotester := True, solvedFromScratch := False\<rparr>, st3))
         else (Next, l, st1)))"

definition rung_pricer ::
  "param_values \<Rightarrow> 'x fp_ops \<Rightarrow> ladder \<times> 'x fp \<Rightarrow> outcome \<times> ladder \<times> 'x fp" where
  "rung_pricer pv ops = (\<lambda>(l, st).
     if \<not> switchedPricer l then
       (let st1 = toggleType ops st;
            st2 = (if \<not> pricerIsDevex ops (engine (solver st1))
                   then setIntParam ops PRICER (PRICER_DEVEX pv) st1
                   else setIntParam ops PRICER (PRICER_STEEP pv) st1)
        in (Continue, l\<lparr>switchedPricer := True, solvedFromScratch := False\<rparr>, st2))
     else (Break, l, st))"

definition ladder_pass ::
  "param_values \<Rightarrow> 'x fp_ops \<Rightarrow> bool \<Rightarrow> bool \<Rightarrow> bool \<Rightarrow> saved
     \<Rightarrow> ladder \<times> 'x fp \<Rightarrow> outcome \<times> ladder \<times> 'x fp" where
  "ladder_pass pv ops acceptUnbounded acceptInfeasible forceNoSimplifier sv =
     and_then (rung_solve ops acceptUnbounded acceptInfeasible)
    (and_then (rung_turnoffPre pv ops)
    (and_then (rung_markowitz ops sv)
    (and_then rung_fromScratch
    (and_then (rung_scaler pv ops sv)
    (and_then (rung_simplifier pv ops forceNoSimplifier sv)
    (and_then (rung_relax pv ops)
    (and_then (rung_tighten pv ops)
    (and_then (rung_ratiotester pv ops sv)
              (rung_pricer pv ops)))))))))"

text \<open>
  The loop \<^verbatim>\<open>while (true)\<close>. Nothing bounds the number of passes (the engine decides
  how often a solve fails), so the result is optional: \<open>None\<close> is a run that never
  leaves the loop.
\<close>

partial_function (option) ladder_loop ::
  "(ladder \<times> 'x fp \<Rightarrow> outcome \<times> ladder \<times> 'x fp) \<Rightarrow> ladder \<times> 'x fp \<Rightarrow> (ladder \<times> 'x fp) option" where
  "ladder_loop pass lst =
     (case pass lst of
        (Continue, lst1) \<Rightarrow> ladder_loop pass lst1
      | (_, lst1) \<Rightarrow> Some lst1)"

text \<open>\<^verbatim>\<open>_solveRealStable\<close>: the locals, the loop, and the statements after the loop.\<close>

definition solveRealStable_entry :: "'x fp \<Rightarrow> saved" where
  "solveRealStable_entry st =
     \<lparr>saved_markowitz = markowitz (solver st),
      saved_ratiotester = intParam (settings st) RATIOTESTER,
      saved_pricer = intParam (settings st) PRICER,
      saved_simplifier = intParam (settings st) SIMPLIFIER,
      saved_scaler = intParam (settings st) SCALER,
      saved_type = intParam (settings st) ALGORITHM\<rparr>"

definition ladder_start :: ladder where
  "ladder_start =
     \<lparr>result = UNKNOWN, fromScratch = False, solved = False, solvedFromScratch = False,
      initialSolve = True, increasedMarkowitz = False, relaxedTolerances = False,
      tightenedTolerances = False, switchedScaler = False, switchedSimplifier = False,
      switchedRatiotester = False, switchedPricer = False, turnedoffPre = False\<rparr>"

definition solveRealStable_exit :: "'x fp_ops \<Rightarrow> saved \<Rightarrow> 'x fp \<Rightarrow> 'x fp" where
  "solveRealStable_exit ops sv st =
     (let st1 = setFeastol (FPFEASTOL (settings st)) st;
          st2 = setOpttol (FPOPTTOL (settings st1)) st1;
          st3 = setMarkowitz (saved_markowitz sv) st2;
          st4 = setIntParam ops RATIOTESTER (saved_ratiotester sv) st3;
          st5 = setIntParam ops PRICER (saved_pricer sv) st4;
          st6 = setIntParam ops SIMPLIFIER (saved_simplifier sv) st5;
          st7 = setIntParam ops SCALER (saved_scaler sv) st6
      in setIntParam ops ALGORITHM (saved_type sv) st7)"

definition solveRealStable ::
  "param_values \<Rightarrow> 'x fp_ops \<Rightarrow> bool \<Rightarrow> bool \<Rightarrow> bool \<Rightarrow> 'x fp \<Rightarrow> (SPxStatus \<times> 'x fp) option" where
  "solveRealStable pv ops acceptUnbounded acceptInfeasible forceNoSimplifier st =
     (let sv = solveRealStable_entry st;
          st0 = (if forceNoSimplifier then setIntParam ops SIMPLIFIER (SIMPLIFIER_OFF pv) st else st)
      in case ladder_loop (ladder_pass pv ops acceptUnbounded acceptInfeasible forceNoSimplifier sv)
                (ladder_start, st0) of
           None \<Rightarrow> None
         | Some (l, st1) \<Rightarrow> Some (result l, solveRealStable_exit ops sv st1))"


subsection \<open>Helpers for stating and running the driver functions\<close>

text \<open>
  The value that the column loop of \<^verbatim>\<open>_storeRealSolutionAsRational\<close> stores for a
  column, by its basis status at entry.
\<close>

definition colval :: "(real \<Rightarrow> rat) \<Rightarrow> real list \<Rightarrow> soplex \<Rightarrow> nat \<Rightarrow> rat" where
  "colval aR pR s c =
     (case basisStatusCols s ! c of
        ON_LOWER \<Rightarrow> lowerRational s c
      | ON_UPPER \<Rightarrow> upperRational s c
      | FIXED \<Rightarrow> lowerRational s c
      | ZERO \<Rightarrow> 0
      | BASIC \<Rightarrow> aR (pR ! c)
      | UNDEFINED \<Rightarrow> aR (pR ! c))"

text \<open>
  A lifted LP for concrete runs. The original LP has the column \<open>x\<close> with bounds
  0 and 1 and the row \<open>2048 x \<le> 1\<close>; lifting with \<^verbatim>\<open>LIFTMAXVAL = 1024\<close> has added the
  free column \<open>z\<close> and the row \<open>1024 x - z = 0\<close> and has moved the large coefficient
  into \<open>z\<close>. Infinite bounds are \<open>10 ^ 100\<close>. \<open>lifted_solution\<close> is a solution of
  the lifted LP whose reduced cost for \<open>z\<close> is 5.
\<close>

definition lifted_lp :: "'a::linordered_field lp" where
  "lifted_lp =
     \<lparr>lp_lower = [0, - (10 ^ 100)], lp_upper = [1, 10 ^ 100], lp_maxObj = [1, 0],
      lp_lhs = [- (10 ^ 100), 0], lp_rhs = [1, 0],
      lp_rowVector = [[(1, 2)], [(0, 1024), (1, - 1)]],
      lp_sense = MAXIMIZE\<rparr>"

definition lifted_example :: soplex where
  "lifted_example =
     \<lparr>rationalLP = lifted_lp, realLP = lifted_lp,
      colTypes = [RANGETYPE_BOXED, RANGETYPE_FREE],
      rowTypes = [RANGETYPE_UPPER, RANGETYPE_FIXED],
      basisStatusCols = [FIXED, BASIC],
      basisStatusRows = [BASIC, FIXED],
      hasBasis = True,
      unboundedLower = [], unboundedUpper = [], unboundedLhs = [], unboundedRhs = [],
      beforeLiftCols = 1, beforeLiftRows = 1\<rparr>"

definition lifted_solution :: SolRational where
  "lifted_solution =
     \<lparr>sol_primal = [0, 0], sol_slacks = [0, 0], sol_dual = [0, 5], sol_redCost = [1, 5],
      sol_primalRay = [], sol_dualFarkas = [],
      sol_isPrimalFeasible = True, sol_isDualFeasible = True,
      sol_hasPrimalRay = False, sol_hasDualFarkas = False\<rparr>"

text \<open>
  The two real parameters that \<^verbatim>\<open>_solveRealStable\<close> reads after the loop, and the
  blocks of the ladder that leave them alone.
\<close>

definition realParams :: "'x fp \<Rightarrow> real \<times> real" where
  "realParams st = (FPFEASTOL (settings st), FPOPTTOL (settings st))"

definition keeps :: "(ladder \<times> 'x fp \<Rightarrow> outcome \<times> ladder \<times> 'x fp) \<Rightarrow> bool" where
  "keeps f \<longleftrightarrow> (\<forall>l st. realParams (snd (snd (f (l, st)))) = realParams st)"

text \<open>
  A run of the ladder: an engine that fails three times (and raises the Markowitz
  threshold while it works) before it reports an optimal solution, started with
  preprocessing switched on.
\<close>

definition example_values :: param_values where
  "example_values =
     \<lparr>SIMPLIFIER_OFF = 0, SIMPLIFIER_INTERNAL = 3, SCALER_OFF = 0, SCALER_BIEQUI = 2,
      ALGORITHM_PRIMAL = 0, ALGORITHM_DUAL = 1, RATIOTESTER_TEXTBOOK = 0, RATIOTESTER_FAST = 2,
      PRICER_DEVEX = 3, PRICER_STEEP = 5\<rparr>"

definition failing_engine :: "nat fp_ops" where
  "failing_engine =
     \<lparr>solveRealForRational =
        (\<lambda>fromscratch se sv. (if engine sv < 3 then SPX_ERROR else OPTIMAL,
                               sv\<lparr>engine := Suc (engine sv), markowitz := 0.99999\<rparr>)),
      factorize = (\<lambda>sv. (True, sv)),
      applyIntParam = (\<lambda>p v e. e),
      solverType = (\<lambda>e. LEAVE),
      setType = (\<lambda>t e. e),
      ratiotesterIsTextbook = (\<lambda>e. False),
      pricerIsDevex = (\<lambda>e. True)\<rparr>"

definition example_fp :: "nat fp" where
  "example_fp =
     \<lparr>settings = \<lparr>intParam = (\<lambda>p. case p of RATIOTESTER \<Rightarrow> 2 | PRICER \<Rightarrow> 3 | SIMPLIFIER \<Rightarrow> 3
                                             | SCALER \<Rightarrow> 2 | ALGORITHM \<Rightarrow> 1),
                  FPFEASTOL = 1 / 10 ^ 9, FPOPTTOL = 1 / 10 ^ 9\<rparr>,
      solver = \<lparr>feastol = 1 / 10 ^ 9, opttol = 1 / 10 ^ 9, markowitz = 0.01, engine = 0\<rparr>\<rparr>"

text \<open>
  A factorization routine for concrete runs of the loop of \<^verbatim>\<open>load\<close>: its result is
  stable only for thresholds from 0.5 on.
\<close>

definition stable_from_half :: "unit \<Rightarrow> real \<Rightarrow> real \<Rightarrow> unit clufactor \<Rightarrow> unit clufactor" where
  "stable_from_half m th e c = c\<lparr>initMaxabs := 1, maxabs := (if th < 0.5 then 1000 else 1)\<rparr>"


text \<open>
  Notions for the unboundedness transformation. \<open>upd_range j m g xs\<close> is the list
  \<open>xs\<close> with the entries \<open>j, \<dots>, m - 1\<close> replaced by the values of \<open>g\<close>: the
  effect of a loop that has run down from \<open>m - 1\<close> to \<open>j\<close>. \<open>zeroed\<close> and
  \<open>zeroedR\<close> are what \<^verbatim>\<open>_transformUnbounded\<close> makes of a bound or side of the
  rational and of the floating-point LP: zero when the range type calls it finite,
  and otherwise, in the floating-point LP, the infinity parameter when the value lies
  inside it.
\<close>

definition upd_range :: "nat \<Rightarrow> nat \<Rightarrow> (nat \<Rightarrow> 'a) \<Rightarrow> 'a list \<Rightarrow> 'a list" where
  "upd_range j m g xs = map (\<lambda>r. if j \<le> r \<and> r < m then g r else xs ! r) [0 ..< length xs]"

definition zeroed :: "bool \<Rightarrow> 'a::zero \<Rightarrow> 'a" where
  "zeroed fin x = (if fin then 0 else x)"

definition zeroedR :: "real \<Rightarrow> bool \<Rightarrow> bool \<Rightarrow> real \<Rightarrow> real" where
  "zeroedR bnd lower fin x =
     (if fin then 0
      else if lower then (if x > - bnd then - bnd else x)
      else (if x < bnd then bnd else x))"

text \<open>
  A state with the sides, the column data, the bounds or the objective of both LPs
  replaced.
\<close>

definition with_sides :: "soplex \<Rightarrow> rat list \<Rightarrow> rat list \<Rightarrow> real list \<Rightarrow> real list \<Rightarrow> soplex" where
  "with_sides s A B C D =
     s\<lparr>rationalLP := (rationalLP s)\<lparr>lp_lhs := A, lp_rhs := B\<rparr>,
       realLP := (realLP s)\<lparr>lp_lhs := C, lp_rhs := D\<rparr>\<rparr>"

definition with_cols ::
  "soplex \<Rightarrow> rat list \<Rightarrow> rat list \<Rightarrow> rat list \<Rightarrow> real list \<Rightarrow> real list \<Rightarrow> real list \<Rightarrow> soplex" where
  "with_cols s OQ LQ UQ OR LR UR =
     s\<lparr>rationalLP := (rationalLP s)\<lparr>lp_maxObj := OQ, lp_lower := LQ, lp_upper := UQ\<rparr>,
       realLP := (realLP s)\<lparr>lp_maxObj := OR, lp_lower := LR, lp_upper := UR\<rparr>\<rparr>"

definition with_bounds :: "soplex \<Rightarrow> rat list \<Rightarrow> rat list \<Rightarrow> real list \<Rightarrow> real list \<Rightarrow> soplex" where
  "with_bounds s A B C D =
     s\<lparr>rationalLP := (rationalLP s)\<lparr>lp_lower := A, lp_upper := B\<rparr>,
       realLP := (realLP s)\<lparr>lp_lower := C, lp_upper := D\<rparr>\<rparr>"

definition with_obj :: "soplex \<Rightarrow> rat list \<Rightarrow> real list \<Rightarrow> soplex" where
  "with_obj s A B =
     s\<lparr>rationalLP := (rationalLP s)\<lparr>lp_maxObj := A\<rparr>, realLP := (realLP s)\<lparr>lp_maxObj := B\<rparr>\<rparr>"

text \<open>
  The invariants of the driver that the unboundedness transformation relies on. An LP
  with \<open>n\<close> columns and \<open>m\<close> rows has \<open>n\<close> bounds and objective coefficients,
  \<open>m\<close> sides and row vectors, and no row mentions a column beyond the last one; the
  two LPs have the same dimensions, and there is one range type for every column and
  row. The floating-point LP is in step with the rational LP (\<open>synced\<close>) when its
  objective and its finite bounds and sides are the converted rational values and its
  other bounds and sides lie at or beyond the infinity parameter, which is what the
  assertions at the end of \<^verbatim>\<open>_untransformUnbounded\<close> ask for.
\<close>

definition wf_lp :: "nat \<Rightarrow> nat \<Rightarrow> 'a lp \<Rightarrow> bool" where
  "wf_lp n m l \<longleftrightarrow>
     length (lp_lower l) = n \<and> length (lp_upper l) = n \<and> length (lp_maxObj l) = n
     \<and> length (lp_lhs l) = m \<and> length (lp_rhs l) = m \<and> length (lp_rowVector l) = m
     \<and> (\<forall>row \<in> set (lp_rowVector l). \<forall>e \<in> set row. fst e < n)"

definition wf_soplex :: "soplex \<Rightarrow> bool" where
  "wf_soplex s \<longleftrightarrow>
     wf_lp (numColsRational s) (numRowsRational s) (rationalLP s)
     \<and> wf_lp (numColsRational s) (numRowsRational s) (realLP s)
     \<and> length (colTypes s) = numColsRational s
     \<and> length (rowTypes s) = numRowsRational s"

definition synced :: "unbd_consts \<Rightarrow> soplex \<Rightarrow> bool" where
  "synced k s \<longleftrightarrow>
     toR k 0 = 0
     \<and> (\<forall>c < numColsRational s.
          lp_maxObj (realLP s) ! c = toR k (lp_maxObj (rationalLP s) ! c)
          \<and> (if lowerFinite (colTypes s ! c)
              then lp_lower (realLP s) ! c = toR k (lp_lower (rationalLP s) ! c)
              else lp_lower (realLP s) ! c \<le> - INFTY k)
          \<and> (if upperFinite (colTypes s ! c)
              then lp_upper (realLP s) ! c = toR k (lp_upper (rationalLP s) ! c)
              else INFTY k \<le> lp_upper (realLP s) ! c))
     \<and> (\<forall>r < numRowsRational s.
          (if lowerFinite (rowTypes s ! r)
           then lp_lhs (realLP s) ! r = toR k (lp_lhs (rationalLP s) ! r)
           else lp_lhs (realLP s) ! r \<le> - INFTY k)
          \<and> (if upperFinite (rowTypes s ! r)
              then lp_rhs (realLP s) ! r = toR k (lp_rhs (rationalLP s) ! r)
              else INFTY k \<le> lp_rhs (realLP s) ! r))"

text \<open>
  Constants for concrete runs: infinity is \<open>10 ^ 100\<close>, and an LP creates a column
  with the bounds 0 and infinity and the objective coefficient 0.
\<close>

definition unbd_example :: unbd_consts where
  "unbd_example =
     \<lparr>INFTY = 10 ^ 100, rationalNegInfty = - (10 ^ 100), toR = real_of_rat,
      newColRational = (0, 10 ^ 100, 0), newColReal = (0, 10 ^ 100, 0)\<rparr>"

chapter \<open>Properties\<close>

section \<open>Stability of the factorization\<close>

text \<open>
  C4. \<^verbatim>\<open>stability()\<close> is 0 when the status is not \<^verbatim>\<open>OK\<close>, 1 when
  \<^verbatim>\<open>maxabs < initMaxabs\<close>, and \<^verbatim>\<open>initMaxabs / maxabs\<close> otherwise, which is then at
  most 1: the value lies in [0,1] and is the quotient clamped to [0,1]. The two
  maxima \<^verbatim>\<open>initMaxabs\<close> and \<^verbatim>\<open>maxabs\<close> are maxima of absolute values of a nonzero
  matrix, hence positive (\<^verbatim>\<open>clear()\<close> sets both to 1).
\<close>

theorem stability_clamped:
  assumes "0 < initMaxabs f" and "0 < maxabs f"
  shows "0 \<le> stability f \<and> stability f \<le> 1
    \<and> (stat f \<noteq> OK \<longrightarrow> stability f = 0)
    \<and> (stat f = OK \<and> maxabs f < initMaxabs f \<longrightarrow> stability f = 1)
    \<and> (stat f = OK \<and> \<not> maxabs f < initMaxabs f \<longrightarrow>
          stability f = initMaxabs f / maxabs f \<and> initMaxabs f / maxabs f \<le> 1)
    \<and> (stat f = OK \<longrightarrow> stability f = max 0 (min 1 (initMaxabs f / maxabs f)))"
proof -
  have q: "0 < initMaxabs f / maxabs f" using assms by simp
  have le: "\<not> maxabs f < initMaxabs f \<Longrightarrow> initMaxabs f / maxabs f \<le> 1"
    using assms by (simp add: divide_le_eq)
  have gt: "maxabs f < initMaxabs f \<Longrightarrow> 1 < initMaxabs f / maxabs f"
    using assms by (simp add: less_divide_eq)
  show ?thesis
  proof (cases "stat f = OK")
    case False
    then show ?thesis by (simp add: stability_def)
  next
    case True
    show ?thesis
    proof (cases "maxabs f < initMaxabs f")
      case True
      with \<open>stat f = OK\<close> gt[OF True] show ?thesis by (simp add: stability_def max_def min_def)
    next
      case False
      with \<open>stat f = OK\<close> le[OF False] q show ?thesis by (simp add: stability_def max_def min_def)
    qed
  qed
qed

theorem stability_clamped_witness:
  "stability \<lparr>stat = OK, thedim = 2, initMaxabs = 3, maxabs = 4, l_updateType = ETA,
              l_firstUpdate = 0, l_firstUnused = 0, lu_data = ()\<rparr> = 3 / 4
   \<and> stability \<lparr>stat = OK, thedim = 2, initMaxabs = 3, maxabs = 4, l_updateType = ETA,
              l_firstUpdate = 0, l_firstUnused = 0, lu_data = ()\<rparr> \<le> 1"
  using stability_clamped [of "\<lparr>stat = OK, thedim = 2, initMaxabs = 3, maxabs = 4,
    l_updateType = ETA, l_firstUpdate = 0, l_firstUnused = 0, lu_data = ()\<rparr>"]
  by simp

section \<open>The Markowitz threshold\<close>

text \<open>
  Iterating \<open>betterThreshold\<close> from a threshold that is not negative reaches a fixed
  point: below 0.1 the threshold is multiplied by ten, from 0.1 on four halvings of the
  distance to 1 pass 0.9, and the next value is 0.99999.
\<close>

lemma reach_step:
  assumes "\<exists>n. betterThreshold ((betterThreshold ^^ n) (betterThreshold th)) = (betterThreshold ^^ n) (betterThreshold th)"
  shows "\<exists>n. betterThreshold ((betterThreshold ^^ n) th) = (betterThreshold ^^ n) th"
proof -
  from assms obtain n where
    "betterThreshold ((betterThreshold ^^ n) (betterThreshold th)) = (betterThreshold ^^ n) (betterThreshold th)" ..
  then have "betterThreshold ((betterThreshold ^^ Suc n) th) = (betterThreshold ^^ Suc n) th"
    by (simp only: funpow_Suc_right o_apply)
  then show ?thesis by (rule exI)
qed

lemma reach0: "0.999 \<le> th \<Longrightarrow> \<exists>n. betterThreshold ((betterThreshold ^^ n) th) = (betterThreshold ^^ n) th"
  by (rule exI[of _ 0]) (simp add: betterThreshold_def)


lemma reach1:
  assumes "0.9 \<le> th" shows "\<exists>n. betterThreshold ((betterThreshold ^^ n) th) = (betterThreshold ^^ n) th"
proof (cases "0.999 \<le> th")
  case True then show ?thesis by (rule reach0)
next
  case False
  with assms have bt: "betterThreshold th = 0.99999" by (simp add: betterThreshold_def)
  have "0.999 \<le> betterThreshold th" using assms by (simp add: bt)
  then have "\<exists>n. betterThreshold ((betterThreshold ^^ n) (betterThreshold th)) = (betterThreshold ^^ n) (betterThreshold th)"
    by (rule reach0)
  then show ?thesis by (rule reach_step)
qed

lemma reach2:
  assumes "0.8 \<le> th" shows "\<exists>n. betterThreshold ((betterThreshold ^^ n) th) = (betterThreshold ^^ n) th"
proof (cases "0.9 \<le> th")
  case True then show ?thesis by (rule reach1)
next
  case False
  with assms have bt: "betterThreshold th = (th + 1) / 2" by (simp add: betterThreshold_def)
  have "0.9 \<le> betterThreshold th" using assms by (simp add: bt)
  then have "\<exists>n. betterThreshold ((betterThreshold ^^ n) (betterThreshold th)) = (betterThreshold ^^ n) (betterThreshold th)"
    by (rule reach1)
  then show ?thesis by (rule reach_step)
qed

lemma reach3:
  assumes "0.6 \<le> th" shows "\<exists>n. betterThreshold ((betterThreshold ^^ n) th) = (betterThreshold ^^ n) th"
proof (cases "0.8 \<le> th")
  case True then show ?thesis by (rule reach2)
next
  case False
  with assms have bt: "betterThreshold th = (th + 1) / 2" by (simp add: betterThreshold_def)
  have "0.8 \<le> betterThreshold th" using assms by (simp add: bt)
  then have "\<exists>n. betterThreshold ((betterThreshold ^^ n) (betterThreshold th)) = (betterThreshold ^^ n) (betterThreshold th)"
    by (rule reach2)
  then show ?thesis by (rule reach_step)
qed

lemma reach4:
  assumes "0.2 \<le> th" shows "\<exists>n. betterThreshold ((betterThreshold ^^ n) th) = (betterThreshold ^^ n) th"
proof (cases "0.6 \<le> th")
  case True then show ?thesis by (rule reach3)
next
  case False
  with assms have bt: "betterThreshold th = (th + 1) / 2" by (simp add: betterThreshold_def)
  have "0.6 \<le> betterThreshold th" using assms by (simp add: bt)
  then have "\<exists>n. betterThreshold ((betterThreshold ^^ n) (betterThreshold th)) = (betterThreshold ^^ n) (betterThreshold th)"
    by (rule reach3)
  then show ?thesis by (rule reach_step)
qed

lemma reach5:
  assumes "0.1 \<le> th" shows "\<exists>n. betterThreshold ((betterThreshold ^^ n) th) = (betterThreshold ^^ n) th"
proof (cases "0.2 \<le> th")
  case True then show ?thesis by (rule reach4)
next
  case False
  with assms have bt: "betterThreshold th = (th + 1) / 2" by (simp add: betterThreshold_def)
  have "0.2 \<le> betterThreshold th" using assms by (simp add: bt)
  then have "\<exists>n. betterThreshold ((betterThreshold ^^ n) (betterThreshold th)) = (betterThreshold ^^ n) (betterThreshold th)"
    by (rule reach4)
  then show ?thesis by (rule reach_step)
qed


lemma reach_pow:
  "0 < th \<Longrightarrow> 1 \<le> th * 10 ^ Suc k \<Longrightarrow> \<exists>n. betterThreshold ((betterThreshold ^^ n) th) = (betterThreshold ^^ n) th"
proof (induction k arbitrary: th)
  case 0
  then have "0.1 \<le> th" by simp
  then show ?case by (rule reach5)
next
  case (Suc k)
  show ?case
  proof (cases "0.1 \<le> th")
    case True
    then show ?thesis by (rule reach5)
  next
    case False
    then have bt: "betterThreshold th = th * 10" by (simp add: betterThreshold_def)
    have p: "0 < th * 10" using Suc.prems(1) by simp
    have "th * 10 ^ Suc (Suc k) = th * 10 * 10 ^ Suc k" by simp
    then have q: "1 \<le> th * 10 * 10 ^ Suc k" using Suc.prems(2) by (simp only:)
    have "\<exists>n. betterThreshold ((betterThreshold ^^ n) (th * 10)) = (betterThreshold ^^ n) (th * 10)"
      using p q by (rule Suc.IH)
    then have "\<exists>n. betterThreshold ((betterThreshold ^^ n) (betterThreshold th)) = (betterThreshold ^^ n) (betterThreshold th)"
      by (simp only: bt)
    then show ?thesis by (rule reach_step)
  qed
qed

lemma reach_fix:
  assumes "0 \<le> th" shows "\<exists>n. betterThreshold ((betterThreshold ^^ n) th) = (betterThreshold ^^ n) th"
proof (cases "th = 0")
  case True
  then show ?thesis by (intro exI[of _ 0]) (simp add: betterThreshold_def)
next
  case False
  then have pos: "0 < th" using assms by simp
  obtain k where k: "1 / th < 10 ^ k"
    using real_arch_pow[of 10 "1 / th"] by auto
  have "1 < th * 10 ^ k" using k pos by (simp add: divide_less_eq mult.commute)
  also have "th * 10 ^ k \<le> th * 10 ^ Suc k" using pos by simp
  finally have "1 \<le> th * 10 ^ Suc k" by simp
  with pos show ?thesis by (rule reach_pow)
qed


lemma load_refactor_unfold:
  "load_refactor factor matrix s =
     (if stability (clu (refactored factor matrix s)) \<ge> minStability s
      then Some (refactored factor matrix s)
      else if lastThreshold s = betterThreshold (lastThreshold s)
      then Some (refactored factor matrix s)
      else load_refactor factor matrix (raised factor matrix s))"
  by (subst load_refactor.simps) (simp add: refactored_def raised_def Let_def)

lemma lastThreshold_raised:
  "lastThreshold (raised factor matrix s) = betterThreshold (lastThreshold s)"
  by (simp add: raised_def)

lemma minStability_raised:
  "minStability (raised factor matrix s) = minStability s / 2"
  by (simp add: raised_def)

lemma lu_epsilon_raised:
  "lu_epsilon (raised factor matrix s) = lu_epsilon s"
  by (simp add: raised_def refactored_def)

lemma lastThreshold_rounds:
  "lastThreshold ((raised factor matrix ^^ j) s) = (betterThreshold ^^ j) (lastThreshold s)"
  by (induction j) (simp_all add: lastThreshold_raised)

lemma minStability_rounds:
  "minStability ((raised factor matrix ^^ j) s) = minStability s / 2 ^ j"
  by (induction j) (simp_all add: minStability_raised)

lemma lu_epsilon_rounds:
  "lu_epsilon ((raised factor matrix ^^ j) s) = lu_epsilon s"
  by (induction j) (simp_all add: lu_epsilon_raised)

lemma load_refactor_least:
  "betterThreshold ((betterThreshold ^^ n) (lastThreshold s)) = (betterThreshold ^^ n) (lastThreshold s) \<Longrightarrow>
   \<exists>k. load_refactor factor matrix s = Some (refactored factor matrix ((raised factor matrix ^^ k) s))
     \<and> (stability (clu (refactored factor matrix ((raised factor matrix ^^ k) s)))
            \<ge> minStability ((raised factor matrix ^^ k) s)
          \<or> betterThreshold (lastThreshold ((raised factor matrix ^^ k) s))
            = lastThreshold ((raised factor matrix ^^ k) s))
     \<and> (\<forall>j<k. stability (clu (refactored factor matrix ((raised factor matrix ^^ j) s)))
                  < minStability ((raised factor matrix ^^ j) s)
              \<and> betterThreshold (lastThreshold ((raised factor matrix ^^ j) s))
                  \<noteq> lastThreshold ((raised factor matrix ^^ j) s))"
proof (induction n arbitrary: s)
  case 0
  then have fx: "betterThreshold (lastThreshold s) = lastThreshold s" by simp
  have "load_refactor factor matrix s = Some (refactored factor matrix s)"
    by (subst load_refactor_unfold) (simp add: fx)
  with fx show ?case by (intro exI[of _ 0]) simp
next
  case (Suc n)
  let ?stops = "stability (clu (refactored factor matrix s)) \<ge> minStability s
                 \<or> betterThreshold (lastThreshold s) = lastThreshold s"
  show ?case
  proof (cases ?stops)
    case True
    then have "load_refactor factor matrix s = Some (refactored factor matrix s)"
      by (subst load_refactor_unfold) auto
    with True show ?thesis by (intro exI[of _ 0]) simp
  next
    case False
    let ?t = "raised factor matrix s"
    have rec: "load_refactor factor matrix s = load_refactor factor matrix ?t"
      using False by (subst load_refactor_unfold) auto
    have "betterThreshold ((betterThreshold ^^ n) (lastThreshold ?t)) = (betterThreshold ^^ n) (lastThreshold ?t)"
      using Suc.prems by (simp only: funpow_Suc_right o_apply lastThreshold_raised)
    from Suc.IH[OF this] obtain k where
      r: "load_refactor factor matrix ?t = Some (refactored factor matrix ((raised factor matrix ^^ k) ?t))"
      and ex: "stability (clu (refactored factor matrix ((raised factor matrix ^^ k) ?t)))
            \<ge> minStability ((raised factor matrix ^^ k) ?t)
          \<or> betterThreshold (lastThreshold ((raised factor matrix ^^ k) ?t))
            = lastThreshold ((raised factor matrix ^^ k) ?t)"
      and before: "\<forall>j<k. stability (clu (refactored factor matrix ((raised factor matrix ^^ j) ?t)))
                  < minStability ((raised factor matrix ^^ j) ?t)
              \<and> betterThreshold (lastThreshold ((raised factor matrix ^^ j) ?t))
                  \<noteq> lastThreshold ((raised factor matrix ^^ j) ?t)"
      by blast
    have shift: "\<And>j. (raised factor matrix ^^ j) ?t = (raised factor matrix ^^ Suc j) s"
      by (simp only: funpow_Suc_right o_apply)
    have all: "\<forall>j<Suc k. stability (clu (refactored factor matrix ((raised factor matrix ^^ j) s)))
                  < minStability ((raised factor matrix ^^ j) s)
              \<and> betterThreshold (lastThreshold ((raised factor matrix ^^ j) s))
                  \<noteq> lastThreshold ((raised factor matrix ^^ j) s)"
    proof (intro allI impI)
      fix j assume j: "j < Suc k"
      show "stability (clu (refactored factor matrix ((raised factor matrix ^^ j) s)))
                  < minStability ((raised factor matrix ^^ j) s)
              \<and> betterThreshold (lastThreshold ((raised factor matrix ^^ j) s))
                  \<noteq> lastThreshold ((raised factor matrix ^^ j) s)"
      proof (cases j)
        case 0
        with False show ?thesis by auto
      next
        case (Suc j')
        with j have "j' < k" by simp
        with before have "stability (clu (refactored factor matrix ((raised factor matrix ^^ j') ?t)))
                  < minStability ((raised factor matrix ^^ j') ?t)
              \<and> betterThreshold (lastThreshold ((raised factor matrix ^^ j') ?t))
                  \<noteq> lastThreshold ((raised factor matrix ^^ j') ?t)" by blast
        then show ?thesis unfolding shift Suc .
      qed
    qed
    have res: "load_refactor factor matrix s = Some (refactored factor matrix ((raised factor matrix ^^ Suc k) s))"
      using rec r unfolding shift by simp
    from ex have ex': "stability (clu (refactored factor matrix ((raised factor matrix ^^ Suc k) s)))
            \<ge> minStability ((raised factor matrix ^^ Suc k) s)
          \<or> betterThreshold (lastThreshold ((raised factor matrix ^^ Suc k) s))
            = lastThreshold ((raised factor matrix ^^ Suc k) s)"
      unfolding shift .
    from res ex' all show ?thesis by (intro exI[of _ "Suc k"] conjI)
  qed
qed

lemma load_refactor_total:
  assumes "0 \<le> lastThreshold s"
  shows "\<exists>k. load_refactor factor matrix s = Some (refactored factor matrix ((raised factor matrix ^^ k) s))
     \<and> (stability (clu (refactored factor matrix ((raised factor matrix ^^ k) s)))
            \<ge> minStability ((raised factor matrix ^^ k) s)
          \<or> betterThreshold (lastThreshold ((raised factor matrix ^^ k) s))
            = lastThreshold ((raised factor matrix ^^ k) s))
     \<and> (\<forall>j<k. stability (clu (refactored factor matrix ((raised factor matrix ^^ j) s)))
                  < minStability ((raised factor matrix ^^ j) s)
              \<and> betterThreshold (lastThreshold ((raised factor matrix ^^ j) s))
                  \<noteq> lastThreshold ((raised factor matrix ^^ j) s))"
proof -
  from reach_fix[OF assms] obtain n where
    "betterThreshold ((betterThreshold ^^ n) (lastThreshold s)) = (betterThreshold ^^ n) (lastThreshold s)" ..
  then show ?thesis by (rule load_refactor_least)
qed

text \<open>
  C5. After \<^verbatim>\<open>SLUFactor::clear()\<close> the threshold is \<^verbatim>\<open>minThreshold = 0.01\<close>.
  \<open>betterThreshold\<close> maps \<open>th < 0.1\<close> to \<open>10 * th\<close>, \<open>0.1 \<le> th < 0.9\<close> to
  \<open>(th + 1) / 2\<close>, \<open>0.9 \<le> th < 0.999\<close> to 0.99999 and leaves any other value.
  One round of the loop of \<^verbatim>\<open>SLUFactor::load\<close> factorizes with the current threshold
  (\<open>refactored\<close>). The loop stops there, with the threshold as it is, when the stability
  is at least \<^verbatim>\<open>minStability\<close>; it also stops there when the stability is below but the
  threshold is a fixed point of \<open>betterThreshold\<close>; in the remaining case, and only
  then, it goes round again with the threshold raised and \<^verbatim>\<open>minStability\<close> halved
  (\<open>raised\<close>). Started with a threshold that is not negative, the loop returns: the
  number \<open>k\<close> of raises is the first round in which the factorization is stable or
  the threshold is a fixed point, and in every round before it the factorization was
  not stable and the threshold still moved.
\<close>

theorem markowitz_threshold_schedule:
  "minThreshold (SLUFactor_clear epsFact s0) = 0.01
   \<and> lastThreshold (SLUFactor_clear epsFact s0) = 0.01
   \<and> betterThreshold th =
       (if th < 0.1 then 10 * th
        else if th < 0.9 then (th + 1) / 2
        else if th < 0.999 then 0.99999
        else th)
   \<and> (stability (clu (refactored factor matrix s)) \<ge> minStability s \<longrightarrow>
        load_refactor factor matrix s = Some (refactored factor matrix s))
   \<and> (stability (clu (refactored factor matrix s)) < minStability s
          \<and> betterThreshold (lastThreshold s) = lastThreshold s \<longrightarrow>
        load_refactor factor matrix s = Some (refactored factor matrix s))
   \<and> (stability (clu (refactored factor matrix s)) < minStability s
          \<and> betterThreshold (lastThreshold s) \<noteq> lastThreshold s \<longrightarrow>
        load_refactor factor matrix s = load_refactor factor matrix (raised factor matrix s))
   \<and> lastThreshold (refactored factor matrix s) = lastThreshold s
   \<and> minStability (refactored factor matrix s) = minStability s
   \<and> clu (refactored factor matrix s) = factor matrix (lastThreshold s) (lu_epsilon s) ((clu s)\<lparr>stat := OK\<rparr>)
   \<and> lastThreshold (raised factor matrix s) = betterThreshold (lastThreshold s)
   \<and> minStability (raised factor matrix s) = minStability s / 2
   \<and> (0 \<le> lastThreshold s \<longrightarrow>
        (\<exists>k. load_refactor factor matrix s = Some (refactored factor matrix ((raised factor matrix ^^ k) s))
           \<and> lastThreshold ((raised factor matrix ^^ k) s) = (betterThreshold ^^ k) (lastThreshold s)
           \<and> minStability ((raised factor matrix ^^ k) s) = minStability s / 2 ^ k
           \<and> (stability (clu (refactored factor matrix ((raised factor matrix ^^ k) s)))
                  \<ge> minStability ((raised factor matrix ^^ k) s)
                \<or> betterThreshold (lastThreshold ((raised factor matrix ^^ k) s))
                  = lastThreshold ((raised factor matrix ^^ k) s))
           \<and> (\<forall>j<k. stability (clu (refactored factor matrix ((raised factor matrix ^^ j) s)))
                        < minStability ((raised factor matrix ^^ j) s)
                    \<and> betterThreshold (lastThreshold ((raised factor matrix ^^ j) s))
                        \<noteq> lastThreshold ((raised factor matrix ^^ j) s))))"
proof (intro conjI impI)
  show "minThreshold (SLUFactor_clear epsFact s0) = 0.01"
    by (simp add: SLUFactor_clear_def Let_def)
  show "lastThreshold (SLUFactor_clear epsFact s0) = 0.01"
    by (simp add: SLUFactor_clear_def Let_def)
  show "betterThreshold th =
       (if th < 0.1 then 10 * th
        else if th < 0.9 then (th + 1) / 2
        else if th < 0.999 then 0.99999
        else th)"
    by (simp add: betterThreshold_def)
  show "lastThreshold (refactored factor matrix s) = lastThreshold s"
    by (simp add: refactored_def)
  show "minStability (refactored factor matrix s) = minStability s"
    by (simp add: refactored_def)
  show "clu (refactored factor matrix s) = factor matrix (lastThreshold s) (lu_epsilon s) ((clu s)\<lparr>stat := OK\<rparr>)"
    by (simp add: refactored_def)
  show "lastThreshold (raised factor matrix s) = betterThreshold (lastThreshold s)"
    by (rule lastThreshold_raised)
  show "minStability (raised factor matrix s) = minStability s / 2"
    by (rule minStability_raised)
next
  assume "stability (clu (refactored factor matrix s)) \<ge> minStability s"
  then show "load_refactor factor matrix s = Some (refactored factor matrix s)"
    by (subst load_refactor_unfold) simp
next
  assume "stability (clu (refactored factor matrix s)) < minStability s
          \<and> betterThreshold (lastThreshold s) = lastThreshold s"
  then show "load_refactor factor matrix s = Some (refactored factor matrix s)"
    by (subst load_refactor_unfold) simp
next
  assume "stability (clu (refactored factor matrix s)) < minStability s
          \<and> betterThreshold (lastThreshold s) \<noteq> lastThreshold s"
  then have "\<not> stability (clu (refactored factor matrix s)) \<ge> minStability s"
    and "lastThreshold s \<noteq> betterThreshold (lastThreshold s)"
    by auto
  then show "load_refactor factor matrix s = load_refactor factor matrix (raised factor matrix s)"
    by (subst load_refactor_unfold) simp
next
  assume "0 \<le> lastThreshold s"
  from load_refactor_total[OF this, of factor matrix] obtain k where
    k: "load_refactor factor matrix s = Some (refactored factor matrix ((raised factor matrix ^^ k) s))"
       "stability (clu (refactored factor matrix ((raised factor matrix ^^ k) s)))
            \<ge> minStability ((raised factor matrix ^^ k) s)
          \<or> betterThreshold (lastThreshold ((raised factor matrix ^^ k) s))
            = lastThreshold ((raised factor matrix ^^ k) s)"
       "\<forall>j<k. stability (clu (refactored factor matrix ((raised factor matrix ^^ j) s)))
                  < minStability ((raised factor matrix ^^ j) s)
              \<and> betterThreshold (lastThreshold ((raised factor matrix ^^ j) s))
                  \<noteq> lastThreshold ((raised factor matrix ^^ j) s)"
    by blast
  have "lastThreshold ((raised factor matrix ^^ k) s) = (betterThreshold ^^ k) (lastThreshold s)"
    and "minStability ((raised factor matrix ^^ k) s) = minStability s / 2 ^ k"
    by (rule lastThreshold_rounds, rule minStability_rounds)
  with k show "\<exists>k. load_refactor factor matrix s = Some (refactored factor matrix ((raised factor matrix ^^ k) s))
           \<and> lastThreshold ((raised factor matrix ^^ k) s) = (betterThreshold ^^ k) (lastThreshold s)
           \<and> minStability ((raised factor matrix ^^ k) s) = minStability s / 2 ^ k
           \<and> (stability (clu (refactored factor matrix ((raised factor matrix ^^ k) s)))
                  \<ge> minStability ((raised factor matrix ^^ k) s)
                \<or> betterThreshold (lastThreshold ((raised factor matrix ^^ k) s))
                  = lastThreshold ((raised factor matrix ^^ k) s))
           \<and> (\<forall>j<k. stability (clu (refactored factor matrix ((raised factor matrix ^^ j) s)))
                        < minStability ((raised factor matrix ^^ j) s)
                    \<and> betterThreshold (lastThreshold ((raised factor matrix ^^ j) s))
                        \<noteq> lastThreshold ((raised factor matrix ^^ j) s))"
    by (intro exI[of _ k] conjI)
qed


text \<open>
  A run of the loop: a factorization that is stable only for thresholds from 0.5 on is
  repeated with the thresholds 0.01, 0.1 and 0.55, and \<^verbatim>\<open>minStability\<close> is halved twice.
\<close>

theorem markowitz_threshold_schedule_witness:
  "0 \<le> lastThreshold (SLUFactor_new 0 ETA ())
   \<and> map_option lastThreshold
        (load_refactor stable_from_half ()
           (SLUFactor_new 0 ETA ())) = Some 0.55
   \<and> map_option minStability
        (load_refactor stable_from_half ()
           (SLUFactor_new 0 ETA ())) = Some (MINSTABILITY / 4)"
proof -
  let ?f = stable_from_half
  let ?s0 = "SLUFactor_new 0 ETA () :: unit slufactor"
  let ?s1 = "raised ?f () ?s0"
  let ?s2 = "raised ?f () ?s1"
  have stab: "\<And>s. stability (clu (refactored ?f () s)) = (if lastThreshold s < 0.5 then 1 / 1000 else 1)"
    by (simp add: refactored_def stability_def stable_from_half_def)
  have th0: "lastThreshold ?s0 = 0.01" and ms0: "minStability ?s0 = 1 / 100"
    by (simp_all add: SLUFactor_new_def SLUFactor_clear_def Let_def MINSTABILITY_def)
  have th1: "lastThreshold ?s1 = 0.1" and ms1: "minStability ?s1 = 1 / 200"
    by (simp_all add: lastThreshold_raised minStability_raised th0 ms0 betterThreshold_def)
  have th2: "lastThreshold ?s2 = 0.55" and ms2: "minStability ?s2 = 1 / 400"
    by (simp_all add: lastThreshold_raised minStability_raised th0 ms0 betterThreshold_def)
  have h: "0 \<le> lastThreshold ?s0" by (simp add: th0)
  have c0: "stability (clu (refactored ?f () ?s0)) < minStability ?s0
              \<and> betterThreshold (lastThreshold ?s0) \<noteq> lastThreshold ?s0"
    by (simp add: stab th0 ms0 betterThreshold_def)
  have c1: "stability (clu (refactored ?f () ?s1)) < minStability ?s1
              \<and> betterThreshold (lastThreshold ?s1) \<noteq> lastThreshold ?s1"
    by (simp add: stab th1 ms1 betterThreshold_def)
  have c2: "stability (clu (refactored ?f () ?s2)) \<ge> minStability ?s2"
    by (simp add: stab th2 ms2)
  have e0: "load_refactor ?f () ?s0 = load_refactor ?f () ?s1"
    using markowitz_threshold_schedule[where factor = ?f and matrix = "()" and s = ?s0] c0 by blast
  have e1: "load_refactor ?f () ?s1 = load_refactor ?f () ?s2"
    using markowitz_threshold_schedule[where factor = ?f and matrix = "()" and s = ?s1] c1 by blast
  have e2: "load_refactor ?f () ?s2 = Some (refactored ?f () ?s2)"
    using markowitz_threshold_schedule[where factor = ?f and matrix = "()" and s = ?s2] c2 by blast
  have res: "load_refactor ?f () ?s0 = Some (refactored ?f () ?s2)"
    by (simp only: e0 e1 e2)
  have r1: "map_option lastThreshold (load_refactor ?f () ?s0) = Some 0.55"
    by (simp add: res refactored_def th2)
  have r2: "map_option minStability (load_refactor ?f () ?s0) = Some (MINSTABILITY / 4)"
    by (simp add: res refactored_def ms2 MINSTABILITY_def)
  from h r1 r2 show ?thesis by blast
qed

section \<open>The flag usetup\<close>

lemma change_Some:
  "change NDEBUG ops i subst e s = Some (st, s') \<Longrightarrow> \<not> usetup s' \<and> st = stat (clu s')"
  by (auto simp: change_def Let_def split: option.splits if_splits)

lemma size_release: "size True v = Some (int (length (idx v)))"
  by (simp add: size_def)

lemma size_unset: "\<not> isSetup v \<Longrightarrow> size False v = None"
  by (simp add: size_def)

lemma changeEta_release: "\<exists>r. changeEta True ops i et c = Some r"
  by (simp add: changeEta_def size_release Let_def split: prod.splits)

lemma changeEta_unset: "\<not> isSetup et \<Longrightarrow> changeEta False ops i et c = None"
  by (simp add: changeEta_def size_unset)

lemma change_prepared_release: "\<exists>r. change_prepared True ops i s = Some r"
proof (cases "l_updateType (clu s) = FOREST_TOMLIN")
  case True
  then show ?thesis
    by (simp add: change_prepared_def size_release Let_def split: prod.splits)
next
  case False
  obtain c et where "changeEta True ops i (eta s) (clu s) = Some (c, et)"
    using changeEta_release[of ops i "eta s" "clu s"] by auto
  with False show ?thesis by (simp add: change_prepared_def)
qed

lemma assign_SVector_release: "assign_SVector_asserting True rhs v = Some (assign rhs (clear v))"
  by (simp add: assign_SVector_asserting_def Let_def)

lemma change_fresh_release: "\<exists>r. change_fresh True ops i subst e s = Some r"
proof (cases e)
  case (Some ev)
  then show ?thesis by (simp add: change_fresh_def size_release Let_def)
next
  case None
  show ?thesis
  proof (cases "l_updateType (clu s) = FOREST_TOMLIN")
    case True
    with None show ?thesis
      by (simp add: change_fresh_def assign_SVector_release Let_def split: prod.splits)
  next
    case False
    obtain c1 xs bs where sr:
      "solveRight ops (val (clear (eta s))) (Vector_assign_SV subst (vec s)) (clu s) = (c1, xs, bs)"
      by (cases "solveRight ops (val (clear (eta s))) (Vector_assign_SV subst (vec s)) (clu s)") auto
    obtain c2 et where "changeEta True ops i ((unSetup (clear (eta s)))\<lparr>val := xs\<rparr>) c1 = Some (c2, et)"
      using changeEta_release[of ops i "(unSetup (clear (eta s)))\<lparr>val := xs\<rparr>" c1] by auto
    with None False sr show ?thesis by (simp add: change_fresh_def Let_def)
  qed
qed

lemma change_release: "\<exists>st s'. change True ops i subst e s = Some (st, s')"
proof (cases "usetup s")
  case True
  obtain r where "change_prepared True ops i s = Some r"
    using change_prepared_release[of ops i s] by auto
  with True show ?thesis by (simp add: change_def Let_def)
next
  case False
  obtain r where "change_fresh True ops i subst e s = Some r"
    using change_fresh_release[of ops i subst e s] by auto
  with False show ?thesis by (simp add: change_def Let_def)
qed

lemma change_recompute_eta_aborts:
  assumes "\<not> usetup s" "e = None" "l_updateType (clu s) = ETA"
  shows "change False ops i subst e s = None"
proof -
  have "change_fresh False ops i subst None s = None"
    using assms(3)
    by (simp add: change_fresh_def Let_def changeEta_unset isSetup_def unSetup_def split: prod.splits)
  with assms show ?thesis by (simp add: change_def)
qed

lemma change_e_forest_aborts:
  assumes "\<not> usetup s" "e \<noteq> None" "l_updateType (clu s) = FOREST_TOMLIN"
  shows "change False ops i subst e s = None"
  using assms by (auto simp: change_def change_fresh_def)

lemma change_after_change:
  assumes "\<not> usetup s'"
  shows "change NDEBUG ops j subst2 e2 s' =
         map_option (\<lambda>t. (stat (clu t), t\<lparr>usetup := False\<rparr>)) (change_fresh NDEBUG ops j subst2 e2 s')"
  using assms by (simp add: change_def Let_def split: option.splits)

text \<open>
  C9. \<^verbatim>\<open>SLUFactor::change\<close> returns with \<^verbatim>\<open>usetup\<close> false on every path on which it
  returns: with update vectors prepared (\<^verbatim>\<open>usetup\<close> true) or not, for either update
  type, with or without the argument \<open>e\<close>. A second call of \<^verbatim>\<open>change\<close> right
  after the first therefore never takes the branch that consumes prepared vectors: it is
  the rest of the \<^verbatim>\<open>if\<close> chain, which works from \<open>e\<close> or recomputes the vector
  from its own argument \<open>subst\<close>. A build without assertions returns on every path.
  A build with assertions never returns on two of them: when the \<^verbatim>\<open>ETA\<close> update
  vector is recomputed from \<open>subst\<close> (\<^verbatim>\<open>changeEta\<close> takes the size of \<^verbatim>\<open>eta\<close>
  after \<^verbatim>\<open>altValues()\<close> has unset it), and when \<open>e\<close> is passed to a
  \<^verbatim>\<open>FOREST_TOMLIN\<close> factorization without prepared vectors.
\<close>

theorem change_resets_usetup:
  "(change NDEBUG ops i subst e s = Some (st, s') \<longrightarrow>
      \<not> usetup s' \<and> st = stat (clu s')
      \<and> change NDEBUG ops j subst2 e2 s' =
          map_option (\<lambda>t. (stat (clu t), t\<lparr>usetup := False\<rparr>)) (change_fresh NDEBUG ops j subst2 e2 s'))
   \<and> (\<exists>st s'. change True ops i subst e s = Some (st, s'))
   \<and> (\<not> usetup s \<and> e = None \<and> l_updateType (clu s) = ETA \<longrightarrow>
        change False ops i subst e s = None)
   \<and> (\<not> usetup s \<and> e \<noteq> None \<and> l_updateType (clu s) = FOREST_TOMLIN \<longrightarrow>
        change False ops i subst e s = None)"
proof (intro conjI impI)
  assume a: "change NDEBUG ops i subst e s = Some (st, s')"
  from change_Some[OF a] show "\<not> usetup s'" and "st = stat (clu s')" by simp_all
  from change_Some[OF a] have "\<not> usetup s'" by simp
  then show "change NDEBUG ops j subst2 e2 s' =
          map_option (\<lambda>t. (stat (clu t), t\<lparr>usetup := False\<rparr>)) (change_fresh NDEBUG ops j subst2 e2 s')"
    by (rule change_after_change)
next
  show "\<exists>st s'. change True ops i subst e s = Some (st, s')" by (rule change_release)
next
  assume "\<not> usetup s \<and> e = None \<and> l_updateType (clu s) = ETA"
  then show "change False ops i subst e s = None"
    by (intro change_recompute_eta_aborts) simp_all
next
  assume "\<not> usetup s \<and> e \<noteq> None \<and> l_updateType (clu s) = FOREST_TOMLIN"
  then show "change False ops i subst e s = None"
    by (intro change_e_forest_aborts) simp_all
qed

text \<open>
  Three runs on the state of the constructor: with prepared Forest-Tomlin vectors
  (\<^verbatim>\<open>usetup\<close> set, as \<^verbatim>\<open>solveRight4update\<close> leaves it) in a build with assertions,
  and the recomputation of the \<^verbatim>\<open>ETA\<close> vector with and without assertions.
\<close>

theorem change_resets_usetup_witness:
  "(\<exists>st s'. change False idle_ops 0 [(0, 1)] None
              ((SLUFactor_new 0 FOREST_TOMLIN ())\<lparr>usetup := True\<rparr>) = Some (st, s')
     \<and> \<not> usetup s' \<and> st = UNLOADED)
   \<and> change False idle_ops 0 [(0, 1)] None (SLUFactor_new 0 ETA ()) = None
   \<and> (\<exists>st s'. change True idle_ops 0 [(0, 1)] None (SLUFactor_new 0 ETA ()) = Some (st, s')
        \<and> \<not> usetup s')"
proof (intro conjI)
  let ?s = "(SLUFactor_new 0 FOREST_TOMLIN ())\<lparr>usetup := True\<rparr>"
  have fs: "isSetup (forest ?s)"
    by (simp add: SLUFactor_new_def SLUFactor_clear_def Let_def clear_def isSetup_def)
  have ft: "l_updateType (clu ?s) = FOREST_TOMLIN"
    by (simp add: SLUFactor_new_def SLUFactor_clear_def Let_def)
  obtain st s' where r: "change False idle_ops 0 [(0, 1)] None ?s = Some (st, s')"
    using fs ft by (simp add: change_def change_prepared_def size_def idle_ops_def Let_def)
  have "st = UNLOADED"
    using r fs ft
    by (auto simp: change_def change_prepared_def size_def idle_ops_def SLUFactor_new_def
        SLUFactor_clear_def Let_def split: prod.splits)
  moreover have "\<not> usetup s'"
    using change_resets_usetup[of False idle_ops 0 "[(0, 1)]" None ?s st s'] r by blast
  ultimately show "\<exists>st s'. change False idle_ops 0 [(0, 1)] None ?s = Some (st, s')
     \<and> \<not> usetup s' \<and> st = UNLOADED" using r by blast
next
  let ?t = "SLUFactor_new 0 ETA () :: unit slufactor"
  have h: "\<not> usetup ?t \<and> (None :: ssvector option) = None \<and> l_updateType (clu ?t) = ETA"
    by (simp add: SLUFactor_new_def SLUFactor_clear_def Let_def)
  show "change False idle_ops 0 [(0, 1)] None ?t = None"
    using change_resets_usetup[of False idle_ops 0 "[(0, 1)]" None ?t] h by blast
next
  let ?t = "SLUFactor_new 0 ETA () :: unit slufactor"
  obtain st s' where r: "change True idle_ops 0 [(0, 1)] None ?t = Some (st, s')"
    using change_resets_usetup[of True idle_ops 0 "[(0, 1)]" None ?t] by blast
  then have "\<not> usetup s'"
    using change_resets_usetup[of True idle_ops 0 "[(0, 1)]" None ?t st s'] by blast
  with r show "\<exists>st s'. change True idle_ops 0 [(0, 1)] None ?t = Some (st, s') \<and> \<not> usetup s'"
    by blast
qed

section \<open>Progress check of the refinement loop\<close>










section \<open>Scaling factors of the refinement loop\<close>

lemma recip_gt1: fixes r :: rat assumes "0 < r" and "r < 1" shows "1 < 1 / r" using assms by simp
lemma ceiling_ge2: fixes y :: rat assumes "1 < y" shows "2 \<le> \<lceil>y\<rceil>" using assms by (simp add: le_ceiling_iff)
lemma pred_ceiling_pos: fixes y :: rat assumes "2 \<le> \<lceil>y\<rceil>" shows "0 < nat \<lceil>y\<rceil> - 1" using assms by linarith

lemma floorlog2_pos: assumes m: "0 < (m::nat)" shows "0 < floorlog 2 m"
  using m floorlog_eq_zero_iff[of 2 m] by (cases "floorlog 2 m = 0") simp_all
lemma powRound_below1: fixes r :: rat assumes "0 < r" and "r < 1" shows "powRound r = 1 / 2 ^ floorlog 2 (nat \<lceil>1 / r\<rceil> - 1)"
  using assms by (simp add: powRound_def)
lemma int_pred_ceiling: fixes y :: rat assumes "2 \<le> \<lceil>y\<rceil>" shows "int (nat \<lceil>y\<rceil> - 1) = \<lceil>y\<rceil> - 1" using assms by linarith

lemma le_pow_of_pred_ceiling: fixes y :: rat assumes hi: "m < (2::nat) ^ k" and mint: "int m = \<lceil>y\<rceil> - 1" shows "y \<le> 2 ^ k"
proof -
  have "int m < int (2 ^ k)" using hi by (simp only: of_nat_less_iff)
  then have "\<lceil>y\<rceil> \<le> int (2 ^ k)" using mint by linarith
  then have "(of_int \<lceil>y\<rceil> :: rat) \<le> of_int (int (2 ^ k))" by (simp only: of_int_le_iff)
  moreover have "y \<le> of_int \<lceil>y\<rceil>" by (rule le_of_int_ceiling)
  ultimately have "y \<le> of_int (int (2 ^ k))" by (rule order_trans[rotated])
  then show ?thesis by simp
qed
lemma pow_less_of_pred_ceiling: fixes y :: rat assumes lo: "(2::nat) ^ j \<le> m" and mint: "int m = \<lceil>y\<rceil> - 1" shows "2 ^ j < y"
proof -
  have "int (2 ^ j) \<le> int m" using lo by (simp only: of_nat_le_iff)
  then have "int (2 ^ j) \<le> \<lceil>y\<rceil> - 1" using mint by simp
  then have "(of_int (int (2 ^ j)) :: rat) \<le> of_int (\<lceil>y\<rceil> - 1)" by (simp only: of_int_le_iff)
  moreover have "of_int (\<lceil>y\<rceil> - 1) < y" using ceiling_correct[of y] by simp
  ultimately have "of_int (int (2 ^ j)) < y" by (rule le_less_trans)
  then show ?thesis by simp
qed

lemma recip_pow_le: fixes r :: rat assumes "0 < r" and "1 / r \<le> 2 ^ k" shows "1 / 2 ^ k \<le> r"
proof -
  have p: "(0::rat) < 2 ^ k" by simp
  from assms have "1 \<le> 2 ^ k * r" by (simp add: pos_divide_le_eq)
  then show ?thesis using p by (simp add: pos_divide_le_eq mult.commute)
qed
lemma less_twice_recip_pow: fixes r :: rat assumes "0 < r" and "2 ^ j < 1 / r" shows "r < 2 * (1 / 2 ^ Suc j)"
proof -
  from assms have "2 ^ j * r < 1" by (simp add: pos_less_divide_eq)
  then have "r < 1 / 2 ^ j" by (simp add: pos_less_divide_eq mult.commute)
  then show ?thesis by simp
qed

lemma powRound_lt1:
  assumes "0 < r" and "r < 1"
  shows "powRound r \<le> r \<and> r < 2 * powRound r \<and> is_pow2 (powRound r)"
proof -
  let ?y = "1 / r"
  let ?m = "nat \<lceil>?y\<rceil> - 1"
  let ?k = "floorlog 2 ?m"
  have c2: "2 \<le> \<lceil>?y\<rceil>" using assms by (intro ceiling_ge2 recip_gt1)
  then have m: "0 < ?m" by (rule pred_ceiling_pos)
  from floorlog_bounds[OF m, of 2] have lo: "2 ^ (?k - 1) \<le> ?m" and hi: "?m < 2 ^ ?k" by simp_all
  have kpos: "0 < ?k" using m by (rule floorlog2_pos)
  then obtain j where j: "?k = Suc j" by (cases ?k) simp_all
  have pr: "powRound r = 1 / 2 ^ ?k" using assms by (rule powRound_below1)
  have mint: "int ?m = \<lceil>?y\<rceil> - 1" using c2 by (rule int_pred_ceiling)
  have le: "1 / 2 ^ ?k \<le> r" using assms(1) le_pow_of_pred_ceiling[OF hi mint] by (rule recip_pow_le)
  have kj: "?k - 1 = j" using j by simp
  have "2 ^ j \<le> ?m" using lo by (simp only: kj)
  then have "r < 2 * (1 / 2 ^ Suc j)" using assms(1) pow_less_of_pred_ceiling[OF _ mint] less_twice_recip_pow by blast
  then have gt: "r < 2 * (1 / 2 ^ ?k)" by (simp only: j)
  have "is_pow2 (powRound r)" unfolding is_pow2_def pr by blast
  with le gt show ?thesis by (simp only: pr simp_thms)
qed

lemma nat_floor_pos: fixes r :: rat assumes "1 \<le> r" shows "0 < nat \<lfloor>r\<rfloor>"
proof -
  have "1 \<le> \<lfloor>r\<rfloor>" using assms by (simp add: le_floor_iff)
  then show ?thesis by simp
qed
lemma pow_le_of_floor: fixes r :: rat assumes "1 \<le> r" and lo: "(2::nat) ^ j \<le> nat \<lfloor>r\<rfloor>" shows "2 ^ j \<le> r"
proof -
  have f: "0 \<le> \<lfloor>r\<rfloor>" using assms(1) by (simp add: le_floor_iff)
  have "int (2 ^ j) \<le> int (nat \<lfloor>r\<rfloor>)" using lo by (simp only: of_nat_le_iff)
  then have "int (2 ^ j) \<le> \<lfloor>r\<rfloor>" using f by simp
  then have "(of_int (int (2 ^ j)) :: rat) \<le> of_int \<lfloor>r\<rfloor>" by (simp only: of_int_le_iff)
  moreover have "of_int \<lfloor>r\<rfloor> \<le> r" by (rule of_int_floor_le)
  ultimately have "of_int (int (2 ^ j)) \<le> r" by (rule order_trans)
  then show ?thesis by simp
qed
lemma less_pow_of_floor: fixes r :: rat assumes "1 \<le> r" and hi: "nat \<lfloor>r\<rfloor> < (2::nat) ^ k" shows "r < 2 ^ k"
proof -
  have f: "0 \<le> \<lfloor>r\<rfloor>" using assms(1) by (simp add: le_floor_iff)
  have "int (nat \<lfloor>r\<rfloor>) < int (2 ^ k)" using hi by (simp only: of_nat_less_iff)
  then have "\<lfloor>r\<rfloor> + 1 \<le> int (2 ^ k)" using f by simp
  then have "(of_int (\<lfloor>r\<rfloor> + 1) :: rat) \<le> of_int (int (2 ^ k))" by (simp only: of_int_le_iff)
  moreover have "r < of_int (\<lfloor>r\<rfloor> + 1)" using floor_correct[of r] by simp
  ultimately have "r < of_int (int (2 ^ k))" by (rule less_le_trans[rotated])
  then show ?thesis by simp
qed

lemma powRound_ge1:
  assumes "1 \<le> r"
  shows "powRound r \<le> r \<and> r < 2 * powRound r \<and> is_pow2 (powRound r)"
proof -
  let ?n = "nat \<lfloor>r\<rfloor>"
  let ?k = "floorlog 2 ?n"
  have n: "0 < ?n" using assms by (rule nat_floor_pos)
  from floorlog_bounds[OF n, of 2] have lo: "2 ^ (?k - 1) \<le> ?n" and hi: "?n < 2 ^ ?k" by simp_all
  have kpos: "0 < ?k" using n by (rule floorlog2_pos)
  then obtain j where j: "?k = Suc j" by (cases ?k) simp_all
  have kj: "?k - 1 = j" using j by simp
  have "powRound r = 2 ^ (?k - 1)" using assms by (simp add: powRound_def)
  then have pr: "powRound r = 2 ^ j" by (simp only: kj)
  have "2 ^ j \<le> ?n" using lo by (simp only: kj)
  then have le: "2 ^ j \<le> r" using assms pow_le_of_floor by blast
  have "r < 2 ^ Suc j" using less_pow_of_floor[OF assms hi] by (simp only: j)
  then have gt: "r < 2 * 2 ^ j" by simp
  have "is_pow2 (powRound r)" unfolding is_pow2_def pr by blast
  with le gt show ?thesis by (simp only: pr simp_thms)
qed

lemma powRound_down:
  assumes "0 < r"
  shows "powRound r \<le> r \<and> r < 2 * powRound r \<and> is_pow2 (powRound r)"
proof (cases "1 \<le> r")
  case True then show ?thesis by (rule powRound_ge1)
next
  case False
  then have "r < 1" by simp
  with assms show ?thesis by (rule powRound_lt1)
qed

lemma primal_value:
  "primalScale (computePrimalScalingFactor incr ps b s r st) =
     (let m = max (max b s) r;
          capped = (if m > 0 then min (1 / m) (primalScale st * incr) else primalScale st * incr)
      in if ps then powRound capped else capped)"
  by (auto simp add: computePrimalScalingFactor_def Let_def max_def min_def invert_def)

lemma primal_maxScale:
  "maxScale (computePrimalScalingFactor incr ps b s r st) = primalScale st * incr"
  by (simp add: computePrimalScalingFactor_def Let_def)

lemma dual_value:
  "dualScale (computeDualScalingFactor incr ps r d st) =
     (let m = max r d;
          capped = (if m > 0 then min (1 / m) (dualScale st * incr) else dualScale st * incr);
          rounded = (if ps then powRound capped else capped)
      in max 1 (min rounded (primalScale st)))"
  by (auto simp add: computeDualScalingFactor_def Let_def max_def min_def invert_def)
lemma is_pow2_one: "is_pow2 1"
  unfolding is_pow2_def by (rule exI[of _ 0]) simp

text \<open>
  C2. The new primal scaling factor is the reciprocal of the maximum of the bounds,
  side and reduced cost violations when that maximum is positive, capped by the
  previous factor times \<^verbatim>\<open>maxscaleincr\<close> (and it is that cap when the maximum is
  zero). The dual factor is computed in the same way from the reduced cost and dual
  violations and the previous dual factor, then capped by the primal factor and
  raised to 1 if smaller: it is at least 1, and at most the primal factor that
  \<^verbatim>\<open>_applyScaledBounds\<close> has left. Under \<^verbatim>\<open>POWERSCALING\<close> the capped value is rounded
  by \<open>powRound\<close>: down, to a power of two.
\<close>

theorem scaling_factors:
  "primalScale (computePrimalScalingFactor incr ps b s r st) =
     (let m = max (max b s) r;
          capped = (if m > 0 then min (1 / m) (primalScale st * incr) else primalScale st * incr)
      in if ps then powRound capped else capped)
   \<and> dualScale (computeDualScalingFactor incr ps r d st) =
     (let m = max r d;
          capped = (if m > 0 then min (1 / m) (dualScale st * incr) else dualScale st * incr);
          rounded = (if ps then powRound capped else capped)
      in max 1 (min rounded (primalScale st)))
   \<and> 1 \<le> dualScale (computeDualScalingFactor incr ps r d st)
   \<and> dualScale (computeDualScalingFactor incr ps r d (applyScaledBounds_scale st))
        \<le> primalScale (applyScaledBounds_scale st)
   \<and> (0 < x \<longrightarrow> powRound x \<le> x \<and> x < 2 * powRound x \<and> is_pow2 (powRound x))
   \<and> (0 < primalScale st * incr \<longrightarrow>
        primalScale (computePrimalScalingFactor incr ps b s r st) \<le> primalScale st * incr
        \<and> (ps \<longrightarrow> is_pow2 (primalScale (computePrimalScalingFactor incr ps b s r st))))
   \<and> (ps \<and> 0 < dualScale st * incr \<and> is_pow2 (primalScale st) \<longrightarrow>
        is_pow2 (dualScale (computeDualScalingFactor incr ps r d st)))"
proof (intro conjI impI)
  show "primalScale (computePrimalScalingFactor incr ps b s r st) =
     (let m = max (max b s) r;
          capped = (if m > 0 then min (1 / m) (primalScale st * incr) else primalScale st * incr)
      in if ps then powRound capped else capped)"
    by (rule primal_value)
  show dv: "dualScale (computeDualScalingFactor incr ps r d st) =
     (let m = max r d;
          capped = (if m > 0 then min (1 / m) (dualScale st * incr) else dualScale st * incr);
          rounded = (if ps then powRound capped else capped)
      in max 1 (min rounded (primalScale st)))"
    by (rule dual_value)
  show "1 \<le> dualScale (computeDualScalingFactor incr ps r d st)"
    by (simp add: dual_value Let_def)
  have "1 \<le> primalScale (applyScaledBounds_scale st)"
    by (simp add: applyScaledBounds_scale_def)
  then show "dualScale (computeDualScalingFactor incr ps r d (applyScaledBounds_scale st))
        \<le> primalScale (applyScaledBounds_scale st)"
    by (simp add: dual_value Let_def)
next
  assume "0 < x"
  then have "powRound x \<le> x \<and> x < 2 * powRound x \<and> is_pow2 (powRound x)"
    by (rule powRound_down)
  then show "powRound x \<le> x" and "x < 2 * powRound x" and "is_pow2 (powRound x)"
    by simp_all
next
  assume pos: "0 < primalScale st * incr"
  define m where "m = max (max b s) r"
  define capped where
    "capped = (if m > 0 then min (1 / m) (primalScale st * incr) else primalScale st * incr)"
  have cpos: "0 < capped" using pos by (simp add: capped_def)
  have cle: "capped \<le> primalScale st * incr" by (simp add: capped_def)
  have v: "primalScale (computePrimalScalingFactor incr ps b s r st) =
             (if ps then powRound capped else capped)"
    by (simp add: primal_value Let_def capped_def m_def)
  from powRound_down[OF cpos] cle
  show "primalScale (computePrimalScalingFactor incr ps b s r st) \<le> primalScale st * incr"
    by (simp add: v)
  {
    assume ps
    then have "primalScale (computePrimalScalingFactor incr ps b s r st) = powRound capped"
      using v by simp
    with powRound_down[OF cpos]
    show "is_pow2 (primalScale (computePrimalScalingFactor incr ps b s r st))"
      by (simp del: One_nat_def)
  }
next
  assume a: "ps \<and> 0 < dualScale st * incr \<and> is_pow2 (primalScale st)"
  define m where "m = max r d"
  define capped where
    "capped = (if m > 0 then min (1 / m) (dualScale st * incr) else dualScale st * incr)"
  have cpos: "0 < capped" using a by (simp add: capped_def)
  have v: "dualScale (computeDualScalingFactor incr ps r d st) =
             max 1 (min (powRound capped) (primalScale st))"
    using a by (simp add: dual_value Let_def capped_def m_def)
  from powRound_down[OF cpos] have "is_pow2 (powRound capped)" by simp
  with a is_pow2_one have "is_pow2 (max 1 (min (powRound capped) (primalScale st)))"
    by (simp add: max_def min_def)
  then show "is_pow2 (dualScale (computeDualScalingFactor incr ps r d st))"
    by (simp only: v)
qed

theorem scaling_factors_witness:
  "is_pow2 (primalScale (computePrimalScalingFactor 1000 True (1 / 300) 0 0
              \<lparr>maxScale = 0, primalScale = 1, dualScale = 1, modObj = []\<rparr>))
   \<and> primalScale (computePrimalScalingFactor 1000 True (1 / 300) 0 0
              \<lparr>maxScale = 0, primalScale = 1, dualScale = 1, modObj = []\<rparr>) \<le> 1000"
proof -
  let ?st = "\<lparr>maxScale = 0, primalScale = 1, dualScale = 1, modObj = []\<rparr>"
  have h: "0 < primalScale ?st * 1000" by simp
  have e: "primalScale ?st * 1000 = 1000" by simp
  from scaling_factors[of 1000 True "1 / 300" 0 0 ?st 0 1] h
  have "primalScale (computePrimalScalingFactor 1000 True (1 / 300) 0 0 ?st) \<le> primalScale ?st * 1000
        \<and> is_pow2 (primalScale (computePrimalScalingFactor 1000 True (1 / 300) 0 0 ?st))"
    by blast
  then show ?thesis using e by simp
qed

section \<open>The stored solution is aligned with the basis\<close>

lemma bounds_basisStatusCols [simp]:
  "lowerRational (s\<lparr>basisStatusCols := X\<rparr>) c = lowerRational s c"
  "upperRational (s\<lparr>basisStatusCols := X\<rparr>) c = upperRational s c"
  by (simp_all add: lowerRational_def upperRational_def)

lemma store_col_eq:
  "store_col aR pR c (s, sol) =
     (s\<lparr>basisStatusCols := (if basisStatusCols s ! c = FIXED then (basisStatusCols s)[c := ON_LOWER] else basisStatusCols s)\<rparr>,
      sol\<lparr>sol_primal := (sol_primal sol)[c := colval aR pR s c]\<rparr>)"
  by (cases "basisStatusCols s ! c") (simp_all add: store_col_def colval_def Let_def)

lemma store_col_loop:
  "\<exists>X Y. for_down (store_col aR pR) n (s, sol) = (s\<lparr>basisStatusCols := X\<rparr>, sol\<lparr>sol_primal := Y\<rparr>)
     \<and> length X = length (basisStatusCols s) \<and> length Y = length (sol_primal sol)
     \<and> (\<forall>c. X ! c = (if c < n \<and> c < length (basisStatusCols s) \<and> basisStatusCols s ! c = FIXED then ON_LOWER else basisStatusCols s ! c))
     \<and> (\<forall>c. Y ! c = (if c < n \<and> c < length (sol_primal sol) then colval aR pR s c else sol_primal sol ! c))"
proof (induction n arbitrary: s sol)
  case 0
  show ?case
    by (rule exI[of _ "basisStatusCols s"], rule exI[of _ "sol_primal sol"]) simp
next
  case (Suc n)
  let ?s1 = "s\<lparr>basisStatusCols := (if basisStatusCols s ! n = FIXED then (basisStatusCols s)[n := ON_LOWER] else basisStatusCols s)\<rparr>"
  let ?sol1 = "sol\<lparr>sol_primal := (sol_primal sol)[n := colval aR pR s n]\<rparr>"
  from Suc.IH[of ?s1 ?sol1] obtain X Y where
    r: "for_down (store_col aR pR) n (?s1, ?sol1) = (?s1\<lparr>basisStatusCols := X\<rparr>, ?sol1\<lparr>sol_primal := Y\<rparr>)"
    and lx: "length X = length (basisStatusCols ?s1)" and ly: "length Y = length (sol_primal ?sol1)"
    and px: "\<forall>c. X ! c = (if c < n \<and> c < length (basisStatusCols ?s1) \<and> basisStatusCols ?s1 ! c = FIXED then ON_LOWER else basisStatusCols ?s1 ! c)"
    and py: "\<forall>c. Y ! c = (if c < n \<and> c < length (sol_primal ?sol1) then colval aR pR ?s1 c else sol_primal ?sol1 ! c)"
    by blast
  have cv: "\<And>c. c < n \<Longrightarrow> colval aR pR ?s1 c = colval aR pR s c"
    by (simp add: colval_def split: VarStatus.splits)
  have "for_down (store_col aR pR) (Suc n) (s, sol) = (s\<lparr>basisStatusCols := X\<rparr>, sol\<lparr>sol_primal := Y\<rparr>)"
    using r by (simp add: store_col_eq)
  moreover have "length X = length (basisStatusCols s)" using lx by simp
  moreover have "length Y = length (sol_primal sol)" using ly by simp
  moreover have "\<forall>c. X ! c = (if c < Suc n \<and> c < length (basisStatusCols s) \<and> basisStatusCols s ! c = FIXED then ON_LOWER else basisStatusCols s ! c)"
  proof
    fix c
    show "X ! c = (if c < Suc n \<and> c < length (basisStatusCols s) \<and> basisStatusCols s ! c = FIXED then ON_LOWER else basisStatusCols s ! c)"
      using px[rule_format, of c]
      by (cases "c = n") (auto simp: nth_list_update less_Suc_eq list_update_beyond not_less)
  qed
  moreover have "\<forall>c. Y ! c = (if c < Suc n \<and> c < length (sol_primal sol) then colval aR pR s c else sol_primal sol ! c)"
  proof
    fix c
    show "Y ! c = (if c < Suc n \<and> c < length (sol_primal sol) then colval aR pR s c else sol_primal sol ! c)"
      using py[rule_format, of c] cv[of c]
      by (cases "c = n") (auto simp: nth_list_update less_Suc_eq list_update_beyond not_less)
  qed
  ultimately show ?case by blast
qed


lemma store_row_eq:
  "store_row aR dR r (s, sol, ds) =
     (s\<lparr>basisStatusRows := (if basisStatusRows s ! r = FIXED then (basisStatusRows s)[r := ON_LOWER] else basisStatusRows s)\<rparr>,
      sol\<lparr>sol_dual := (sol_dual sol)[r := aR (dR ! r)]\<rparr>,
      if dR ! r \<noteq> 0 then ds + 1 else ds)"
  by (simp add: store_row_def Let_def)

lemma store_row_loop:
  "\<exists>X Y d. for_down (store_row aR dR) m (s, sol, ds) = (s\<lparr>basisStatusRows := X\<rparr>, sol\<lparr>sol_dual := Y\<rparr>, d)
     \<and> length X = length (basisStatusRows s)
     \<and> (\<forall>r. X ! r = (if r < m \<and> r < length (basisStatusRows s) \<and> basisStatusRows s ! r = FIXED then ON_LOWER else basisStatusRows s ! r))"
proof (induction m arbitrary: s sol ds)
  case 0
  show ?case
    by (rule exI[of _ "basisStatusRows s"], rule exI[of _ "sol_dual sol"], rule exI[of _ ds]) simp
next
  case (Suc m)
  let ?s1 = "s\<lparr>basisStatusRows := (if basisStatusRows s ! m = FIXED then (basisStatusRows s)[m := ON_LOWER] else basisStatusRows s)\<rparr>"
  let ?sol1 = "sol\<lparr>sol_dual := (sol_dual sol)[m := aR (dR ! m)]\<rparr>"
  let ?d1 = "if dR ! m \<noteq> 0 then ds + 1 else ds"
  from Suc.IH[of ?s1 ?sol1 ?d1] obtain X Y d where
    r: "for_down (store_row aR dR) m (?s1, ?sol1, ?d1) = (?s1\<lparr>basisStatusRows := X\<rparr>, ?sol1\<lparr>sol_dual := Y\<rparr>, d)"
    and lx: "length X = length (basisStatusRows ?s1)"
    and px: "\<forall>r. X ! r = (if r < m \<and> r < length (basisStatusRows ?s1) \<and> basisStatusRows ?s1 ! r = FIXED then ON_LOWER else basisStatusRows ?s1 ! r)"
    by blast
  have "for_down (store_row aR dR) (Suc m) (s, sol, ds) = (s\<lparr>basisStatusRows := X\<rparr>, sol\<lparr>sol_dual := Y\<rparr>, d)"
    using r by (simp add: store_row_eq)
  moreover have "length X = length (basisStatusRows s)" using lx by simp
  moreover have "\<forall>r. X ! r = (if r < Suc m \<and> r < length (basisStatusRows s) \<and> basisStatusRows s ! r = FIXED then ON_LOWER else basisStatusRows s ! r)"
  proof
    fix r
    show "X ! r = (if r < Suc m \<and> r < length (basisStatusRows s) \<and> basisStatusRows s ! r = FIXED then ON_LOWER else basisStatusRows s ! r)"
      using px[rule_format, of r]
      by (cases "r = m") (auto simp: nth_list_update less_Suc_eq list_update_beyond not_less)
  qed
  ultimately show ?case by blast
qed

lemma length_reDim [simp]: "length (reDim n v) = n"
  by (simp add: reDim_def)

lemma no_FIXED:
  assumes "\<forall>c. X ! c = (if c < n \<and> c < length xs \<and> xs ! c = FIXED then ON_LOWER else xs ! c)"
    and "length X = length xs" and "length xs = n"
  shows "FIXED \<notin> set X"
proof
  assume "FIXED \<in> set X"
  then obtain c where c: "c < length X" and f: "X ! c = FIXED" by (auto simp: in_set_conv_nth)
  from assms(1)[rule_format, of c] c assms(2,3) f show False
    by (simp split: if_splits)
qed

text \<open>
  C10. After \<^verbatim>\<open>_storeRealSolutionAsRational\<close> no column and no row has the basis
  status \<^verbatim>\<open>FIXED\<close>: each \<^verbatim>\<open>FIXED\<close> status has become \<^verbatim>\<open>ON_LOWER\<close>, any other
  status is kept. The primal value of a column is exactly its rational lower bound
  for \<^verbatim>\<open>ON_LOWER\<close> (also when it was \<^verbatim>\<open>FIXED\<close>), its rational upper bound for
  \<^verbatim>\<open>ON_UPPER\<close> and 0 for \<^verbatim>\<open>ZERO\<close>; only the columns with one of the other
  statuses take the converted floating-point value. The two status arrays have the
  dimensions of the rational LP, as the caller asserts.
\<close>

theorem store_aligns_with_basis:
  assumes lc: "length (basisStatusCols s) = numColsRational s"
    and lr: "length (basisStatusRows s) = numRowsRational s"
    and res: "storeRealSolutionAsRational aR pR dR (s, sol, ds) = (s', sol', ds')"
  shows "FIXED \<notin> set (basisStatusCols s') \<and> FIXED \<notin> set (basisStatusRows s')
    \<and> rationalLP s' = rationalLP s
    \<and> length (sol_primal sol') = numColsRational s
    \<and> (\<forall>c < numColsRational s.
          basisStatusCols s' ! c = (if basisStatusCols s ! c = FIXED then ON_LOWER else basisStatusCols s ! c)
          \<and> sol_primal sol' ! c =
              (case basisStatusCols s ! c of
                 ON_LOWER \<Rightarrow> lowerRational s c
               | ON_UPPER \<Rightarrow> upperRational s c
               | FIXED \<Rightarrow> lowerRational s c
               | ZERO \<Rightarrow> 0
               | BASIC \<Rightarrow> aR (pR ! c)
               | UNDEFINED \<Rightarrow> aR (pR ! c))
          \<and> (basisStatusCols s' ! c = ON_LOWER \<longrightarrow> sol_primal sol' ! c = lowerRational s' c)
          \<and> (basisStatusCols s' ! c = ON_UPPER \<longrightarrow> sol_primal sol' ! c = upperRational s' c)
          \<and> (basisStatusCols s' ! c = ZERO \<longrightarrow> sol_primal sol' ! c = 0)
          \<and> (basisStatusCols s' ! c = BASIC \<or> basisStatusCols s' ! c = UNDEFINED \<longrightarrow>
                sol_primal sol' ! c = aR (pR ! c)))
    \<and> (\<forall>r < numRowsRational s.
          basisStatusRows s' ! r = (if basisStatusRows s ! r = FIXED then ON_LOWER else basisStatusRows s ! r))"
proof -
  let ?n = "numColsRational s" and ?m = "numRowsRational s"
  let ?sol1 = "sol\<lparr>sol_primal := reDim ?n (sol_primal sol),
                     sol_slacks := reDim ?m (sol_slacks sol),
                     sol_dual := reDim ?m (sol_dual sol),
                     sol_redCost := reDim ?n (sol_redCost sol),
                     sol_isPrimalFeasible := True,
                     sol_isDualFeasible := True\<rparr>"
  from store_col_loop[of aR pR ?n s ?sol1] obtain X Y where
    c1: "for_down (store_col aR pR) ?n (s, ?sol1) = (s\<lparr>basisStatusCols := X\<rparr>, ?sol1\<lparr>sol_primal := Y\<rparr>)"
    and lX: "length X = length (basisStatusCols s)" and lY: "length Y = length (sol_primal ?sol1)"
    and pX: "\<forall>c. X ! c = (if c < ?n \<and> c < length (basisStatusCols s) \<and> basisStatusCols s ! c = FIXED then ON_LOWER else basisStatusCols s ! c)"
    and pY: "\<forall>c. Y ! c = (if c < ?n \<and> c < length (sol_primal ?sol1) then colval aR pR s c else sol_primal ?sol1 ! c)"
    by blast
  let ?s2 = "s\<lparr>basisStatusCols := X\<rparr>"
  let ?sol3 = "?sol1\<lparr>sol_primal := Y, sol_slacks := computePrimalActivity (rationalLP ?s2) Y\<rparr>"
  have m2: "numRowsRational ?s2 = ?m" by (simp add: numRowsRational_def)
  from store_row_loop[of aR dR ?m ?s2 ?sol3 ds] obtain V W d where
    r1: "for_down (store_row aR dR) ?m (?s2, ?sol3, ds) = (?s2\<lparr>basisStatusRows := V\<rparr>, ?sol3\<lparr>sol_dual := W\<rparr>, d)"
    and lV: "length V = length (basisStatusRows ?s2)"
    and pV: "\<forall>r. V ! r = (if r < ?m \<and> r < length (basisStatusRows ?s2) \<and> basisStatusRows ?s2 ! r = FIXED then ON_LOWER else basisStatusRows ?s2 ! r)"
    by blast
  have "storeRealSolutionAsRational aR pR dR (s, sol, ds) =
          (s\<lparr>basisStatusCols := X, basisStatusRows := V\<rparr>,
           ?sol3\<lparr>sol_dual := W,
                  sol_redCost := subDualActivity (rationalLP s) W (getObj (rationalLP s))\<rparr>, d)"
    using c1 r1 by (simp add: storeRealSolutionAsRational_def Let_def m2)
  with res have s': "s' = s\<lparr>basisStatusCols := X, basisStatusRows := V\<rparr>"
    and solp: "sol_primal sol' = Y"
    by auto
  have nX: "FIXED \<notin> set X" using pX lX lc by (rule no_FIXED)
  have nV: "FIXED \<notin> set V" using pV lV lr by (intro no_FIXED[of V ?m "basisStatusRows s"]) simp_all
  have cols: "basisStatusCols s' ! c = (if basisStatusCols s ! c = FIXED then ON_LOWER else basisStatusCols s ! c)"
    and prim: "sol_primal sol' ! c = colval aR pR s c" if "c < ?n" for c
    using that pX[rule_format, of c] pY[rule_format, of c] lc by (simp_all add: s' solp)
  have rows: "basisStatusRows s' ! r = (if basisStatusRows s ! r = FIXED then ON_LOWER else basisStatusRows s ! r)"
    if "r < ?m" for r
    using that pV[rule_format, of r] lr by (simp add: s')
  have lo: "lowerRational s' c = lowerRational s c" and up: "upperRational s' c = upperRational s c" for c
    by (simp_all add: s' lowerRational_def upperRational_def)
  show ?thesis
  proof (intro conjI allI impI)
    show "FIXED \<notin> set (basisStatusCols s')" using nX by (simp add: s')
    show "FIXED \<notin> set (basisStatusRows s')" using nV by (simp add: s')
    show "rationalLP s' = rationalLP s" by (simp add: s')
    show "length (sol_primal sol') = ?n" using lY by (simp add: solp)
  next
    fix c assume c: "c < ?n"
    show "basisStatusCols s' ! c = (if basisStatusCols s ! c = FIXED then ON_LOWER else basisStatusCols s ! c)"
      using cols[OF c] .
    show "sol_primal sol' ! c =
              (case basisStatusCols s ! c of
                 ON_LOWER \<Rightarrow> lowerRational s c
               | ON_UPPER \<Rightarrow> upperRational s c
               | FIXED \<Rightarrow> lowerRational s c
               | ZERO \<Rightarrow> 0
               | BASIC \<Rightarrow> aR (pR ! c)
               | UNDEFINED \<Rightarrow> aR (pR ! c))"
      using prim[OF c] by (simp add: colval_def)
    { assume "basisStatusCols s' ! c = ON_LOWER"
      then show "sol_primal sol' ! c = lowerRational s' c"
        using cols[OF c] prim[OF c] by (simp add: colval_def lo split: VarStatus.splits if_splits) }
    { assume "basisStatusCols s' ! c = ON_UPPER"
      then show "sol_primal sol' ! c = upperRational s' c"
        using cols[OF c] prim[OF c] by (simp add: colval_def up split: VarStatus.splits if_splits) }
    { assume "basisStatusCols s' ! c = ZERO"
      then show "sol_primal sol' ! c = 0"
        using cols[OF c] prim[OF c] by (simp add: colval_def split: VarStatus.splits if_splits) }
    { assume "basisStatusCols s' ! c = BASIC \<or> basisStatusCols s' ! c = UNDEFINED"
      then show "sol_primal sol' ! c = aR (pR ! c)"
        using cols[OF c] prim[OF c] by (auto simp add: colval_def split: VarStatus.splits if_splits) }
  next
    fix r assume "r < ?m"
    then show "basisStatusRows s' ! r = (if basisStatusRows s ! r = FIXED then ON_LOWER else basisStatusRows s ! r)"
      by (rule rows)
  qed
qed

theorem store_aligns_with_basis_witness:
  "FIXED \<notin> set (basisStatusCols (fst (storeRealSolutionAsRational (\<lambda>x. of_int \<lfloor>x\<rfloor>) [0, 2] [0, 5]
                                         (lifted_example, lifted_solution, 0))))
   \<and> FIXED \<notin> set (basisStatusRows (fst (storeRealSolutionAsRational (\<lambda>x. of_int \<lfloor>x\<rfloor>) [0, 2] [0, 5]
                                         (lifted_example, lifted_solution, 0))))"
proof -
  obtain s' sol' ds' where
    r: "storeRealSolutionAsRational (\<lambda>x. of_int \<lfloor>x\<rfloor>) [0, 2] [0, 5] (lifted_example, lifted_solution, 0)
          = (s', sol', ds')"
    by (cases "storeRealSolutionAsRational (\<lambda>x. of_int \<lfloor>x\<rfloor>) [0, 2] [0, 5]
                 (lifted_example, lifted_solution, 0)") auto
  have lc: "length (basisStatusCols lifted_example) = numColsRational lifted_example"
    by (simp add: lifted_example_def lifted_lp_def numColsRational_def nCols_def)
  have lr: "length (basisStatusRows lifted_example) = numRowsRational lifted_example"
    by (simp add: lifted_example_def lifted_lp_def numRowsRational_def nRows_def)
  from store_aligns_with_basis[OF lc lr r]
  have "FIXED \<notin> set (basisStatusCols s') \<and> FIXED \<notin> set (basisStatusRows s')" by blast
  then show ?thesis by (simp add: r)
qed

section \<open>Undoing the lifting\<close>

lemma for_up_done: "n \<le> i \<Longrightarrow> for_up guard body i n st = st"
  by (subst for_up.simps) simp

lemma length_cut_last: "length (cut a (int (length xs) - 1) xs) \<le> nat a"
proof (cases "int (length xs) - 1 < a")
  case True
  then have "length xs \<le> nat a" by linarith
  with True show ?thesis by (simp add: cut_def)
next
  case False
  then show ?thesis by (simp add: cut_def)
qed

lemma length_cut_exact:
  assumes "0 \<le> a" and "nat a \<le> length xs"
  shows "length (cut a (int (length xs) - 1) xs) = nat a"
proof (cases "int (length xs) - 1 < a")
  case True
  then have "length xs = nat a" using assms by linarith
  with True show ?thesis by (simp add: cut_def)
next
  case False
  then show ?thesis using assms by (simp add: cut_def)
qed

lemma nCols_removeColRange_last: "nCols (removeColRange a (int (nCols l) - 1) l) \<le> nat a"
  by (simp add: nCols_def removeColRange_def length_cut_last)

lemma nCols_removeRowRange: "nCols (removeRowRange a b l) = nCols l"
  by (simp add: nCols_def removeRowRange_def)

lemma nRows_removeColRange: "nRows (removeColRange a b l) = nRows l"
  by (simp add: nRows_def removeColRange_def)

lemma project_shrink_numCols: "numColsRational (project_shrink s) \<le> nat (beforeLiftCols s)"
  by (simp add: project_shrink_def Let_def numColsRational_def nCols_removeRowRange
      nCols_removeColRange_last)

lemma project_shrink_before: "beforeLiftCols (project_shrink s) = beforeLiftCols s"
  by (simp add: project_shrink_def Let_def)

text \<open>
  The first part of C7 holds: \<^verbatim>\<open>_project\<close> shrinks the rational LP to the dimensions
  it had before the lifting.
\<close>

lemma project_shrink_dimensions:
  assumes "0 \<le> beforeLiftCols s" and "nat (beforeLiftCols s) \<le> numColsRational s"
    and "0 \<le> beforeLiftRows s" and "nat (beforeLiftRows s) \<le> numRowsRational s"
  shows "numColsRational (project_shrink s) = nat (beforeLiftCols s)
    \<and> numRowsRational (project_shrink s) = nat (beforeLiftRows s)"
  using assms
  by (simp add: project_shrink_def Let_def numColsRational_def numRowsRational_def
      nCols_removeRowRange nRows_removeColRange)
     (simp add: nCols_def nRows_def removeColRange_def removeRowRange_def length_cut_exact)

text \<open>
  The loop over the reduced costs of the lifting columns runs after the LP has been
  shrunk, from \<^verbatim>\<open>_beforeLiftCols\<close> up to the number of columns that are left: its
  body is never run.
\<close>

lemma project_check_redCost_skipped:
  "project_check_redCost maxValue tol (project_shrink s) sol = sol"
  unfolding project_check_redCost_def
  by (rule for_up_done) (simp add: project_shrink_before project_shrink_numCols)

lemma project_primal_dual_flag: "sol_isDualFeasible (project_primal s sol) = sol_isDualFeasible sol"
  by (simp add: project_primal_def Let_def)

lemma project_dual_dual_flag: "sol_isDualFeasible (project_dual s sol) = sol_isDualFeasible sol"
  by (simp add: project_dual_def Let_def)

lemma project_dual_flag:
  "sol_isDualFeasible (snd (project maxValue tol (s, sol))) = sol_isDualFeasible sol"
  by (simp add: project_def Let_def project_check_redCost_skipped project_primal_dual_flag
      project_dual_dual_flag)

text \<open>
  C7. The claim asks that \<^verbatim>\<open>_project\<close> declares the dual solution infeasible when the
  reduced cost of a lifting column has not vanished. On the lifted LP above, whose
  lifting column has the reduced cost 5, the scaled value 5120 is far beyond the
  tolerance \<open>10\<^sup>-\<^sup>9\<close>, and still \<^verbatim>\<open>_project\<close> returns with the dual solution marked
  feasible and with the reduced costs cut to the one original column.
\<close>

theorem project_accepts_lifting_redCost:
  "\<bar>1024 * sol_redCost lifted_solution ! 1\<bar> > 1 / 10 ^ 9
   \<and> sol_isDualFeasible (snd (project 1024 (1 / 10 ^ 9) (lifted_example, lifted_solution)))
   \<and> sol_redCost (snd (project 1024 (1 / 10 ^ 9) (lifted_example, lifted_solution))) = [1]"
proof (intro conjI)
  show "\<bar>1024 * sol_redCost lifted_solution ! 1\<bar> > 1 / 10 ^ 9"
    by (simp add: lifted_solution_def)
  show "sol_isDualFeasible (snd (project 1024 (1 / 10 ^ 9) (lifted_example, lifted_solution)))"
    by (simp add: project_dual_flag) (simp add: lifted_solution_def)
  have b: "beforeLiftCols (project_shrink lifted_example) = 1"
    by (simp add: project_shrink_before) (simp add: lifted_example_def)
  show "sol_redCost (snd (project 1024 (1 / 10 ^ 9) (lifted_example, lifted_solution))) = [1]"
    by (simp add: project_def Let_def project_check_redCost_skipped)
       (simp add: project_dual_def project_primal_def lifted_solution_def b reDim_def)
qed

section \<open>The stable solve restores the settings\<close>

lemma realParams_setters [simp]:
  "realParams (setIntParam ops p v st) = realParams st"
  "realParams (setFeastol d st) = realParams st"
  "realParams (setOpttol d st) = realParams st"
  "realParams (setDelta d st) = realParams st"
  "realParams (setMarkowitz m st) = realParams st"
  "realParams (toggleType ops st) = realParams st"
  "realParams (st\<lparr>solver := sv\<rparr>) = realParams st"
  by (simp_all add: realParams_def setIntParam_def setFeastol_def setOpttol_def setDelta_def
      setMarkowitz_def toggleType_def)

lemma keeps_and_then:
  assumes f: "keeps f" and g: "keeps g"
  shows "keeps (and_then f g)"
  unfolding keeps_def
proof (intro allI)
  fix l st
  obtain out l1 st1 where p: "f (l, st) = (out, l1, st1)" by (cases "f (l, st)") auto
  have "realParams (snd (snd (f (l, st)))) = realParams st" using f unfolding keeps_def by blast
  then have e1: "realParams st1 = realParams st" by (simp add: p)
  have e2: "realParams (snd (snd (g (l1, st1)))) = realParams st1" using g unfolding keeps_def by blast
  show "realParams (snd (snd (and_then f g (l, st)))) = realParams st"
    using e1 e2 by (cases out) (simp_all add: and_then_def p)
qed

lemma keeps_rungs:
  "keeps (rung_solve ops au ai)"
  "keeps (rung_turnoffPre pv ops)"
  "keeps (rung_markowitz ops sv)"
  "keeps rung_fromScratch"
  "keeps (rung_scaler pv ops sv)"
  "keeps (rung_simplifier pv ops fns sv)"
  "keeps (rung_relax pv ops)"
  "keeps (rung_tighten pv ops)"
  "keeps (rung_ratiotester pv ops sv)"
  "keeps (rung_pricer pv ops)"
  by (simp_all add: keeps_def rung_solve_def rung_turnoffPre_def rung_markowitz_def
      rung_fromScratch_def rung_scaler_def rung_simplifier_def rung_relax_def rung_tighten_def
      rung_ratiotester_def rung_pricer_def Let_def split_def)

lemma keeps_ladder_pass: "keeps (ladder_pass pv ops au ai fns sv)"
  unfolding ladder_pass_def by (intro keeps_and_then keeps_rungs)


lemma ladder_loop_keeps:
  assumes r: "ladder_loop pass lst = Some lst'" and k: "keeps pass"
  shows "realParams (snd lst') = realParams (snd lst)"
proof -
  have "keeps pass \<longrightarrow> realParams (snd lst') = realParams (snd lst)"
  proof (rule ladder_loop.raw_induct[where P = "\<lambda>pass lst lst'. keeps pass \<longrightarrow> realParams (snd lst') = realParams (snd lst)"])
    show "ladder_loop pass lst = Some lst'" by (rule r)
  next
    fix loop :: "(ladder \<times> 'a fp \<Rightarrow> outcome \<times> ladder \<times> 'a fp) \<Rightarrow> ladder \<times> 'a fp \<Rightarrow> (ladder \<times> 'a fp) option"
      and pass lst lst'
    assume ih: "\<And>pass lst lst'. loop pass lst = Some lst' \<Longrightarrow> keeps pass \<longrightarrow> realParams (snd lst') = realParams (snd lst)"
      and eq: "(case pass lst of (Continue, lst1) \<Rightarrow> loop pass lst1 | (_, lst1) \<Rightarrow> Some lst1) = Some lst'"
    show "keeps pass \<longrightarrow> realParams (snd lst') = realParams (snd lst)"
    proof
      assume kp: "keeps pass"
      obtain out l1 st1 where p: "pass lst = (out, l1, st1)" by (cases "pass lst") auto
      have "realParams (snd (snd (pass (fst lst, snd lst)))) = realParams (snd lst)"
        using kp unfolding keeps_def by blast
      then have e: "realParams st1 = realParams (snd lst)" by (simp add: p)
      show "realParams (snd lst') = realParams (snd lst)"
      proof (cases out)
        case Continue
        with eq p have "loop pass (l1, st1) = Some lst'" by simp
        from ih[OF this] kp e show ?thesis by simp
      next
        case Break
        with eq p e show ?thesis by auto
      next
        case Next
        with eq p e show ?thesis by auto
      qed
    qed
  qed
  with k show ?thesis by simp
qed


lemma exit_intParam:
  "intParam (settings (solveRealStable_exit ops (solveRealStable_entry st) st1)) = intParam (settings st)"
proof
  fix p
  show "intParam (settings (solveRealStable_exit ops (solveRealStable_entry st) st1)) p = intParam (settings st) p"
    by (cases p) (simp_all add: solveRealStable_exit_def solveRealStable_entry_def Let_def
        setIntParam_def setFeastol_def setOpttol_def setMarkowitz_def)
qed

lemma exit_solver:
  "markowitz (solver (solveRealStable_exit ops sv st1)) = saved_markowitz sv"
  "feastol (solver (solveRealStable_exit ops sv st1)) = FPFEASTOL (settings st1)"
  "opttol (solver (solveRealStable_exit ops sv st1)) = FPOPTTOL (settings st1)"
  "realParams (solveRealStable_exit ops sv st1) = realParams st1"
  by (simp_all add: solveRealStable_exit_def Let_def realParams_def
      setIntParam_def setFeastol_def setOpttol_def setMarkowitz_def)

text \<open>
  C8. When \<^verbatim>\<open>_solveRealStable\<close> returns, on whatever path through the ladder, the
  five integer parameters (ratio tester, pricer, simplifier, scaler, algorithm) and
  the Markowitz threshold have the values they had at entry. The two tolerances of
  the floating-point solver are set to the parameters \<^verbatim>\<open>FPFEASTOL\<close> and
  \<^verbatim>\<open>FPOPTTOL\<close>, which the ladder never changes: they are the values at entry, as
  \<^verbatim>\<open>_performOptIRStable\<close> sets the tolerances to these parameters before its first
  call and every call leaves them so.
\<close>

theorem solveRealStable_restores:
  assumes r: "solveRealStable pv ops acceptUnbounded acceptInfeasible forceNoSimplifier st = Some (res, st')"
  shows "intParam (settings st') = intParam (settings st)
    \<and> markowitz (solver st') = markowitz (solver st)
    \<and> FPFEASTOL (settings st') = FPFEASTOL (settings st)
    \<and> FPOPTTOL (settings st') = FPOPTTOL (settings st)
    \<and> feastol (solver st') = FPFEASTOL (settings st)
    \<and> opttol (solver st') = FPOPTTOL (settings st)
    \<and> (feastol (solver st) = FPFEASTOL (settings st) \<longrightarrow> feastol (solver st') = feastol (solver st))
    \<and> (opttol (solver st) = FPOPTTOL (settings st) \<longrightarrow> opttol (solver st') = opttol (solver st))"
proof -
  let ?sv = "solveRealStable_entry st"
  let ?st0 = "if forceNoSimplifier then setIntParam ops SIMPLIFIER (SIMPLIFIER_OFF pv) st else st"
  let ?pass = "ladder_pass pv ops acceptUnbounded acceptInfeasible forceNoSimplifier ?sv"
  from r obtain l st1 where
    loop: "ladder_loop ?pass (ladder_start, ?st0) = Some (l, st1)"
    and st': "st' = solveRealStable_exit ops ?sv st1"
    by (auto simp: solveRealStable_def Let_def split: option.splits)
  have "realParams st1 = realParams ?st0"
    using ladder_loop_keeps[OF loop keeps_ladder_pass] by simp
  then have rp: "realParams st1 = realParams st" by simp
  have rp': "realParams st' = realParams st" using rp by (simp add: st' exit_solver)
  have ip: "intParam (settings st') = intParam (settings st)" by (simp add: st' exit_intParam)
  have mk: "markowitz (solver st') = markowitz (solver st)"
    by (simp add: st' exit_solver solveRealStable_entry_def)
  have ft: "feastol (solver st') = FPFEASTOL (settings st)"
    and ot: "opttol (solver st') = FPOPTTOL (settings st)"
    using rp by (simp_all add: st' exit_solver realParams_def)
  from rp' have "FPFEASTOL (settings st') = FPFEASTOL (settings st)"
    and "FPOPTTOL (settings st') = FPOPTTOL (settings st)"
    by (simp_all add: realParams_def)
  with ip mk ft ot show ?thesis by simp
qed

lemma solveRealStable_solved_at_once:
  assumes "fst (solveRealForRational ops False (settings st0) (solver st0)) = OPTIMAL"
    and "st0 = (if forceNoSimplifier then setIntParam ops SIMPLIFIER (SIMPLIFIER_OFF pv) st else st)"
  shows "\<exists>st'. solveRealStable pv ops acceptUnbounded acceptInfeasible forceNoSimplifier st = Some (OPTIMAL, st')"
proof -
  let ?sv = "solveRealStable_entry st"
  let ?pass = "ladder_pass pv ops acceptUnbounded acceptInfeasible forceNoSimplifier ?sv"
  obtain sv1 where s: "solveRealForRational ops False (settings st0) (solver st0) = (OPTIMAL, sv1)"
    using assms(1) by (cases "solveRealForRational ops False (settings st0) (solver st0)") auto
  have "rung_solve ops acceptUnbounded acceptInfeasible (ladder_start, st0) =
          (Break, ladder_start\<lparr>result := OPTIMAL, solved := True\<rparr>, st0\<lparr>solver := sv1\<rparr>)"
    by (simp add: rung_solve_def s ladder_start_def Let_def)
  then have "?pass (ladder_start, st0) =
          (Break, ladder_start\<lparr>result := OPTIMAL, solved := True\<rparr>, st0\<lparr>solver := sv1\<rparr>)"
    by (simp add: ladder_pass_def and_then_def)
  then have "ladder_loop ?pass (ladder_start, st0) =
          Some (ladder_start\<lparr>result := OPTIMAL, solved := True\<rparr>, st0\<lparr>solver := sv1\<rparr>)"
    by (subst ladder_loop.simps) simp
  then show ?thesis
    unfolding solveRealStable_def Let_def assms(2)[symmetric] by simp
qed


lemma example_run:
  "\<exists>st'. solveRealStable example_values failing_engine False False False example_fp = Some (OPTIMAL, st')"
  unfolding solveRealStable_def Let_def
  apply (simp add: example_fp_def)
  apply (subst ladder_loop.simps)
  apply (simp add: ladder_pass_def and_then_def rung_solve_def rung_turnoffPre_def failing_engine_def
        example_values_def ladder_start_def setIntParam_def Let_def)
  apply (subst ladder_loop.simps)
  apply (simp add: ladder_pass_def and_then_def rung_solve_def rung_turnoffPre_def rung_markowitz_def
        setMarkowitz_def solveRealStable_entry_def setIntParam_def Let_def)
  apply (subst ladder_loop.simps)
  apply (simp add: ladder_pass_def and_then_def rung_solve_def rung_turnoffPre_def rung_markowitz_def
        rung_fromScratch_def rung_scaler_def
        setMarkowitz_def solveRealStable_entry_def setIntParam_def Let_def)
  apply (subst ladder_loop.simps)
  apply (simp add: ladder_pass_def and_then_def rung_solve_def Let_def)
  done

theorem solveRealStable_restores_witness:
  "\<exists>st'. solveRealStable example_values failing_engine False False False example_fp = Some (OPTIMAL, st')
     \<and> intParam (settings st') = intParam (settings example_fp)
     \<and> markowitz (solver st') = 0.01
     \<and> feastol (solver st') = 1 / 10 ^ 9"
proof -
  from example_run obtain st' where
    r: "solveRealStable example_values failing_engine False False False example_fp = Some (OPTIMAL, st')"
    by blast
  from solveRealStable_restores[OF r]
  have "intParam (settings st') = intParam (settings example_fp)"
    and "markowitz (solver st') = markowitz (solver example_fp)"
    and "feastol (solver st') = FPFEASTOL (settings example_fp)"
    by simp_all
  then have "intParam (settings st') = intParam (settings example_fp)
     \<and> markowitz (solver st') = 0.01 \<and> feastol (solver st') = 1 / 10 ^ 9"
    by (simp add: example_fp_def)
  with r show ?thesis by blast
qed

section \<open>The unboundedness transformation and its inverse\<close>

text \<open>
  A loop that runs down over the indices establishes at index 0 what it maintains from
  one index to the next; the loops of the two functions are then written in closed
  form, block by block.
\<close>

lemma for_down_rule:
  assumes "I n s" and "\<And>i st. i < n \<Longrightarrow> I (Suc i) st \<Longrightarrow> I i (body i st)"
  shows "I 0 (for_down body n s)"
  using assms
proof (induction n arbitrary: s)
  case 0
  then show ?case by simp
next
  case (Suc n)
  have "I n (body n s)" using Suc.prems by simp
  then show ?case using Suc.prems(2) by (simp add: Suc.IH)
qed

lemma length_upd_range [simp]: "length (upd_range j m g xs) = length xs"
  by (simp add: upd_range_def)

lemma nth_upd_range:
  "r < length xs \<Longrightarrow> upd_range j m g xs ! r = (if j \<le> r \<and> r < m then g r else xs ! r)"
  by (simp add: upd_range_def)

lemma upd_range_empty [simp]: "upd_range m m g xs = xs"
  by (intro nth_equalityI) (auto simp: nth_upd_range)

lemma upd_range_same: "(\<And>r. r < length xs \<Longrightarrow> j \<le> r \<Longrightarrow> r < m \<Longrightarrow> g r = xs ! r) \<Longrightarrow> upd_range j m g xs = xs"
  by (intro nth_equalityI) (simp_all add: nth_upd_range)

lemma upd_range_step2:
  assumes "i < m"
    and "i < length xs \<Longrightarrow> g i = (if P then a else if Q then b else xs ! i)"
  shows "(if P then (upd_range (Suc i) m g xs)[i := a]
          else if Q then (upd_range (Suc i) m g xs)[i := b]
          else upd_range (Suc i) m g xs) = upd_range i m g xs"
proof (rule nth_equalityI)
  show "length (if P then (upd_range (Suc i) m g xs)[i := a]
          else if Q then (upd_range (Suc i) m g xs)[i := b]
          else upd_range (Suc i) m g xs) = length (upd_range i m g xs)"
    by simp
next
  fix r
  assume "r < length (if P then (upd_range (Suc i) m g xs)[i := a]
          else if Q then (upd_range (Suc i) m g xs)[i := b]
          else upd_range (Suc i) m g xs)"
  then have r: "r < length xs" by (simp split: if_splits)
  show "(if P then (upd_range (Suc i) m g xs)[i := a]
          else if Q then (upd_range (Suc i) m g xs)[i := b]
          else upd_range (Suc i) m g xs) ! r = upd_range i m g xs ! r"
  proof (cases "r = i")
    case True
    with r assms show ?thesis by (simp add: nth_upd_range)
  next
    case False
    with r show ?thesis by (auto simp: nth_upd_range nth_list_update)
  qed
qed

lemma upd_range_step1:
  assumes "i < m"
    and "i < length xs \<Longrightarrow> g i = (if P then a else xs ! i)"
  shows "(if P then (upd_range (Suc i) m g xs)[i := a] else upd_range (Suc i) m g xs)
           = upd_range i m g xs"
proof -
  have "(if P then (upd_range (Suc i) m g xs)[i := a]
          else if False then (upd_range (Suc i) m g xs)[i := a]
          else upd_range (Suc i) m g xs) = upd_range i m g xs"
    using assms by (intro upd_range_step2) simp_all
  then show ?thesis by (cases P) simp_all
qed

lemma with_sides_id:
  "with_sides s (lp_lhs (rationalLP s)) (lp_rhs (rationalLP s)) (lp_lhs (realLP s)) (lp_rhs (realLP s)) = s"
  by (simp add: with_sides_def)

lemma zero_side_with_sides:
  "zero_side k r (with_sides s A B C D) =
     with_sides s
       (if lowerFinite (rowTypes s ! r) then A[r := 0] else A)
       (if upperFinite (rowTypes s ! r) then B[r := 0] else B)
       (if lowerFinite (rowTypes s ! r) then C[r := 0] else if C ! r > - INFTY k then C[r := - INFTY k] else C)
       (if upperFinite (rowTypes s ! r) then D[r := 0] else if D ! r < INFTY k then D[r := INFTY k] else D)"
  by (simp add: zero_side_def with_sides_def Let_def changeLhs_def changeRhs_def)

lemma with_sides_cong:
  "A = A' \<Longrightarrow> B = B' \<Longrightarrow> C = C' \<Longrightarrow> D = D' \<Longrightarrow> with_sides s A B C D = with_sides s A' B' C' D'"
  by simp

lemma zero_sides_result:
  "zero_sides k s =
     with_sides s
       (upd_range 0 (numRowsRational s) (\<lambda>r. zeroed (lowerFinite (rowTypes s ! r)) (lp_lhs (rationalLP s) ! r)) (lp_lhs (rationalLP s)))
       (upd_range 0 (numRowsRational s) (\<lambda>r. zeroed (upperFinite (rowTypes s ! r)) (lp_rhs (rationalLP s) ! r)) (lp_rhs (rationalLP s)))
       (upd_range 0 (numRowsRational s) (\<lambda>r. zeroedR (INFTY k) True (lowerFinite (rowTypes s ! r)) (lp_lhs (realLP s) ! r)) (lp_lhs (realLP s)))
       (upd_range 0 (numRowsRational s) (\<lambda>r. zeroedR (INFTY k) False (upperFinite (rowTypes s ! r)) (lp_rhs (realLP s) ! r)) (lp_rhs (realLP s)))"
proof -
  let ?m = "numRowsRational s"
  let ?F = "\<lambda>j. with_sides s
       (upd_range j ?m (\<lambda>r. zeroed (lowerFinite (rowTypes s ! r)) (lp_lhs (rationalLP s) ! r)) (lp_lhs (rationalLP s)))
       (upd_range j ?m (\<lambda>r. zeroed (upperFinite (rowTypes s ! r)) (lp_rhs (rationalLP s) ! r)) (lp_rhs (rationalLP s)))
       (upd_range j ?m (\<lambda>r. zeroedR (INFTY k) True (lowerFinite (rowTypes s ! r)) (lp_lhs (realLP s) ! r)) (lp_lhs (realLP s)))
       (upd_range j ?m (\<lambda>r. zeroedR (INFTY k) False (upperFinite (rowTypes s ! r)) (lp_rhs (realLP s) ! r)) (lp_rhs (realLP s)))"
  have "for_down (zero_side k) ?m (?F ?m) = ?F 0"
  proof (rule for_down_rule[where I = "\<lambda>j st. st = ?F j"])
    show "?F ?m = ?F ?m" by simp
  next
    fix i st assume i: "i < ?m" and st: "st = ?F (Suc i)"
    have "zero_side k i (?F (Suc i)) = ?F i"
      unfolding zero_side_with_sides
      by (intro with_sides_cong upd_range_step1[OF i] upd_range_step2[OF i])
         (simp_all add: nth_upd_range zeroed_def zeroedR_def)
    then show "zero_side k i st = ?F i" by (simp only: st)
  qed
  then show ?thesis by (simp add: zero_sides_def with_sides_id)
qed

lemma store_bound_eq:
  "store_bound c (s\<lparr>unboundedLower := L, unboundedUpper := U\<rparr>) =
     s\<lparr>unboundedLower := (if lowerFinite (colTypes s ! c) then L[c := lowerRational s c] else L),
       unboundedUpper := (if upperFinite (colTypes s ! c) then U[c := upperRational s c] else U)\<rparr>"
  by (simp add: store_bound_def Let_def lowerRational_def upperRational_def)

lemma store_bounds_result:
  "store_bounds s =
     s\<lparr>unboundedLower := upd_range 0 (numColsRational s)
            (\<lambda>c. if lowerFinite (colTypes s ! c) then lowerRational s c
                 else reDim (numColsRational s) (unboundedLower s) ! c)
            (reDim (numColsRational s) (unboundedLower s)),
       unboundedUpper := upd_range 0 (numColsRational s)
            (\<lambda>c. if upperFinite (colTypes s ! c) then upperRational s c
                 else reDim (numColsRational s) (unboundedUpper s) ! c)
            (reDim (numColsRational s) (unboundedUpper s))\<rparr>"
proof -
  let ?n = "numColsRational s"
  let ?F = "\<lambda>j. s\<lparr>unboundedLower := upd_range j ?n
            (\<lambda>c. if lowerFinite (colTypes s ! c) then lowerRational s c
                 else reDim ?n (unboundedLower s) ! c)
            (reDim ?n (unboundedLower s)),
       unboundedUpper := upd_range j ?n
            (\<lambda>c. if upperFinite (colTypes s ! c) then upperRational s c
                 else reDim ?n (unboundedUpper s) ! c)
            (reDim ?n (unboundedUpper s))\<rparr>"
  have "for_down store_bound ?n (?F ?n) = ?F 0"
  proof (rule for_down_rule[where I = "\<lambda>j st. st = ?F j"])
    show "?F ?n = ?F ?n" by simp
  next
    fix i st assume i: "i < ?n" and st: "st = ?F (Suc i)"
    have "store_bound i (?F (Suc i)) = ?F i"
      unfolding store_bound_eq
      by (simp add: upd_range_step1[OF i])
    then show "store_bound i st = ?F i" by (simp only: st)
  qed
  then show ?thesis by (simp add: store_bounds_def)
qed

lemma upd_range_step0:
  assumes "i < m" and "i < length xs \<Longrightarrow> g i = a"
  shows "(upd_range (Suc i) m g xs)[i := a] = upd_range i m g xs"
proof -
  have "(if True then (upd_range (Suc i) m g xs)[i := a] else upd_range (Suc i) m g xs)
          = upd_range i m g xs"
    using assms by (intro upd_range_step1) simp_all
  then show ?thesis by simp
qed

lemma store_side_eq:
  "store_side r (s\<lparr>unboundedLhs := L, unboundedRhs := U\<rparr>) =
     s\<lparr>unboundedLhs := (if lowerFinite (rowTypes s ! r) then L[r := lhsRational s r] else L),
       unboundedRhs := (if upperFinite (rowTypes s ! r) then U[r := rhsRational s r] else U)\<rparr>"
  by (simp add: store_side_def Let_def lhsRational_def rhsRational_def)

lemma store_sides_result:
  "store_sides s =
     s\<lparr>unboundedLhs := upd_range 0 (numRowsRational s)
            (\<lambda>r. if lowerFinite (rowTypes s ! r) then lhsRational s r
                 else reDim (numRowsRational s) (unboundedLhs s) ! r)
            (reDim (numRowsRational s) (unboundedLhs s)),
       unboundedRhs := upd_range 0 (numRowsRational s)
            (\<lambda>r. if upperFinite (rowTypes s ! r) then rhsRational s r
                 else reDim (numRowsRational s) (unboundedRhs s) ! r)
            (reDim (numRowsRational s) (unboundedRhs s))\<rparr>"
proof -
  let ?n = "numRowsRational s"
  let ?F = "\<lambda>j. s\<lparr>unboundedLhs := upd_range j ?n
            (\<lambda>r. if lowerFinite (rowTypes s ! r) then lhsRational s r
                 else reDim ?n (unboundedLhs s) ! r)
            (reDim ?n (unboundedLhs s)),
       unboundedRhs := upd_range j ?n
            (\<lambda>r. if upperFinite (rowTypes s ! r) then rhsRational s r
                 else reDim ?n (unboundedRhs s) ! r)
            (reDim ?n (unboundedRhs s))\<rparr>"
  have "for_down store_side ?n (?F ?n) = ?F 0"
  proof (rule for_down_rule[where I = "\<lambda>j st. st = ?F j"])
    show "?F ?n = ?F ?n" by simp
  next
    fix i st assume i: "i < ?n" and st: "st = ?F (Suc i)"
    have "store_side i (?F (Suc i)) = ?F i"
      unfolding store_side_eq
      by (simp add: upd_range_step1[OF i])
    then show "store_side i st = ?F i" by (simp only: st)
  qed
  then show ?thesis by (simp add: store_sides_def)
qed

lemma with_cols_id:
  "with_cols s (lp_maxObj (rationalLP s)) (lp_lower (rationalLP s)) (lp_upper (rationalLP s))
     (lp_maxObj (realLP s)) (lp_lower (realLP s)) (lp_upper (realLP s)) = s"
  by (simp add: with_cols_def)

lemma with_cols_cong:
  "OQ = OQ' \<Longrightarrow> LQ = LQ' \<Longrightarrow> UQ = UQ' \<Longrightarrow> OR = OR' \<Longrightarrow> LR = LR' \<Longrightarrow> UR = UR' \<Longrightarrow>
   with_cols s OQ LQ UQ OR LR UR = with_cols s OQ' LQ' UQ' OR' LR' UR'"
  by simp

lemma zero_column_with_cols:
  "zero_column k c (with_cols s OQ LQ UQ OR LR UR) =
     with_cols s (OQ[c := 0])
       (if lowerFinite (colTypes s ! c) then LQ[c := 0] else LQ)
       (if upperFinite (colTypes s ! c) then UQ[c := 0] else UQ)
       (OR[c := 0])
       (if lowerFinite (colTypes s ! c) then LR[c := 0] else if LR ! c > - INFTY k then LR[c := - INFTY k] else LR)
       (if upperFinite (colTypes s ! c) then UR[c := 0] else if UR ! c < INFTY k then UR[c := INFTY k] else UR)"
  by (simp add: zero_column_def with_cols_def Let_def changeObj_def changeMaxObj_def
      changeLower_def changeUpper_def)

lemma zero_columns_result:
  "zero_columns k s =
     with_cols s
       (upd_range 0 (numColsRational s - 1) (\<lambda>c. 0) (lp_maxObj (rationalLP s)))
       (upd_range 0 (numColsRational s - 1) (\<lambda>c. zeroed (lowerFinite (colTypes s ! c)) (lp_lower (rationalLP s) ! c)) (lp_lower (rationalLP s)))
       (upd_range 0 (numColsRational s - 1) (\<lambda>c. zeroed (upperFinite (colTypes s ! c)) (lp_upper (rationalLP s) ! c)) (lp_upper (rationalLP s)))
       (upd_range 0 (numColsRational s - 1) (\<lambda>c. 0) (lp_maxObj (realLP s)))
       (upd_range 0 (numColsRational s - 1) (\<lambda>c. zeroedR (INFTY k) True (lowerFinite (colTypes s ! c)) (lp_lower (realLP s) ! c)) (lp_lower (realLP s)))
       (upd_range 0 (numColsRational s - 1) (\<lambda>c. zeroedR (INFTY k) False (upperFinite (colTypes s ! c)) (lp_upper (realLP s) ! c)) (lp_upper (realLP s)))"
proof -
  let ?n = "numColsRational s - 1"
  let ?F = "\<lambda>j. with_cols s
       (upd_range j ?n (\<lambda>c. 0) (lp_maxObj (rationalLP s)))
       (upd_range j ?n (\<lambda>c. zeroed (lowerFinite (colTypes s ! c)) (lp_lower (rationalLP s) ! c)) (lp_lower (rationalLP s)))
       (upd_range j ?n (\<lambda>c. zeroed (upperFinite (colTypes s ! c)) (lp_upper (rationalLP s) ! c)) (lp_upper (rationalLP s)))
       (upd_range j ?n (\<lambda>c. 0) (lp_maxObj (realLP s)))
       (upd_range j ?n (\<lambda>c. zeroedR (INFTY k) True (lowerFinite (colTypes s ! c)) (lp_lower (realLP s) ! c)) (lp_lower (realLP s)))
       (upd_range j ?n (\<lambda>c. zeroedR (INFTY k) False (upperFinite (colTypes s ! c)) (lp_upper (realLP s) ! c)) (lp_upper (realLP s)))"
  have "for_down (zero_column k) ?n (?F ?n) = ?F 0"
  proof (rule for_down_rule[where I = "\<lambda>j st. st = ?F j"])
    show "?F ?n = ?F ?n" by simp
  next
    fix i st assume i: "i < ?n" and st: "st = ?F (Suc i)"
    have "zero_column k i (?F (Suc i)) = ?F i"
      unfolding zero_column_with_cols
      by (intro with_cols_cong upd_range_step0[OF i] upd_range_step1[OF i] upd_range_step2[OF i])
         (simp_all add: nth_upd_range zeroed_def zeroedR_def)
    then show "zero_column k i st = ?F i" by (simp only: st)
  qed
  then show ?thesis by (simp add: zero_columns_def with_cols_id)
qed

lemma restore_side_with_sides:
  "restore_side k r (with_sides s A B C D) =
     with_sides s
       (if lowerFinite (rowTypes s ! r) then A[r := unboundedLhs s ! r] else A)
       (if upperFinite (rowTypes s ! r) then B[r := unboundedRhs s ! r] else B)
       (if lowerFinite (rowTypes s ! r) then C[r := toR k (unboundedLhs s ! r)] else C)
       (if upperFinite (rowTypes s ! r) then D[r := toR k (unboundedRhs s ! r)] else D)"
  by (simp add: restore_side_def with_sides_def Let_def changeLhs_def changeRhs_def)

lemma restore_sides_result:
  "restore_sides k s =
     with_sides s
       (upd_range 0 (numRowsRational s) (\<lambda>r. if lowerFinite (rowTypes s ! r) then unboundedLhs s ! r else lp_lhs (rationalLP s) ! r) (lp_lhs (rationalLP s)))
       (upd_range 0 (numRowsRational s) (\<lambda>r. if upperFinite (rowTypes s ! r) then unboundedRhs s ! r else lp_rhs (rationalLP s) ! r) (lp_rhs (rationalLP s)))
       (upd_range 0 (numRowsRational s) (\<lambda>r. if lowerFinite (rowTypes s ! r) then toR k (unboundedLhs s ! r) else lp_lhs (realLP s) ! r) (lp_lhs (realLP s)))
       (upd_range 0 (numRowsRational s) (\<lambda>r. if upperFinite (rowTypes s ! r) then toR k (unboundedRhs s ! r) else lp_rhs (realLP s) ! r) (lp_rhs (realLP s)))"
proof -
  let ?m = "numRowsRational s"
  let ?F = "\<lambda>j. with_sides s
       (upd_range j ?m (\<lambda>r. if lowerFinite (rowTypes s ! r) then unboundedLhs s ! r else lp_lhs (rationalLP s) ! r) (lp_lhs (rationalLP s)))
       (upd_range j ?m (\<lambda>r. if upperFinite (rowTypes s ! r) then unboundedRhs s ! r else lp_rhs (rationalLP s) ! r) (lp_rhs (rationalLP s)))
       (upd_range j ?m (\<lambda>r. if lowerFinite (rowTypes s ! r) then toR k (unboundedLhs s ! r) else lp_lhs (realLP s) ! r) (lp_lhs (realLP s)))
       (upd_range j ?m (\<lambda>r. if upperFinite (rowTypes s ! r) then toR k (unboundedRhs s ! r) else lp_rhs (realLP s) ! r) (lp_rhs (realLP s)))"
  have "for_down (restore_side k) ?m (?F ?m) = ?F 0"
  proof (rule for_down_rule[where I = "\<lambda>j st. st = ?F j"])
    show "?F ?m = ?F ?m" by simp
  next
    fix i st assume i: "i < ?m" and st: "st = ?F (Suc i)"
    have "restore_side k i (?F (Suc i)) = ?F i"
      unfolding restore_side_with_sides
      by (intro with_sides_cong upd_range_step1[OF i]) simp_all
    then show "restore_side k i st = ?F i" by (simp only: st)
  qed
  then show ?thesis by (simp add: restore_sides_def with_sides_id)
qed

lemma with_bounds_id:
  "with_bounds s (lp_lower (rationalLP s)) (lp_upper (rationalLP s)) (lp_lower (realLP s)) (lp_upper (realLP s)) = s"
  by (simp add: with_bounds_def)

lemma with_bounds_cong:
  "A = A' \<Longrightarrow> B = B' \<Longrightarrow> C = C' \<Longrightarrow> D = D' \<Longrightarrow> with_bounds s A B C D = with_bounds s A' B' C' D'"
  by simp

lemma restore_bound_with_bounds:
  "restore_bound k c (with_bounds s A B C D) =
     with_bounds s
       (if lowerFinite (colTypes s ! c) then A[c := unboundedLower s ! c] else A)
       (if upperFinite (colTypes s ! c) then B[c := unboundedUpper s ! c] else B)
       (if lowerFinite (colTypes s ! c) then C[c := toR k (unboundedLower s ! c)] else C)
       (if upperFinite (colTypes s ! c) then D[c := toR k (unboundedUpper s ! c)] else D)"
  by (simp add: restore_bound_def with_bounds_def Let_def changeLower_def changeUpper_def)

lemma restore_bounds_result:
  "restore_bounds k s =
     with_bounds s
       (upd_range 0 (numColsRational s) (\<lambda>c. if lowerFinite (colTypes s ! c) then unboundedLower s ! c else lp_lower (rationalLP s) ! c) (lp_lower (rationalLP s)))
       (upd_range 0 (numColsRational s) (\<lambda>c. if upperFinite (colTypes s ! c) then unboundedUpper s ! c else lp_upper (rationalLP s) ! c) (lp_upper (rationalLP s)))
       (upd_range 0 (numColsRational s) (\<lambda>c. if lowerFinite (colTypes s ! c) then toR k (unboundedLower s ! c) else lp_lower (realLP s) ! c) (lp_lower (realLP s)))
       (upd_range 0 (numColsRational s) (\<lambda>c. if upperFinite (colTypes s ! c) then toR k (unboundedUpper s ! c) else lp_upper (realLP s) ! c) (lp_upper (realLP s)))"
proof -
  let ?m = "numColsRational s"
  let ?F = "\<lambda>j. with_bounds s
       (upd_range j ?m (\<lambda>c. if lowerFinite (colTypes s ! c) then unboundedLower s ! c else lp_lower (rationalLP s) ! c) (lp_lower (rationalLP s)))
       (upd_range j ?m (\<lambda>c. if upperFinite (colTypes s ! c) then unboundedUpper s ! c else lp_upper (rationalLP s) ! c) (lp_upper (rationalLP s)))
       (upd_range j ?m (\<lambda>c. if lowerFinite (colTypes s ! c) then toR k (unboundedLower s ! c) else lp_lower (realLP s) ! c) (lp_lower (realLP s)))
       (upd_range j ?m (\<lambda>c. if upperFinite (colTypes s ! c) then toR k (unboundedUpper s ! c) else lp_upper (realLP s) ! c) (lp_upper (realLP s)))"
  have "for_down (restore_bound k) ?m (?F ?m) = ?F 0"
  proof (rule for_down_rule[where I = "\<lambda>j st. st = ?F j"])
    show "?F ?m = ?F ?m" by simp
  next
    fix i st assume i: "i < ?m" and st: "st = ?F (Suc i)"
    have "restore_bound k i (?F (Suc i)) = ?F i"
      unfolding restore_bound_with_bounds
      by (intro with_bounds_cong upd_range_step1[OF i]) simp_all
    then show "restore_bound k i st = ?F i" by (simp only: st)
  qed
  then show ?thesis by (simp add: restore_bounds_def with_bounds_id)
qed

lemma with_obj_id: "with_obj s (lp_maxObj (rationalLP s)) (lp_maxObj (realLP s)) = s"
  by (simp add: with_obj_def)

lemma recover_obj_with_obj:
  "recover_obj k m i (with_obj s A B) =
     with_obj s (A[fst (lp_rowVector (rationalLP s) ! m ! i) := snd (lp_rowVector (rationalLP s) ! m ! i)])
       (B[fst (lp_rowVector (rationalLP s) ! m ! i) := toR k (snd (lp_rowVector (rationalLP s) ! m ! i))])"
  by (simp add: recover_obj_def with_obj_def Let_def changeMaxObj_def)

lemma recover_objective_result:
  "recover_objective k s =
     with_obj s
       (foldr (\<lambda>e M. M[fst e := snd e]) (lp_rowVector (rationalLP s) ! (numRowsRational s - 1))
          (lp_maxObj (rationalLP s)))
       (foldr (\<lambda>e M. M[fst e := toR k (snd e)]) (lp_rowVector (rationalLP s) ! (numRowsRational s - 1))
          (lp_maxObj (realLP s)))"
proof -
  let ?row = "lp_rowVector (rationalLP s) ! (numRowsRational s - 1)"
  let ?F = "\<lambda>j. with_obj s
       (foldr (\<lambda>e M. M[fst e := snd e]) (drop j ?row) (lp_maxObj (rationalLP s)))
       (foldr (\<lambda>e M. M[fst e := toR k (snd e)]) (drop j ?row) (lp_maxObj (realLP s)))"
  have "for_down (recover_obj k (numRowsRational s - 1)) (length ?row) (?F (length ?row)) = ?F 0"
  proof (rule for_down_rule[where I = "\<lambda>j st. st = ?F j"])
    show "?F (length ?row) = ?F (length ?row)" by simp
  next
    fix i st assume i: "i < length ?row" and st: "st = ?F (Suc i)"
    have d: "drop i ?row = ?row ! i # drop (Suc i) ?row"
      using i by (simp add: Cons_nth_drop_Suc)
    have "recover_obj k (numRowsRational s - 1) i (?F (Suc i)) = ?F i"
      unfolding recover_obj_with_obj d by simp
    then show "recover_obj k (numRowsRational s - 1) i st = ?F i" by (simp only: st)
  qed
  then show ?thesis by (simp add: recover_objective_def Let_def with_obj_id)
qed

lemma length_foldr_update [simp]:
  "length (foldr (\<lambda>e M. M[fst e := g (snd e)]) row M) = length M"
  by (induction row) simp_all

lemma nth_foldr_update:
  "j < length M \<Longrightarrow>
   foldr (\<lambda>e M. M[fst e := g (snd e)]) row M ! j =
     (case map_of row j of None \<Rightarrow> M ! j | Some v \<Rightarrow> g v)"
  by (induction row) (auto simp: nth_list_update)

lemma distinct_nonzeros: "distinct (map fst (nonzeros v))"
proof -
  have "distinct (map fst (zip [0 ..< length v] v))" by simp
  then show ?thesis unfolding nonzeros_def by (rule distinct_map_filter)
qed

lemma in_nonzeros: "(j, y) \<in> set (nonzeros v) \<longleftrightarrow> j < length v \<and> y = v ! j \<and> y \<noteq> 0"
proof
  assume "(j, y) \<in> set (nonzeros v)"
  then show "j < length v \<and> y = v ! j \<and> y \<noteq> 0"
    by (auto simp: nonzeros_def in_set_zip)
next
  assume a: "j < length v \<and> y = v ! j \<and> y \<noteq> 0"
  then have "[0 ..< length v] ! j = j \<and> v ! j = y \<and> j < length [0 ..< length v] \<and> j < length v"
    by simp
  then have "(j, y) \<in> set (zip [0 ..< length v] v)"
    unfolding in_set_zip by (intro exI[of _ j]) simp
  with a show "(j, y) \<in> set (nonzeros v)" by (simp add: nonzeros_def)
qed

lemma map_of_nonzeros:
  "map_of (nonzeros v) j = (if j < length v \<and> v ! j \<noteq> 0 then Some (v ! j) else None)"
proof (cases "j < length v \<and> v ! j \<noteq> 0")
  case True
  then have "(j, v ! j) \<in> set (nonzeros v)" by (simp add: in_nonzeros)
  then have "map_of (nonzeros v) j = Some (v ! j)"
    using distinct_nonzeros by simp
  with True show ?thesis by simp
next
  case False
  have "map_of (nonzeros v) j = None"
  proof (rule ccontr)
    assume "map_of (nonzeros v) j \<noteq> None"
    then obtain y where "map_of (nonzeros v) j = Some y" by auto
    then have "(j, y) \<in> set (nonzeros v)" by (rule map_of_SomeD)
    with False show False by (auto simp: in_nonzeros)
  qed
  with False show ?thesis by simp
qed

lemma map_of_objective_row:
  "j < length v \<Longrightarrow>
   map_of (nonzeros v @ [(length v, a)]) j = (if v ! j \<noteq> 0 then Some (v ! j) else None)"
  by (simp add: map_add_def map_of_nonzeros split: option.splits)

lemma cut_last: "length xs = Suc n \<Longrightarrow> cut (int n) (int n) xs = take n xs"
  by (simp add: cut_def)

lemma cut_row_below:
  assumes "\<forall>e \<in> set row. fst e < n"
  shows "cut_row (int n) (int n) row = row"
proof -
  have f: "filter (\<lambda>(j, x). int j < int n \<or> int n < int j) row = row"
    using assms by (intro filter_True) auto
  have "map (\<lambda>(j, x). (if int j > int n then nat (int j - (int n - int n + 1)) else j, x)) row = row"
    using assms by (intro map_idI) auto
  with f show ?thesis by (simp add: cut_row_def)
qed

text \<open>What each block does to the LPs, the range types and the stored bounds and sides.\<close>

lemma store_bounds_fields:
  "rationalLP (store_bounds s) = rationalLP s"
  "realLP (store_bounds s) = realLP s"
  "colTypes (store_bounds s) = colTypes s"
  "rowTypes (store_bounds s) = rowTypes s"
  "unboundedLhs (store_bounds s) = unboundedLhs s"
  "unboundedRhs (store_bounds s) = unboundedRhs s"
  "unboundedLower (store_bounds s) =
     upd_range 0 (numColsRational s)
       (\<lambda>c. if lowerFinite (colTypes s ! c) then lowerRational s c
            else reDim (numColsRational s) (unboundedLower s) ! c)
       (reDim (numColsRational s) (unboundedLower s))"
  "unboundedUpper (store_bounds s) =
     upd_range 0 (numColsRational s)
       (\<lambda>c. if upperFinite (colTypes s ! c) then upperRational s c
            else reDim (numColsRational s) (unboundedUpper s) ! c)
       (reDim (numColsRational s) (unboundedUpper s))"
  by (simp_all add: store_bounds_result)

lemma store_sides_fields:
  "rationalLP (store_sides s) = rationalLP s"
  "realLP (store_sides s) = realLP s"
  "colTypes (store_sides s) = colTypes s"
  "rowTypes (store_sides s) = rowTypes s"
  "unboundedLower (store_sides s) = unboundedLower s"
  "unboundedUpper (store_sides s) = unboundedUpper s"
  "unboundedLhs (store_sides s) =
     upd_range 0 (numRowsRational s)
       (\<lambda>r. if lowerFinite (rowTypes s ! r) then lhsRational s r
            else reDim (numRowsRational s) (unboundedLhs s) ! r)
       (reDim (numRowsRational s) (unboundedLhs s))"
  "unboundedRhs (store_sides s) =
     upd_range 0 (numRowsRational s)
       (\<lambda>r. if upperFinite (rowTypes s ! r) then rhsRational s r
            else reDim (numRowsRational s) (unboundedRhs s) ! r)
       (reDim (numRowsRational s) (unboundedRhs s))"
  by (simp_all add: store_sides_result)

lemma zero_sides_fields:
  "rationalLP (zero_sides k s) =
     (rationalLP s)\<lparr>lp_lhs := upd_range 0 (numRowsRational s) (\<lambda>r. zeroed (lowerFinite (rowTypes s ! r)) (lp_lhs (rationalLP s) ! r)) (lp_lhs (rationalLP s)),
                    lp_rhs := upd_range 0 (numRowsRational s) (\<lambda>r. zeroed (upperFinite (rowTypes s ! r)) (lp_rhs (rationalLP s) ! r)) (lp_rhs (rationalLP s))\<rparr>"
  "realLP (zero_sides k s) =
     (realLP s)\<lparr>lp_lhs := upd_range 0 (numRowsRational s) (\<lambda>r. zeroedR (INFTY k) True (lowerFinite (rowTypes s ! r)) (lp_lhs (realLP s) ! r)) (lp_lhs (realLP s)),
               lp_rhs := upd_range 0 (numRowsRational s) (\<lambda>r. zeroedR (INFTY k) False (upperFinite (rowTypes s ! r)) (lp_rhs (realLP s) ! r)) (lp_rhs (realLP s))\<rparr>"
  "colTypes (zero_sides k s) = colTypes s"
  "rowTypes (zero_sides k s) = rowTypes s"
  "unboundedLower (zero_sides k s) = unboundedLower s"
  "unboundedUpper (zero_sides k s) = unboundedUpper s"
  "unboundedLhs (zero_sides k s) = unboundedLhs s"
  "unboundedRhs (zero_sides k s) = unboundedRhs s"
  by (simp_all add: zero_sides_result with_sides_def)

lemma zero_columns_fields:
  "rationalLP (zero_columns k s) =
     (rationalLP s)\<lparr>lp_maxObj := upd_range 0 (numColsRational s - 1) (\<lambda>c. 0) (lp_maxObj (rationalLP s)),
        lp_lower := upd_range 0 (numColsRational s - 1) (\<lambda>c. zeroed (lowerFinite (colTypes s ! c)) (lp_lower (rationalLP s) ! c)) (lp_lower (rationalLP s)),
        lp_upper := upd_range 0 (numColsRational s - 1) (\<lambda>c. zeroed (upperFinite (colTypes s ! c)) (lp_upper (rationalLP s) ! c)) (lp_upper (rationalLP s))\<rparr>"
  "realLP (zero_columns k s) =
     (realLP s)\<lparr>lp_maxObj := upd_range 0 (numColsRational s - 1) (\<lambda>c. 0) (lp_maxObj (realLP s)),
        lp_lower := upd_range 0 (numColsRational s - 1) (\<lambda>c. zeroedR (INFTY k) True (lowerFinite (colTypes s ! c)) (lp_lower (realLP s) ! c)) (lp_lower (realLP s)),
        lp_upper := upd_range 0 (numColsRational s - 1) (\<lambda>c. zeroedR (INFTY k) False (upperFinite (colTypes s ! c)) (lp_upper (realLP s) ! c)) (lp_upper (realLP s))\<rparr>"
  "colTypes (zero_columns k s) = colTypes s"
  "rowTypes (zero_columns k s) = rowTypes s"
  "unboundedLower (zero_columns k s) = unboundedLower s"
  "unboundedUpper (zero_columns k s) = unboundedUpper s"
  "unboundedLhs (zero_columns k s) = unboundedLhs s"
  "unboundedRhs (zero_columns k s) = unboundedRhs s"
  by (simp_all add: zero_columns_result with_cols_def)

lemma adjust_basis_fields:
  "rationalLP (adjust_basis s) = rationalLP s"
  "realLP (adjust_basis s) = realLP s"
  "colTypes (adjust_basis s) = colTypes s"
  "rowTypes (adjust_basis s) = rowTypes s"
  "unboundedLower (adjust_basis s) = unboundedLower s"
  "unboundedUpper (adjust_basis s) = unboundedUpper s"
  "unboundedLhs (adjust_basis s) = unboundedLhs s"
  "unboundedRhs (adjust_basis s) = unboundedRhs s"
  by (simp_all add: adjust_basis_def)

lemma recover_objective_fields:
  "rationalLP (recover_objective k s) =
     (rationalLP s)\<lparr>lp_maxObj := foldr (\<lambda>e M. M[fst e := snd e]) (lp_rowVector (rationalLP s) ! (numRowsRational s - 1))
          (lp_maxObj (rationalLP s))\<rparr>"
  "realLP (recover_objective k s) =
     (realLP s)\<lparr>lp_maxObj := foldr (\<lambda>e M. M[fst e := toR k (snd e)]) (lp_rowVector (rationalLP s) ! (numRowsRational s - 1))
          (lp_maxObj (realLP s))\<rparr>"
  "colTypes (recover_objective k s) = colTypes s"
  "rowTypes (recover_objective k s) = rowTypes s"
  "unboundedLower (recover_objective k s) = unboundedLower s"
  "unboundedUpper (recover_objective k s) = unboundedUpper s"
  "unboundedLhs (recover_objective k s) = unboundedLhs s"
  "unboundedRhs (recover_objective k s) = unboundedRhs s"
  by (simp_all add: recover_objective_result with_obj_def)

lemma remove_objective_row_fields:
  "rationalLP (remove_objective_row s) =
     removeCol (numColsRational s - 1) (removeRow (numRowsRational s - 1) (rationalLP s))"
  "realLP (remove_objective_row s) =
     removeCol (numColsRational s - 1) (removeRow (numRowsRational s - 1) (realLP s))"
  "colTypes (remove_objective_row s) = reSize (numColsRational s - 1) (colTypes s)"
  "rowTypes (remove_objective_row s) = reSize (numRowsRational s - 1) (rowTypes s)"
  "unboundedLower (remove_objective_row s) = unboundedLower s"
  "unboundedUpper (remove_objective_row s) = unboundedUpper s"
  "unboundedLhs (remove_objective_row s) = unboundedLhs s"
  "unboundedRhs (remove_objective_row s) = unboundedRhs s"
  by (simp_all add: remove_objective_row_def Let_def)

lemma restore_sides_fields:
  "rationalLP (restore_sides k s) =
     (rationalLP s)\<lparr>lp_lhs := upd_range 0 (numRowsRational s) (\<lambda>r. if lowerFinite (rowTypes s ! r) then unboundedLhs s ! r else lp_lhs (rationalLP s) ! r) (lp_lhs (rationalLP s)),
        lp_rhs := upd_range 0 (numRowsRational s) (\<lambda>r. if upperFinite (rowTypes s ! r) then unboundedRhs s ! r else lp_rhs (rationalLP s) ! r) (lp_rhs (rationalLP s))\<rparr>"
  "realLP (restore_sides k s) =
     (realLP s)\<lparr>lp_lhs := upd_range 0 (numRowsRational s) (\<lambda>r. if lowerFinite (rowTypes s ! r) then toR k (unboundedLhs s ! r) else lp_lhs (realLP s) ! r) (lp_lhs (realLP s)),
        lp_rhs := upd_range 0 (numRowsRational s) (\<lambda>r. if upperFinite (rowTypes s ! r) then toR k (unboundedRhs s ! r) else lp_rhs (realLP s) ! r) (lp_rhs (realLP s))\<rparr>"
  "colTypes (restore_sides k s) = colTypes s"
  "rowTypes (restore_sides k s) = rowTypes s"
  "unboundedLower (restore_sides k s) = unboundedLower s"
  "unboundedUpper (restore_sides k s) = unboundedUpper s"
  "unboundedLhs (restore_sides k s) = unboundedLhs s"
  "unboundedRhs (restore_sides k s) = unboundedRhs s"
  by (simp_all add: restore_sides_result with_sides_def)

lemma restore_bounds_fields:
  "rationalLP (restore_bounds k s) =
     (rationalLP s)\<lparr>lp_lower := upd_range 0 (numColsRational s) (\<lambda>c. if lowerFinite (colTypes s ! c) then unboundedLower s ! c else lp_lower (rationalLP s) ! c) (lp_lower (rationalLP s)),
        lp_upper := upd_range 0 (numColsRational s) (\<lambda>c. if upperFinite (colTypes s ! c) then unboundedUpper s ! c else lp_upper (rationalLP s) ! c) (lp_upper (rationalLP s))\<rparr>"
  "realLP (restore_bounds k s) =
     (realLP s)\<lparr>lp_lower := upd_range 0 (numColsRational s) (\<lambda>c. if lowerFinite (colTypes s ! c) then toR k (unboundedLower s ! c) else lp_lower (realLP s) ! c) (lp_lower (realLP s)),
        lp_upper := upd_range 0 (numColsRational s) (\<lambda>c. if upperFinite (colTypes s ! c) then toR k (unboundedUpper s ! c) else lp_upper (realLP s) ! c) (lp_upper (realLP s))\<rparr>"
  "colTypes (restore_bounds k s) = colTypes s"
  "rowTypes (restore_bounds k s) = rowTypes s"
  "unboundedLower (restore_bounds k s) = unboundedLower s"
  "unboundedUpper (restore_bounds k s) = unboundedUpper s"
  "unboundedLhs (restore_bounds k s) = unboundedLhs s"
  "unboundedRhs (restore_bounds k s) = unboundedRhs s"
  by (simp_all add: restore_bounds_result with_bounds_def)

lemma fold_max_below:
  "\<forall>e \<in> set row. fst e < n \<Longrightarrow> fold (\<lambda>e m. max m (Suc (fst e))) row n = n"
proof (induction row)
  case Nil
  then show ?case by simp
next
  case (Cons e row)
  then have "fst e < n" by simp
  then have "max n (Suc (fst e)) = n" by simp
  with Cons show ?case by simp
qed

lemma new_cols_objective_row:
  assumes "\<forall>e \<in> set row. fst e < n"
  shows "fold (\<lambda>e m. max m (Suc (fst e))) (row @ [(n, x)]) n - n = 1"
  using assms by (simp add: fold_max_below)

lemma nonzeros_below: "\<forall>e \<in> set (nonzeros v). fst e < length v"
  by (auto simp: in_nonzeros)

lemma convert_row_below:
  "\<forall>e \<in> set row. fst e < n \<Longrightarrow> \<forall>e \<in> set (convert_row R row). fst e < n"
  by (auto simp: convert_row_def)

lemma convert_row_append: "convert_row R (row @ [(j, x)]) = convert_row R row @ [(j, R x)]"
  by (simp add: convert_row_def)

lemma add_objective_row_fields:
  assumes "length (lp_maxObj (rationalLP s)) = numColsRational s"
    and "nCols (realLP s) = numColsRational s"
  shows "rationalLP (add_objective_row k s) =
     (rationalLP s)\<lparr>lp_lhs := lp_lhs (rationalLP s) @ [0],
        lp_rhs := lp_rhs (rationalLP s) @ [0],
        lp_rowVector := lp_rowVector (rationalLP s) @ [nonzeros (lp_maxObj (rationalLP s)) @ [(numColsRational s, - 1)]],
        lp_lower := (lp_lower (rationalLP s) @ [fst (newColRational k)])[numColsRational s := rationalNegInfty k],
        lp_upper := (lp_upper (rationalLP s) @ [fst (snd (newColRational k))])[numColsRational s := 1],
        lp_maxObj := (lp_maxObj (rationalLP s) @ [snd (snd (newColRational k))])[numColsRational s := 1]\<rparr>"
    and "realLP (add_objective_row k s) =
     (realLP s)\<lparr>lp_lhs := lp_lhs (realLP s) @ [0],
        lp_rhs := lp_rhs (realLP s) @ [0],
        lp_rowVector := lp_rowVector (realLP s) @ [convert_row (toR k) (nonzeros (lp_maxObj (rationalLP s))) @ [(numColsRational s, toR k (- 1))]],
        lp_lower := (lp_lower (realLP s) @ [fst (newColReal k)])[numColsRational s := - INFTY k],
        lp_upper := (lp_upper (realLP s) @ [fst (snd (newColReal k))])[numColsRational s := 1],
        lp_maxObj := (lp_maxObj (realLP s) @ [snd (snd (newColReal k))])[numColsRational s := 1]\<rparr>"
    and "colTypes (add_objective_row k s) = colTypes s @ [RANGETYPE_UPPER]"
    and "rowTypes (add_objective_row k s) = rowTypes s @ [RANGETYPE_FIXED]"
    and "unboundedLower (add_objective_row k s) = unboundedLower s"
    and "unboundedUpper (add_objective_row k s) = unboundedUpper s"
    and "unboundedLhs (add_objective_row k s) = unboundedLhs s"
    and "unboundedRhs (add_objective_row k s) = unboundedRhs s"
proof -
  let ?n = "numColsRational s"
  let ?O = "lp_maxObj (rationalLP s)"
  have b: "\<forall>e \<in> set (nonzeros ?O). fst e < ?n"
    using nonzeros_below[of ?O] assms(1) by simp
  have k1: "fold (\<lambda>e m. max m (Suc (fst e))) (nonzeros ?O @ [(?n, - 1)]) (nCols (rationalLP s)) - nCols (rationalLP s) = 1"
    using new_cols_objective_row[OF b] by (simp add: numColsRational_def)
  have k2: "fold (\<lambda>e m. max m (Suc (fst e))) (convert_row (toR k) (nonzeros ?O) @ [(?n, toR k (- 1))]) (nCols (realLP s)) - nCols (realLP s) = 1"
    using new_cols_objective_row[OF convert_row_below[OF b]] assms(2) by simp
  show "rationalLP (add_objective_row k s) =
     (rationalLP s)\<lparr>lp_lhs := lp_lhs (rationalLP s) @ [0],
        lp_rhs := lp_rhs (rationalLP s) @ [0],
        lp_rowVector := lp_rowVector (rationalLP s) @ [nonzeros (lp_maxObj (rationalLP s)) @ [(numColsRational s, - 1)]],
        lp_lower := (lp_lower (rationalLP s) @ [fst (newColRational k)])[numColsRational s := rationalNegInfty k],
        lp_upper := (lp_upper (rationalLP s) @ [fst (snd (newColRational k))])[numColsRational s := 1],
        lp_maxObj := (lp_maxObj (rationalLP s) @ [snd (snd (newColRational k))])[numColsRational s := 1]\<rparr>"
    using k1
    by (simp add: add_objective_row_def Let_def addRow_def changeMaxObj_def changeBounds_def
        changeLower_def changeUpper_def)
  show "realLP (add_objective_row k s) =
     (realLP s)\<lparr>lp_lhs := lp_lhs (realLP s) @ [0],
        lp_rhs := lp_rhs (realLP s) @ [0],
        lp_rowVector := lp_rowVector (realLP s) @ [convert_row (toR k) (nonzeros (lp_maxObj (rationalLP s))) @ [(numColsRational s, toR k (- 1))]],
        lp_lower := (lp_lower (realLP s) @ [fst (newColReal k)])[numColsRational s := - INFTY k],
        lp_upper := (lp_upper (realLP s) @ [fst (snd (newColReal k))])[numColsRational s := 1],
        lp_maxObj := (lp_maxObj (realLP s) @ [snd (snd (newColReal k))])[numColsRational s := 1]\<rparr>"
    using k2
    by (simp add: add_objective_row_def Let_def addRow_def changeMaxObj_def changeBounds_def
        changeLower_def changeUpper_def convert_row_append)
  show "colTypes (add_objective_row k s) = colTypes s @ [RANGETYPE_UPPER]"
    "rowTypes (add_objective_row k s) = rowTypes s @ [RANGETYPE_FIXED]"
    "unboundedLower (add_objective_row k s) = unboundedLower s"
    "unboundedUpper (add_objective_row k s) = unboundedUpper s"
    "unboundedLhs (add_objective_row k s) = unboundedLhs s"
    "unboundedRhs (add_objective_row k s) = unboundedRhs s"
    by (simp_all add: add_objective_row_def Let_def)
qed

lemma upd_range_all: "length xs = n \<Longrightarrow> upd_range 0 n g xs = map g [0 ..< n]"
  by (intro nth_equalityI) (simp_all add: nth_upd_range)

lemma upd_range_init:
  "length xs = n \<Longrightarrow> upd_range 0 n g (xs @ [a]) = map g [0 ..< n] @ [a]"
  by (intro nth_equalityI) (auto simp: nth_upd_range nth_append less_Suc_eq)

lemma upd_last: "length xs = n \<Longrightarrow> (xs @ [a])[n := b] = xs @ [b]"
  by (auto simp: list_update_append)

lemma upd_range_init_cong:
  assumes "length xs = n" and "\<And>c. c < n \<Longrightarrow> g c = h c"
  shows "upd_range 0 n g (xs @ [a]) = map h [0 ..< n] @ [a]"
  using assms by (intro nth_equalityI) (auto simp: nth_upd_range nth_append less_Suc_eq)

text \<open>
  The state that \<^verbatim>\<open>_transformUnbounded\<close> leaves: one more row, which holds the
  objective function and the auxiliary column, one more column, zero objective, and
  finite bounds and sides at zero; the stored vectors hold the finite bounds and sides.
\<close>

lemma transformUnbounded_fields:
  assumes wf: "wf_soplex s"
  defines "n \<equiv> numColsRational s" and "m \<equiv> numRowsRational s"
  shows "rationalLP (transformUnbounded k s) =
     (rationalLP s)\<lparr>
        lp_lhs := map (\<lambda>r. zeroed (lowerFinite (rowTypes s ! r)) (lp_lhs (rationalLP s) ! r)) [0 ..< m] @ [0],
        lp_rhs := map (\<lambda>r. zeroed (upperFinite (rowTypes s ! r)) (lp_rhs (rationalLP s) ! r)) [0 ..< m] @ [0],
        lp_rowVector := lp_rowVector (rationalLP s) @ [nonzeros (lp_maxObj (rationalLP s)) @ [(n, - 1)]],
        lp_lower := map (\<lambda>c. zeroed (lowerFinite (colTypes s ! c)) (lp_lower (rationalLP s) ! c)) [0 ..< n] @ [rationalNegInfty k],
        lp_upper := map (\<lambda>c. zeroed (upperFinite (colTypes s ! c)) (lp_upper (rationalLP s) ! c)) [0 ..< n] @ [1],
        lp_maxObj := map (\<lambda>c. 0) [0 ..< n] @ [1]\<rparr>"
    (is ?Q)
    and "realLP (transformUnbounded k s) =
     (realLP s)\<lparr>
        lp_lhs := map (\<lambda>r. zeroedR (INFTY k) True (lowerFinite (rowTypes s ! r)) (lp_lhs (realLP s) ! r)) [0 ..< m] @ [0],
        lp_rhs := map (\<lambda>r. zeroedR (INFTY k) False (upperFinite (rowTypes s ! r)) (lp_rhs (realLP s) ! r)) [0 ..< m] @ [0],
        lp_rowVector := lp_rowVector (realLP s) @ [convert_row (toR k) (nonzeros (lp_maxObj (rationalLP s))) @ [(n, toR k (- 1))]],
        lp_lower := map (\<lambda>c. zeroedR (INFTY k) True (lowerFinite (colTypes s ! c)) (lp_lower (realLP s) ! c)) [0 ..< n] @ [- INFTY k],
        lp_upper := map (\<lambda>c. zeroedR (INFTY k) False (upperFinite (colTypes s ! c)) (lp_upper (realLP s) ! c)) [0 ..< n] @ [1],
        lp_maxObj := map (\<lambda>c. 0) [0 ..< n] @ [1]\<rparr>"
    (is ?R)
    and "colTypes (transformUnbounded k s) = colTypes s @ [RANGETYPE_UPPER]" (is ?CT)
    and "rowTypes (transformUnbounded k s) = rowTypes s @ [RANGETYPE_FIXED]" (is ?RT)
    and "unboundedLower (transformUnbounded k s) =
           map (\<lambda>c. if lowerFinite (colTypes s ! c) then lp_lower (rationalLP s) ! c
                     else reDim n (unboundedLower s) ! c) [0 ..< n]" (is ?UL)
    and "unboundedUpper (transformUnbounded k s) =
           map (\<lambda>c. if upperFinite (colTypes s ! c) then lp_upper (rationalLP s) ! c
                     else reDim n (unboundedUpper s) ! c) [0 ..< n]" (is ?UU)
    and "unboundedLhs (transformUnbounded k s) =
           map (\<lambda>r. if lowerFinite (rowTypes s ! r) then lp_lhs (rationalLP s) ! r
                     else reDim m (unboundedLhs s) ! r) [0 ..< m]" (is ?ULh)
    and "unboundedRhs (transformUnbounded k s) =
           map (\<lambda>r. if upperFinite (rowTypes s ! r) then lp_rhs (rationalLP s) ! r
                     else reDim m (unboundedRhs s) ! r) [0 ..< m]" (is ?URh)
proof -
  let ?LQ = "rationalLP s" and ?LR = "realLP s"
  have lq: "length (lp_lower ?LQ) = n" "length (lp_upper ?LQ) = n" "length (lp_maxObj ?LQ) = n"
    "length (lp_lhs ?LQ) = m" "length (lp_rhs ?LQ) = m" "length (lp_rowVector ?LQ) = m"
    and lr: "length (lp_lower ?LR) = n" "length (lp_upper ?LR) = n" "length (lp_maxObj ?LR) = n"
    "length (lp_lhs ?LR) = m" "length (lp_rhs ?LR) = m" "length (lp_rowVector ?LR) = m"
    and lt: "length (colTypes s) = n" "length (rowTypes s) = m"
    using wf by (simp_all add: wf_soplex_def wf_lp_def n_def m_def)
  define s1 where "s1 = store_bounds s"
  define s2 where "s2 = store_sides s1"
  define s3 where "s3 = zero_sides k s2"
  define s4 where "s4 = add_objective_row k s3"
  define s5 where "s5 = zero_columns k s4"
  have T: "transformUnbounded k s = adjust_basis s5"
    by (simp add: transformUnbounded_def s5_def s4_def s3_def s2_def s1_def)
  have n1: "numColsRational s1 = n" "numRowsRational s1 = m"
    by (simp_all add: s1_def numColsRational_def numRowsRational_def store_bounds_fields n_def m_def)
  have f1: "rationalLP s1 = ?LQ" "realLP s1 = ?LR" "colTypes s1 = colTypes s" "rowTypes s1 = rowTypes s"
    "unboundedLhs s1 = unboundedLhs s" "unboundedRhs s1 = unboundedRhs s"
    by (simp_all add: s1_def store_bounds_fields)
  have u1: "unboundedLower s1 = map (\<lambda>c. if lowerFinite (colTypes s ! c) then lp_lower ?LQ ! c
                     else reDim n (unboundedLower s) ! c) [0 ..< n]"
    "unboundedUpper s1 = map (\<lambda>c. if upperFinite (colTypes s ! c) then lp_upper ?LQ ! c
                     else reDim n (unboundedUpper s) ! c) [0 ..< n]"
    by (simp_all add: s1_def store_bounds_fields upd_range_all lowerRational_def upperRational_def
        n_def [symmetric])
  have f2: "rationalLP s2 = ?LQ" "realLP s2 = ?LR" "colTypes s2 = colTypes s" "rowTypes s2 = rowTypes s"
    "unboundedLower s2 = unboundedLower s1" "unboundedUpper s2 = unboundedUpper s1"
    by (simp_all add: s2_def store_sides_fields f1)
  have u2: "unboundedLhs s2 = map (\<lambda>r. if lowerFinite (rowTypes s ! r) then lp_lhs ?LQ ! r
                     else reDim m (unboundedLhs s) ! r) [0 ..< m]"
    "unboundedRhs s2 = map (\<lambda>r. if upperFinite (rowTypes s ! r) then lp_rhs ?LQ ! r
                     else reDim m (unboundedRhs s) ! r) [0 ..< m]"
    by (simp_all add: s2_def store_sides_fields upd_range_all lhsRational_def rhsRational_def
        n1 f1)
  have n2: "numColsRational s2 = n" "numRowsRational s2 = m"
    by (simp_all add: numColsRational_def numRowsRational_def f2 n_def m_def)
  have f3: "rationalLP s3 = ?LQ\<lparr>
        lp_lhs := map (\<lambda>r. zeroed (lowerFinite (rowTypes s ! r)) (lp_lhs ?LQ ! r)) [0 ..< m],
        lp_rhs := map (\<lambda>r. zeroed (upperFinite (rowTypes s ! r)) (lp_rhs ?LQ ! r)) [0 ..< m]\<rparr>"
    "realLP s3 = ?LR\<lparr>
        lp_lhs := map (\<lambda>r. zeroedR (INFTY k) True (lowerFinite (rowTypes s ! r)) (lp_lhs ?LR ! r)) [0 ..< m],
        lp_rhs := map (\<lambda>r. zeroedR (INFTY k) False (upperFinite (rowTypes s ! r)) (lp_rhs ?LR ! r)) [0 ..< m]\<rparr>"
    "colTypes s3 = colTypes s" "rowTypes s3 = rowTypes s"
    "unboundedLower s3 = unboundedLower s1" "unboundedUpper s3 = unboundedUpper s1"
    "unboundedLhs s3 = unboundedLhs s2" "unboundedRhs s3 = unboundedRhs s2"
    by (simp_all add: s3_def zero_sides_fields f2 n2 upd_range_all lq lr)
  have n3: "numColsRational s3 = n" "nCols (realLP s3) = n" "length (lp_maxObj (rationalLP s3)) = n"
    by (simp_all add: numColsRational_def nCols_def f3 lq lr)
  have a4: "length (lp_maxObj (rationalLP s3)) = numColsRational s3"
    "nCols (realLP s3) = numColsRational s3"
    by (simp_all add: n3)
  note f4 = add_objective_row_fields[OF a4, of k, folded s4_def, unfolded n3 f3]
  have q4: "lp_lower (rationalLP s4) = lp_lower ?LQ @ [rationalNegInfty k]"
    "lp_upper (rationalLP s4) = lp_upper ?LQ @ [1]"
    "lp_maxObj (rationalLP s4) = lp_maxObj ?LQ @ [1]"
    "lp_lhs (rationalLP s4) = map (\<lambda>r. zeroed (lowerFinite (rowTypes s ! r)) (lp_lhs ?LQ ! r)) [0 ..< m] @ [0]"
    "lp_rhs (rationalLP s4) = map (\<lambda>r. zeroed (upperFinite (rowTypes s ! r)) (lp_rhs ?LQ ! r)) [0 ..< m] @ [0]"
    "lp_rowVector (rationalLP s4) = lp_rowVector ?LQ @ [nonzeros (lp_maxObj ?LQ) @ [(n, - 1)]]"
    "lp_sense (rationalLP s4) = lp_sense ?LQ"
    by (simp_all add: f4 upd_last lq)
  have r4: "lp_lower (realLP s4) = lp_lower ?LR @ [- INFTY k]"
    "lp_upper (realLP s4) = lp_upper ?LR @ [1]"
    "lp_maxObj (realLP s4) = lp_maxObj ?LR @ [1]"
    "lp_lhs (realLP s4) = map (\<lambda>r. zeroedR (INFTY k) True (lowerFinite (rowTypes s ! r)) (lp_lhs ?LR ! r)) [0 ..< m] @ [0]"
    "lp_rhs (realLP s4) = map (\<lambda>r. zeroedR (INFTY k) False (upperFinite (rowTypes s ! r)) (lp_rhs ?LR ! r)) [0 ..< m] @ [0]"
    "lp_rowVector (realLP s4) = lp_rowVector ?LR @ [convert_row (toR k) (nonzeros (lp_maxObj ?LQ)) @ [(n, toR k (- 1))]]"
    "lp_sense (realLP s4) = lp_sense ?LR"
    by (simp_all add: f4 upd_last lr)
  have t4: "colTypes s4 = colTypes s @ [RANGETYPE_UPPER]" "rowTypes s4 = rowTypes s @ [RANGETYPE_FIXED]"
    "unboundedLower s4 = unboundedLower s1" "unboundedUpper s4 = unboundedUpper s1"
    "unboundedLhs s4 = unboundedLhs s2" "unboundedRhs s4 = unboundedRhs s2"
    by (simp_all add: f4 f3)
  have n4: "numColsRational s4 - 1 = n"
    by (simp add: numColsRational_def nCols_def q4 lq)
  have ct4: "\<And>c. c < n \<Longrightarrow> colTypes s4 ! c = colTypes s ! c"
    by (simp add: t4 nth_append lt)
  have q5: "lp_maxObj (rationalLP s5) = map (\<lambda>c. 0) [0 ..< n] @ [1]"
    "lp_lower (rationalLP s5) = map (\<lambda>c. zeroed (lowerFinite (colTypes s ! c)) (lp_lower ?LQ ! c)) [0 ..< n] @ [rationalNegInfty k]"
    "lp_upper (rationalLP s5) = map (\<lambda>c. zeroed (upperFinite (colTypes s ! c)) (lp_upper ?LQ ! c)) [0 ..< n] @ [1]"
    unfolding s5_def zero_columns_fields n4 q4
    by (simp_all, (rule upd_range_init_cong, simp_all add: lq ct4 nth_append)+)
  have q5': "lp_lhs (rationalLP s5) = lp_lhs (rationalLP s4)" "lp_rhs (rationalLP s5) = lp_rhs (rationalLP s4)"
    "lp_rowVector (rationalLP s5) = lp_rowVector (rationalLP s4)" "lp_sense (rationalLP s5) = lp_sense (rationalLP s4)"
    unfolding s5_def zero_columns_fields by simp_all
  have r5: "lp_maxObj (realLP s5) = map (\<lambda>c. 0) [0 ..< n] @ [1]"
    "lp_lower (realLP s5) = map (\<lambda>c. zeroedR (INFTY k) True (lowerFinite (colTypes s ! c)) (lp_lower ?LR ! c)) [0 ..< n] @ [- INFTY k]"
    "lp_upper (realLP s5) = map (\<lambda>c. zeroedR (INFTY k) False (upperFinite (colTypes s ! c)) (lp_upper ?LR ! c)) [0 ..< n] @ [1]"
    unfolding s5_def zero_columns_fields n4 r4
    by (simp_all, (rule upd_range_init_cong, simp_all add: lr ct4 nth_append)+)
  have r5': "lp_lhs (realLP s5) = lp_lhs (realLP s4)" "lp_rhs (realLP s5) = lp_rhs (realLP s4)"
    "lp_rowVector (realLP s5) = lp_rowVector (realLP s4)" "lp_sense (realLP s5) = lp_sense (realLP s4)"
    unfolding s5_def zero_columns_fields by simp_all
  have f5q: "rationalLP s5 = ?LQ\<lparr>
        lp_lhs := map (\<lambda>r. zeroed (lowerFinite (rowTypes s ! r)) (lp_lhs ?LQ ! r)) [0 ..< m] @ [0],
        lp_rhs := map (\<lambda>r. zeroed (upperFinite (rowTypes s ! r)) (lp_rhs ?LQ ! r)) [0 ..< m] @ [0],
        lp_rowVector := lp_rowVector ?LQ @ [nonzeros (lp_maxObj ?LQ) @ [(n, - 1)]],
        lp_lower := map (\<lambda>c. zeroed (lowerFinite (colTypes s ! c)) (lp_lower ?LQ ! c)) [0 ..< n] @ [rationalNegInfty k],
        lp_upper := map (\<lambda>c. zeroed (upperFinite (colTypes s ! c)) (lp_upper ?LQ ! c)) [0 ..< n] @ [1],
        lp_maxObj := map (\<lambda>c. 0) [0 ..< n] @ [1]\<rparr>"
    by (rule lp.equality) (simp_all add: q5 q5' q4)
  have f5r: "realLP s5 = ?LR\<lparr>
        lp_lhs := map (\<lambda>r. zeroedR (INFTY k) True (lowerFinite (rowTypes s ! r)) (lp_lhs ?LR ! r)) [0 ..< m] @ [0],
        lp_rhs := map (\<lambda>r. zeroedR (INFTY k) False (upperFinite (rowTypes s ! r)) (lp_rhs ?LR ! r)) [0 ..< m] @ [0],
        lp_rowVector := lp_rowVector ?LR @ [convert_row (toR k) (nonzeros (lp_maxObj ?LQ)) @ [(n, toR k (- 1))]],
        lp_lower := map (\<lambda>c. zeroedR (INFTY k) True (lowerFinite (colTypes s ! c)) (lp_lower ?LR ! c)) [0 ..< n] @ [- INFTY k],
        lp_upper := map (\<lambda>c. zeroedR (INFTY k) False (upperFinite (colTypes s ! c)) (lp_upper ?LR ! c)) [0 ..< n] @ [1],
        lp_maxObj := map (\<lambda>c. 0) [0 ..< n] @ [1]\<rparr>"
    by (rule lp.equality) (simp_all add: r5 r5' r4)
  have f5: "colTypes s5 = colTypes s @ [RANGETYPE_UPPER]" "rowTypes s5 = rowTypes s @ [RANGETYPE_FIXED]"
    "unboundedLower s5 = unboundedLower s1" "unboundedUpper s5 = unboundedUpper s1"
    "unboundedLhs s5 = unboundedLhs s2" "unboundedRhs s5 = unboundedRhs s2"
    by (simp_all add: s5_def zero_columns_fields t4)
  show ?CT ?RT ?UL ?UU ?ULh ?URh
    by (simp_all add: T adjust_basis_fields f5 u1 u2)
  show ?Q by (simp add: T adjust_basis_fields f5q)
  show ?R by (simp add: T adjust_basis_fields f5r)
qed

lemma length_foldr_update_id [simp]:
  "length (foldr (\<lambda>e M. M[fst e := snd e]) row M) = length M"
  by (induction row) simp_all

lemma nth_foldr_update_id:
  "j < length M \<Longrightarrow>
   foldr (\<lambda>e M. M[fst e := snd e]) row M ! j =
     (case map_of row j of None \<Rightarrow> M ! j | Some v \<Rightarrow> v)"
  by (induction row) (auto simp: nth_list_update)

lemma recovered_objective:
  assumes "length v = n"
  shows "take n (foldr (\<lambda>e M. M[fst e := snd e]) (nonzeros v @ [(n, a)]) (map (\<lambda>c. 0) [0 ..< n] @ [b])) = v"
proof (rule nth_equalityI)
  show "length (take n (foldr (\<lambda>e M. M[fst e := snd e]) (nonzeros v @ [(n, a)]) (map (\<lambda>c. 0) [0 ..< n] @ [b]))) = length v"
    using assms by simp
next
  let ?M = "map (\<lambda>c. 0) [0 ..< n] @ [b]" and ?row = "nonzeros v @ [(n, a)]"
  fix j assume "j < length (take n (foldr (\<lambda>e M. M[fst e := snd e]) ?row ?M))"
  then have j: "j < n" by simp
  then have jl: "j < length ?M" by simp
  have m: "map_of ?row j = (if v ! j \<noteq> 0 then Some (v ! j) else None)"
    using map_of_objective_row[of j v a] j assms by simp
  have "take n (foldr (\<lambda>e M. M[fst e := snd e]) ?row ?M) ! j = foldr (\<lambda>e M. M[fst e := snd e]) ?row ?M ! j"
    using j by (simp only: nth_take)
  also have "\<dots> = (case map_of ?row j of None \<Rightarrow> ?M ! j | Some x \<Rightarrow> x)"
    using jl by (rule nth_foldr_update_id)
  also have "\<dots> = v ! j"
    unfolding m using j by (simp add: nth_append)
  finally show "take n (foldr (\<lambda>e M. M[fst e := snd e]) ?row ?M) ! j = v ! j" .
qed

lemma recovered_objective_real:
  assumes "length v = n"
  shows "take n (foldr (\<lambda>e M. M[fst e := R (snd e)]) (nonzeros v @ [(n, a)]) (map (\<lambda>c. 0) [0 ..< n] @ [b]))
           = map (\<lambda>c. if v ! c \<noteq> 0 then R (v ! c) else 0) [0 ..< n]"
proof (rule nth_equalityI)
  show "length (take n (foldr (\<lambda>e M. M[fst e := R (snd e)]) (nonzeros v @ [(n, a)]) (map (\<lambda>c. 0) [0 ..< n] @ [b])))
          = length (map (\<lambda>c. if v ! c \<noteq> 0 then R (v ! c) else 0) [0 ..< n])"
    by simp
next
  let ?M = "map (\<lambda>c. 0) [0 ..< n] @ [b]" and ?row = "nonzeros v @ [(n, a)]"
  fix j assume "j < length (take n (foldr (\<lambda>e M. M[fst e := R (snd e)]) ?row ?M))"
  then have j: "j < n" by simp
  then have jl: "j < length ?M" by simp
  have m: "map_of ?row j = (if v ! j \<noteq> 0 then Some (v ! j) else None)"
    using map_of_objective_row[of j v a] j assms by simp
  have "take n (foldr (\<lambda>e M. M[fst e := R (snd e)]) ?row ?M) ! j = foldr (\<lambda>e M. M[fst e := R (snd e)]) ?row ?M ! j"
    using j by (simp only: nth_take)
  also have "\<dots> = (case map_of ?row j of None \<Rightarrow> ?M ! j | Some x \<Rightarrow> R x)"
    using jl by (rule nth_foldr_update)
  also have "\<dots> = map (\<lambda>c. if v ! c \<noteq> 0 then R (v ! c) else 0) [0 ..< n] ! j"
    unfolding m using j by (simp add: nth_append)
  finally show "take n (foldr (\<lambda>e M. M[fst e := R (snd e)]) ?row ?M) ! j
          = map (\<lambda>c. if v ! c \<noteq> 0 then R (v ! c) else 0) [0 ..< n] ! j" .
qed

lemma map_cut_row_below:
  assumes "\<forall>row \<in> set rows. \<forall>e \<in> set row. fst e < n"
  shows "map (cut_row (int n) (int n)) rows = rows"
  using assms by (intro map_idI cut_row_below) auto

lemma upd_range_eqI:
  assumes "length xs = n" and "length ys = n" and "\<And>c. c < n \<Longrightarrow> g c = ys ! c"
  shows "upd_range 0 n g xs = ys"
  using assms by (intro nth_equalityI) (simp_all add: nth_upd_range)

lemma upd_range_all_cong:
  assumes "length xs = n" and "\<And>c. c < n \<Longrightarrow> g c = h c"
  shows "upd_range 0 n g xs = map h [0 ..< n]"
  using assms by (intro nth_equalityI) (simp_all add: nth_upd_range)

text \<open>The state after \<^verbatim>\<open>_untransformUnbounded\<close> has been applied to it.\<close>

lemma roundtrip_fields:
  assumes wf: "wf_soplex s"
  defines "n \<equiv> numColsRational s" and "m \<equiv> numRowsRational s"
  shows "rationalLP (untransformUnbounded k (transformUnbounded k s)) = rationalLP s" (is ?Q)
    and "realLP (untransformUnbounded k (transformUnbounded k s)) =
      (realLP s)\<lparr>
        lp_lhs := map (\<lambda>r. if lowerFinite (rowTypes s ! r) then toR k (lp_lhs (rationalLP s) ! r)
                       else zeroedR (INFTY k) True False (lp_lhs (realLP s) ! r)) [0 ..< m],
        lp_rhs := map (\<lambda>r. if upperFinite (rowTypes s ! r) then toR k (lp_rhs (rationalLP s) ! r)
                       else zeroedR (INFTY k) False False (lp_rhs (realLP s) ! r)) [0 ..< m],
        lp_lower := map (\<lambda>c. if lowerFinite (colTypes s ! c) then toR k (lp_lower (rationalLP s) ! c)
                       else zeroedR (INFTY k) True False (lp_lower (realLP s) ! c)) [0 ..< n],
        lp_upper := map (\<lambda>c. if upperFinite (colTypes s ! c) then toR k (lp_upper (rationalLP s) ! c)
                       else zeroedR (INFTY k) False False (lp_upper (realLP s) ! c)) [0 ..< n],
        lp_maxObj := map (\<lambda>c. if lp_maxObj (rationalLP s) ! c \<noteq> 0 then toR k (lp_maxObj (rationalLP s) ! c) else 0) [0 ..< n]\<rparr>"
      (is ?R)
    and "colTypes (untransformUnbounded k (transformUnbounded k s)) = colTypes s" (is ?CT)
    and "rowTypes (untransformUnbounded k (transformUnbounded k s)) = rowTypes s" (is ?RT)
    and "unboundedLower (untransformUnbounded k (transformUnbounded k s)) =
           map (\<lambda>c. if lowerFinite (colTypes s ! c) then lp_lower (rationalLP s) ! c
                     else reDim n (unboundedLower s) ! c) [0 ..< n]" (is ?UL)
    and "unboundedUpper (untransformUnbounded k (transformUnbounded k s)) =
           map (\<lambda>c. if upperFinite (colTypes s ! c) then lp_upper (rationalLP s) ! c
                     else reDim n (unboundedUpper s) ! c) [0 ..< n]" (is ?UU)
    and "unboundedLhs (untransformUnbounded k (transformUnbounded k s)) =
           map (\<lambda>r. if lowerFinite (rowTypes s ! r) then lp_lhs (rationalLP s) ! r
                     else reDim m (unboundedLhs s) ! r) [0 ..< m]" (is ?ULh)
    and "unboundedRhs (untransformUnbounded k (transformUnbounded k s)) =
           map (\<lambda>r. if upperFinite (rowTypes s ! r) then lp_rhs (rationalLP s) ! r
                     else reDim m (unboundedRhs s) ! r) [0 ..< m]" (is ?URh)
proof -
  let ?LQ = "rationalLP s" and ?LR = "realLP s"
  have lq: "length (lp_lower ?LQ) = n" "length (lp_upper ?LQ) = n" "length (lp_maxObj ?LQ) = n"
    "length (lp_lhs ?LQ) = m" "length (lp_rhs ?LQ) = m" "length (lp_rowVector ?LQ) = m"
    and lr: "length (lp_lower ?LR) = n" "length (lp_upper ?LR) = n" "length (lp_maxObj ?LR) = n"
    "length (lp_lhs ?LR) = m" "length (lp_rhs ?LR) = m" "length (lp_rowVector ?LR) = m"
    and lt: "length (colTypes s) = n" "length (rowTypes s) = m"
    and bq: "\<forall>row \<in> set (lp_rowVector ?LQ). \<forall>e \<in> set row. fst e < n"
    and br: "\<forall>row \<in> set (lp_rowVector ?LR). \<forall>e \<in> set row. fst e < n"
    using wf by (simp_all add: wf_soplex_def wf_lp_def n_def m_def)
  define T where "T = transformUnbounded k s"
  note tf = transformUnbounded_fields[OF wf, of k, folded T_def n_def m_def]
  define t1 where "t1 = recover_objective k T"
  define t2 where "t2 = remove_objective_row t1"
  define t3 where "t3 = restore_sides k t2"
  have U: "untransformUnbounded k (transformUnbounded k s) = restore_bounds k t3"
    by (simp add: untransformUnbounded_def t3_def t2_def t1_def T_def)
  have nT: "numRowsRational T - 1 = m" "numColsRational T - 1 = n"
    by (simp_all add: numRowsRational_def numColsRational_def nRows_def nCols_def tf)
  have row: "lp_rowVector (rationalLP T) ! m = nonzeros (lp_maxObj ?LQ) @ [(n, - 1)]"
    by (simp add: tf nth_append lq)
  have q1: "lp_maxObj (rationalLP t1) =
      foldr (\<lambda>e M. M[fst e := snd e]) (nonzeros (lp_maxObj ?LQ) @ [(n, - 1)]) (map (\<lambda>c. 0) [0 ..< n] @ [1])"
    "lp_lower (rationalLP t1) = lp_lower (rationalLP T)" "lp_upper (rationalLP t1) = lp_upper (rationalLP T)"
    "lp_lhs (rationalLP t1) = lp_lhs (rationalLP T)" "lp_rhs (rationalLP t1) = lp_rhs (rationalLP T)"
    "lp_rowVector (rationalLP t1) = lp_rowVector (rationalLP T)" "lp_sense (rationalLP t1) = lp_sense ?LQ"
    unfolding t1_def recover_objective_fields nT row by (simp_all add: tf)
  have r1: "lp_maxObj (realLP t1) =
      foldr (\<lambda>e M. M[fst e := toR k (snd e)]) (nonzeros (lp_maxObj ?LQ) @ [(n, - 1)]) (map (\<lambda>c. 0) [0 ..< n] @ [1])"
    "lp_lower (realLP t1) = lp_lower (realLP T)" "lp_upper (realLP t1) = lp_upper (realLP T)"
    "lp_lhs (realLP t1) = lp_lhs (realLP T)" "lp_rhs (realLP t1) = lp_rhs (realLP T)"
    "lp_rowVector (realLP t1) = lp_rowVector (realLP T)" "lp_sense (realLP t1) = lp_sense ?LR"
    unfolding t1_def recover_objective_fields nT row by (simp_all add: tf)
  have o1: "colTypes t1 = colTypes T" "rowTypes t1 = rowTypes T"
    "unboundedLower t1 = unboundedLower T" "unboundedUpper t1 = unboundedUpper T"
    "unboundedLhs t1 = unboundedLhs T" "unboundedRhs t1 = unboundedRhs T"
    by (simp_all add: t1_def recover_objective_fields)
  have n1: "numRowsRational t1 - 1 = m" "numColsRational t1 - 1 = n"
    by (simp_all add: numRowsRational_def numColsRational_def nRows_def nCols_def q1 tf)
  have q2: "lp_maxObj (rationalLP t2) = lp_maxObj ?LQ"
    "lp_lower (rationalLP t2) = map (\<lambda>c. zeroed (lowerFinite (colTypes s ! c)) (lp_lower ?LQ ! c)) [0 ..< n]"
    "lp_upper (rationalLP t2) = map (\<lambda>c. zeroed (upperFinite (colTypes s ! c)) (lp_upper ?LQ ! c)) [0 ..< n]"
    "lp_lhs (rationalLP t2) = map (\<lambda>r. zeroed (lowerFinite (rowTypes s ! r)) (lp_lhs ?LQ ! r)) [0 ..< m]"
    "lp_rhs (rationalLP t2) = map (\<lambda>r. zeroed (upperFinite (rowTypes s ! r)) (lp_rhs ?LQ ! r)) [0 ..< m]"
    "lp_rowVector (rationalLP t2) = lp_rowVector ?LQ"
    "lp_sense (rationalLP t2) = lp_sense ?LQ"
    unfolding t2_def remove_objective_row_fields n1
    by (simp_all add: removeCol_def removeRow_def removeColRange_def removeRowRange_def q1 tf
        cut_last lq recovered_objective map_cut_row_below[OF bq] del: foldr_append)
  have r2: "lp_maxObj (realLP t2) = map (\<lambda>c. if lp_maxObj ?LQ ! c \<noteq> 0 then toR k (lp_maxObj ?LQ ! c) else 0) [0 ..< n]"
    "lp_lower (realLP t2) = map (\<lambda>c. zeroedR (INFTY k) True (lowerFinite (colTypes s ! c)) (lp_lower ?LR ! c)) [0 ..< n]"
    "lp_upper (realLP t2) = map (\<lambda>c. zeroedR (INFTY k) False (upperFinite (colTypes s ! c)) (lp_upper ?LR ! c)) [0 ..< n]"
    "lp_lhs (realLP t2) = map (\<lambda>r. zeroedR (INFTY k) True (lowerFinite (rowTypes s ! r)) (lp_lhs ?LR ! r)) [0 ..< m]"
    "lp_rhs (realLP t2) = map (\<lambda>r. zeroedR (INFTY k) False (upperFinite (rowTypes s ! r)) (lp_rhs ?LR ! r)) [0 ..< m]"
    "lp_rowVector (realLP t2) = lp_rowVector ?LR"
    "lp_sense (realLP t2) = lp_sense ?LR"
    unfolding t2_def remove_objective_row_fields n1
    by (simp_all add: removeCol_def removeRow_def removeColRange_def removeRowRange_def r1 tf
        cut_last lr lq recovered_objective_real map_cut_row_below[OF br] del: foldr_append)
  have o2: "colTypes t2 = colTypes s" "rowTypes t2 = rowTypes s"
    "unboundedLower t2 = unboundedLower T" "unboundedUpper t2 = unboundedUpper T"
    "unboundedLhs t2 = unboundedLhs T" "unboundedRhs t2 = unboundedRhs T"
    unfolding t2_def remove_objective_row_fields n1
    by (simp_all add: o1 tf reSize_def lt)
  have n2: "numRowsRational t2 = m" "numColsRational t2 = n"
    by (simp_all add: numRowsRational_def numColsRational_def nRows_def nCols_def q2)
  have q3: "lp_lhs (rationalLP t3) = lp_lhs ?LQ" "lp_rhs (rationalLP t3) = lp_rhs ?LQ"
    unfolding t3_def restore_sides_fields n2
    by (simp_all, (rule upd_range_eqI, simp_all add: q2 o2 tf lq zeroed_def)+)
  have q3': "lp_lower (rationalLP t3) = lp_lower (rationalLP t2)" "lp_upper (rationalLP t3) = lp_upper (rationalLP t2)"
    "lp_maxObj (rationalLP t3) = lp_maxObj ?LQ" "lp_rowVector (rationalLP t3) = lp_rowVector ?LQ"
    "lp_sense (rationalLP t3) = lp_sense ?LQ"
    unfolding t3_def restore_sides_fields by (simp_all add: q2)
  have r3: "lp_lhs (realLP t3) = map (\<lambda>r. if lowerFinite (rowTypes s ! r) then toR k (lp_lhs ?LQ ! r)
                       else zeroedR (INFTY k) True False (lp_lhs ?LR ! r)) [0 ..< m]"
    "lp_rhs (realLP t3) = map (\<lambda>r. if upperFinite (rowTypes s ! r) then toR k (lp_rhs ?LQ ! r)
                       else zeroedR (INFTY k) False False (lp_rhs ?LR ! r)) [0 ..< m]"
    unfolding t3_def restore_sides_fields n2
    by (simp_all, (rule upd_range_all_cong, simp_all add: r2 o2 tf)+)
  have r3': "lp_lower (realLP t3) = lp_lower (realLP t2)" "lp_upper (realLP t3) = lp_upper (realLP t2)"
    "lp_maxObj (realLP t3) = lp_maxObj (realLP t2)" "lp_rowVector (realLP t3) = lp_rowVector ?LR"
    "lp_sense (realLP t3) = lp_sense ?LR"
    unfolding t3_def restore_sides_fields by (simp_all add: r2)
  have o3: "colTypes t3 = colTypes s" "rowTypes t3 = rowTypes s"
    "unboundedLower t3 = unboundedLower T" "unboundedUpper t3 = unboundedUpper T"
    "unboundedLhs t3 = unboundedLhs T" "unboundedRhs t3 = unboundedRhs T"
    by (simp_all add: t3_def restore_sides_fields o2)
  have n3: "numColsRational t3 = n"
    by (simp add: numColsRational_def nCols_def q3' q2)
  have q4: "lp_lower (rationalLP (restore_bounds k t3)) = lp_lower ?LQ"
    "lp_upper (rationalLP (restore_bounds k t3)) = lp_upper ?LQ"
    unfolding restore_bounds_fields n3
    by (simp_all, (rule upd_range_eqI, simp_all add: q3' q2 o3 tf lq zeroed_def)+)
  have q4': "lp_lhs (rationalLP (restore_bounds k t3)) = lp_lhs ?LQ"
    "lp_rhs (rationalLP (restore_bounds k t3)) = lp_rhs ?LQ"
    "lp_maxObj (rationalLP (restore_bounds k t3)) = lp_maxObj ?LQ"
    "lp_rowVector (rationalLP (restore_bounds k t3)) = lp_rowVector ?LQ"
    "lp_sense (rationalLP (restore_bounds k t3)) = lp_sense ?LQ"
    unfolding restore_bounds_fields by (simp_all add: q3 q3')
  have r4: "lp_lower (realLP (restore_bounds k t3)) =
       map (\<lambda>c. if lowerFinite (colTypes s ! c) then toR k (lp_lower ?LQ ! c)
                       else zeroedR (INFTY k) True False (lp_lower ?LR ! c)) [0 ..< n]"
    "lp_upper (realLP (restore_bounds k t3)) =
       map (\<lambda>c. if upperFinite (colTypes s ! c) then toR k (lp_upper ?LQ ! c)
                       else zeroedR (INFTY k) False False (lp_upper ?LR ! c)) [0 ..< n]"
    unfolding restore_bounds_fields n3
    by (simp_all, (rule upd_range_all_cong, simp_all add: r3' r2 o3 tf)+)
  have r4': "lp_lhs (realLP (restore_bounds k t3)) = lp_lhs (realLP t3)"
    "lp_rhs (realLP (restore_bounds k t3)) = lp_rhs (realLP t3)"
    "lp_maxObj (realLP (restore_bounds k t3)) = lp_maxObj (realLP t2)"
    "lp_rowVector (realLP (restore_bounds k t3)) = lp_rowVector ?LR"
    "lp_sense (realLP (restore_bounds k t3)) = lp_sense ?LR"
    unfolding restore_bounds_fields by (simp_all add: r3')
  show ?Q unfolding U by (rule lp.equality) (simp_all add: q4 q4')
  show ?R unfolding U by (rule lp.equality) (simp_all add: r4 r4' r3 r2)
  show ?CT ?RT ?UL ?UU ?ULh ?URh
    by (simp_all add: U restore_bounds_fields t3_def restore_sides_fields o2 tf)
qed

lemma map_eq_nthI:
  assumes "length xs = n" and "\<And>i. i < n \<Longrightarrow> f i = xs ! i"
  shows "map f [0 ..< n] = xs"
  using assms by (intro nth_equalityI) simp_all

lemma roundtrip_realLP_synced:
  assumes wf: "wf_soplex s" and sy: "synced k s"
  shows "realLP (untransformUnbounded k (transformUnbounded k s)) = realLP s"
proof -
  let ?n = "numColsRational s" and ?m = "numRowsRational s"
  have lr: "length (lp_lower (realLP s)) = ?n" "length (lp_upper (realLP s)) = ?n"
    "length (lp_maxObj (realLP s)) = ?n"
    "length (lp_lhs (realLP s)) = ?m" "length (lp_rhs (realLP s)) = ?m"
    using wf by (simp_all add: wf_soplex_def wf_lp_def)
  have z: "toR k 0 = 0" using sy by (simp add: synced_def)
  have c: "\<And>c. c < ?n \<Longrightarrow>
          lp_maxObj (realLP s) ! c = toR k (lp_maxObj (rationalLP s) ! c)
          \<and> (if lowerFinite (colTypes s ! c)
              then lp_lower (realLP s) ! c = toR k (lp_lower (rationalLP s) ! c)
              else lp_lower (realLP s) ! c \<le> - INFTY k)
          \<and> (if upperFinite (colTypes s ! c)
              then lp_upper (realLP s) ! c = toR k (lp_upper (rationalLP s) ! c)
              else INFTY k \<le> lp_upper (realLP s) ! c)"
    using sy by (simp add: synced_def)
  have r: "\<And>r. r < ?m \<Longrightarrow>
          (if lowerFinite (rowTypes s ! r)
           then lp_lhs (realLP s) ! r = toR k (lp_lhs (rationalLP s) ! r)
           else lp_lhs (realLP s) ! r \<le> - INFTY k)
          \<and> (if upperFinite (rowTypes s ! r)
              then lp_rhs (realLP s) ! r = toR k (lp_rhs (rationalLP s) ! r)
              else INFTY k \<le> lp_rhs (realLP s) ! r)"
    using sy by (simp add: synced_def)
  have e1: "map (\<lambda>r. if lowerFinite (rowTypes s ! r) then toR k (lp_lhs (rationalLP s) ! r)
                       else zeroedR (INFTY k) True False (lp_lhs (realLP s) ! r)) [0 ..< ?m] = lp_lhs (realLP s)"
  proof (rule map_eq_nthI)
    show "length (lp_lhs (realLP s)) = ?m" by (rule lr)
    fix i assume "i < ?m"
    from r[OF this] show "(if lowerFinite (rowTypes s ! i) then toR k (lp_lhs (rationalLP s) ! i)
                       else zeroedR (INFTY k) True False (lp_lhs (realLP s) ! i)) = lp_lhs (realLP s) ! i"
      by (auto simp: zeroedR_def split: if_splits)
  qed
  have e2: "map (\<lambda>r. if upperFinite (rowTypes s ! r) then toR k (lp_rhs (rationalLP s) ! r)
                       else zeroedR (INFTY k) False False (lp_rhs (realLP s) ! r)) [0 ..< ?m] = lp_rhs (realLP s)"
  proof (rule map_eq_nthI)
    show "length (lp_rhs (realLP s)) = ?m" by (rule lr)
    fix i assume "i < ?m"
    from r[OF this] show "(if upperFinite (rowTypes s ! i) then toR k (lp_rhs (rationalLP s) ! i)
                       else zeroedR (INFTY k) False False (lp_rhs (realLP s) ! i)) = lp_rhs (realLP s) ! i"
      by (auto simp: zeroedR_def split: if_splits)
  qed
  have e3: "map (\<lambda>c. if lowerFinite (colTypes s ! c) then toR k (lp_lower (rationalLP s) ! c)
                       else zeroedR (INFTY k) True False (lp_lower (realLP s) ! c)) [0 ..< ?n] = lp_lower (realLP s)"
  proof (rule map_eq_nthI)
    show "length (lp_lower (realLP s)) = ?n" by (rule lr)
    fix i assume "i < ?n"
    from c[OF this] show "(if lowerFinite (colTypes s ! i) then toR k (lp_lower (rationalLP s) ! i)
                       else zeroedR (INFTY k) True False (lp_lower (realLP s) ! i)) = lp_lower (realLP s) ! i"
      by (auto simp: zeroedR_def split: if_splits)
  qed
  have e4: "map (\<lambda>c. if upperFinite (colTypes s ! c) then toR k (lp_upper (rationalLP s) ! c)
                       else zeroedR (INFTY k) False False (lp_upper (realLP s) ! c)) [0 ..< ?n] = lp_upper (realLP s)"
  proof (rule map_eq_nthI)
    show "length (lp_upper (realLP s)) = ?n" by (rule lr)
    fix i assume "i < ?n"
    from c[OF this] show "(if upperFinite (colTypes s ! i) then toR k (lp_upper (rationalLP s) ! i)
                       else zeroedR (INFTY k) False False (lp_upper (realLP s) ! i)) = lp_upper (realLP s) ! i"
      by (auto simp: zeroedR_def split: if_splits)
  qed
  have e5: "map (\<lambda>c. if lp_maxObj (rationalLP s) ! c \<noteq> 0 then toR k (lp_maxObj (rationalLP s) ! c) else 0) [0 ..< ?n]
              = lp_maxObj (realLP s)"
  proof (rule map_eq_nthI)
    show "length (lp_maxObj (realLP s)) = ?n" by (rule lr)
    fix i assume "i < ?n"
    from c[OF this] z show "(if lp_maxObj (rationalLP s) ! i \<noteq> 0 then toR k (lp_maxObj (rationalLP s) ! i) else 0)
             = lp_maxObj (realLP s) ! i"
      by auto
  qed
  show ?thesis
    unfolding roundtrip_fields(2)[OF wf] e1 e2 e3 e4 e5 by simp
qed

text \<open>
  C6. For a state that satisfies the invariants of the driver (\<open>wf_soplex\<close>),
  \<^verbatim>\<open>_transformUnbounded\<close> adds one row and one column to both LPs, and the new row of
  the rational LP holds the nonzero objective coefficients and the coefficient \<open>-1\<close>
  of the auxiliary column. \<^verbatim>\<open>_untransformUnbounded\<close> applied to the result removes
  them again: the numbers of rows and columns are the original ones, and the rational
  LP, the range types of the columns and the range types of the rows are the original
  ones, so the objective has been recovered from the objective row. Every finite bound
  and side is stored in the vectors \<^verbatim>\<open>_unboundedLower\<close>, \<^verbatim>\<open>_unboundedUpper\<close>,
  \<^verbatim>\<open>_unboundedLhs\<close> and \<^verbatim>\<open>_unboundedRhs\<close>, and in the floating-point LP it is
  restored to the converted stored value; an objective coefficient of the
  floating-point LP is the converted rational coefficient, or zero where that is zero.
  When the floating-point LP was in step with the rational LP (\<open>synced\<close>), it is
  the original one as well.
\<close>

theorem unbounded_roundtrip:
  "wf_soplex s \<longrightarrow>
     numColsRational (transformUnbounded k s) = numColsRational s + 1
   \<and> numRowsRational (transformUnbounded k s) = numRowsRational s + 1
   \<and> numColsReal (transformUnbounded k s) = numColsRational s + 1
   \<and> numRowsReal (transformUnbounded k s) = numRowsRational s + 1
   \<and> lp_rowVector (rationalLP (transformUnbounded k s)) ! numRowsRational s =
        nonzeros (lp_maxObj (rationalLP s)) @ [(numColsRational s, - 1)]
   \<and> numColsRational (untransformUnbounded k (transformUnbounded k s)) = numColsRational s
   \<and> numRowsRational (untransformUnbounded k (transformUnbounded k s)) = numRowsRational s
   \<and> numColsReal (untransformUnbounded k (transformUnbounded k s)) = numColsRational s
   \<and> numRowsReal (untransformUnbounded k (transformUnbounded k s)) = numRowsRational s
   \<and> rationalLP (untransformUnbounded k (transformUnbounded k s)) = rationalLP s
   \<and> colTypes (untransformUnbounded k (transformUnbounded k s)) = colTypes s
   \<and> rowTypes (untransformUnbounded k (transformUnbounded k s)) = rowTypes s
   \<and> lp_rowVector (realLP (untransformUnbounded k (transformUnbounded k s))) = lp_rowVector (realLP s)
   \<and> (\<forall>c < numColsRational s.
         lp_maxObj (realLP (untransformUnbounded k (transformUnbounded k s))) ! c =
           (if lp_maxObj (rationalLP s) ! c \<noteq> 0 then toR k (lp_maxObj (rationalLP s) ! c) else 0)
         \<and> (lowerFinite (colTypes s ! c) \<longrightarrow>
              unboundedLower (untransformUnbounded k (transformUnbounded k s)) ! c = lp_lower (rationalLP s) ! c
              \<and> lp_lower (realLP (untransformUnbounded k (transformUnbounded k s))) ! c =
                  toR k (lp_lower (rationalLP s) ! c))
         \<and> (upperFinite (colTypes s ! c) \<longrightarrow>
              unboundedUpper (untransformUnbounded k (transformUnbounded k s)) ! c = lp_upper (rationalLP s) ! c
              \<and> lp_upper (realLP (untransformUnbounded k (transformUnbounded k s))) ! c =
                  toR k (lp_upper (rationalLP s) ! c)))
   \<and> (\<forall>r < numRowsRational s.
         (lowerFinite (rowTypes s ! r) \<longrightarrow>
              unboundedLhs (untransformUnbounded k (transformUnbounded k s)) ! r = lp_lhs (rationalLP s) ! r
              \<and> lp_lhs (realLP (untransformUnbounded k (transformUnbounded k s))) ! r =
                  toR k (lp_lhs (rationalLP s) ! r))
         \<and> (upperFinite (rowTypes s ! r) \<longrightarrow>
              unboundedRhs (untransformUnbounded k (transformUnbounded k s)) ! r = lp_rhs (rationalLP s) ! r
              \<and> lp_rhs (realLP (untransformUnbounded k (transformUnbounded k s))) ! r =
                  toR k (lp_rhs (rationalLP s) ! r)))
   \<and> (synced k s \<longrightarrow> realLP (untransformUnbounded k (transformUnbounded k s)) = realLP s)"
proof (rule impI)
  assume wf: "wf_soplex s"
  let ?n = "numColsRational s" and ?m = "numRowsRational s"
  let ?T = "transformUnbounded k s"
  let ?U = "untransformUnbounded k ?T"
  note tf = transformUnbounded_fields[OF wf, of k]
  note rt = roundtrip_fields[OF wf, of k]
  have lq: "length (lp_lower (rationalLP s)) = ?n" "length (lp_lhs (rationalLP s)) = ?m"
    "length (lp_rowVector (rationalLP s)) = ?m"
    and lr: "length (lp_lower (realLP s)) = ?n" "length (lp_lhs (realLP s)) = ?m"
    using wf by (simp_all add: wf_soplex_def wf_lp_def)
  have c1: "numColsRational ?T = ?n + 1" "numRowsRational ?T = ?m + 1"
    "numColsReal ?T = ?n + 1" "numRowsReal ?T = ?m + 1"
    by (simp_all add: numColsRational_def numRowsRational_def numColsReal_def numRowsReal_def
        nCols_def nRows_def tf)
  have c2: "lp_rowVector (rationalLP ?T) ! ?m = nonzeros (lp_maxObj (rationalLP s)) @ [(?n, - 1)]"
    by (simp add: tf nth_append lq)
  have c3: "numColsRational ?U = ?n" "numRowsRational ?U = ?m"
    "numColsReal ?U = ?n" "numRowsReal ?U = ?m"
    by (simp_all add: numColsRational_def numRowsRational_def numColsReal_def numRowsReal_def
        nCols_def nRows_def rt)
  have c4: "lp_rowVector (realLP ?U) = lp_rowVector (realLP s)"
    by (simp add: rt)
  have c5: "\<forall>c < ?n.
         lp_maxObj (realLP ?U) ! c =
           (if lp_maxObj (rationalLP s) ! c \<noteq> 0 then toR k (lp_maxObj (rationalLP s) ! c) else 0)
         \<and> (lowerFinite (colTypes s ! c) \<longrightarrow>
              unboundedLower ?U ! c = lp_lower (rationalLP s) ! c
              \<and> lp_lower (realLP ?U) ! c = toR k (lp_lower (rationalLP s) ! c))
         \<and> (upperFinite (colTypes s ! c) \<longrightarrow>
              unboundedUpper ?U ! c = lp_upper (rationalLP s) ! c
              \<and> lp_upper (realLP ?U) ! c = toR k (lp_upper (rationalLP s) ! c))"
    by (simp add: rt)
  have c6: "\<forall>r < ?m.
         (lowerFinite (rowTypes s ! r) \<longrightarrow>
              unboundedLhs ?U ! r = lp_lhs (rationalLP s) ! r
              \<and> lp_lhs (realLP ?U) ! r = toR k (lp_lhs (rationalLP s) ! r))
         \<and> (upperFinite (rowTypes s ! r) \<longrightarrow>
              unboundedRhs ?U ! r = lp_rhs (rationalLP s) ! r
              \<and> lp_rhs (realLP ?U) ! r = toR k (lp_rhs (rationalLP s) ! r))"
    by (simp add: rt)
  have c7: "synced k s \<longrightarrow> realLP ?U = realLP s"
    using roundtrip_realLP_synced[OF wf] by blast
  from c1 c2 c3 rt(1) rt(3) rt(4) c4 c5 c6 c7
  show "numColsRational ?T = ?n + 1
   \<and> numRowsRational ?T = ?m + 1
   \<and> numColsReal ?T = ?n + 1
   \<and> numRowsReal ?T = ?m + 1
   \<and> lp_rowVector (rationalLP ?T) ! ?m = nonzeros (lp_maxObj (rationalLP s)) @ [(?n, - 1)]
   \<and> numColsRational ?U = ?n
   \<and> numRowsRational ?U = ?m
   \<and> numColsReal ?U = ?n
   \<and> numRowsReal ?U = ?m
   \<and> rationalLP ?U = rationalLP s
   \<and> colTypes ?U = colTypes s
   \<and> rowTypes ?U = rowTypes s
   \<and> lp_rowVector (realLP ?U) = lp_rowVector (realLP s)
   \<and> (\<forall>c < ?n.
         lp_maxObj (realLP ?U) ! c =
           (if lp_maxObj (rationalLP s) ! c \<noteq> 0 then toR k (lp_maxObj (rationalLP s) ! c) else 0)
         \<and> (lowerFinite (colTypes s ! c) \<longrightarrow>
              unboundedLower ?U ! c = lp_lower (rationalLP s) ! c
              \<and> lp_lower (realLP ?U) ! c = toR k (lp_lower (rationalLP s) ! c))
         \<and> (upperFinite (colTypes s ! c) \<longrightarrow>
              unboundedUpper ?U ! c = lp_upper (rationalLP s) ! c
              \<and> lp_upper (realLP ?U) ! c = toR k (lp_upper (rationalLP s) ! c)))
   \<and> (\<forall>r < ?m.
         (lowerFinite (rowTypes s ! r) \<longrightarrow>
              unboundedLhs ?U ! r = lp_lhs (rationalLP s) ! r
              \<and> lp_lhs (realLP ?U) ! r = toR k (lp_lhs (rationalLP s) ! r))
         \<and> (upperFinite (rowTypes s ! r) \<longrightarrow>
              unboundedRhs ?U ! r = lp_rhs (rationalLP s) ! r
              \<and> lp_rhs (realLP ?U) ! r = toR k (lp_rhs (rationalLP s) ! r)))
   \<and> (synced k s \<longrightarrow> realLP ?U = realLP s)"
    by (intro conjI)
qed

text \<open>
  The round trip on the example LP with two columns and two rows: a boxed and a free
  column, an inequality and an equation.
\<close>

lemma wf_lifted_example: "wf_soplex lifted_example"
  by (simp add: wf_soplex_def wf_lp_def lifted_example_def lifted_lp_def numColsRational_def
      numRowsRational_def nCols_def nRows_def)

lemma synced_lifted_example: "synced unbd_example lifted_example"
  by (simp add: synced_def unbd_example_def lifted_example_def lifted_lp_def numColsRational_def
      numRowsRational_def nCols_def nRows_def lowerFinite_def upperFinite_def
      less_Suc_eq numeral_2_eq_2 all_conj_distrib)

theorem unbounded_roundtrip_witness:
  "wf_soplex lifted_example \<and> synced unbd_example lifted_example
   \<and> numColsRational (transformUnbounded unbd_example lifted_example) = 3
   \<and> numRowsRational (transformUnbounded unbd_example lifted_example) = 3
   \<and> rationalLP (untransformUnbounded unbd_example (transformUnbounded unbd_example lifted_example)) = lifted_lp
   \<and> realLP (untransformUnbounded unbd_example (transformUnbounded unbd_example lifted_example)) = lifted_lp"
proof -
  have n: "numColsRational lifted_example = 2" "numRowsRational lifted_example = 2"
    by (simp_all add: lifted_example_def lifted_lp_def numColsRational_def numRowsRational_def
        nCols_def nRows_def)
  have l: "rationalLP lifted_example = lifted_lp" "realLP lifted_example = lifted_lp"
    by (simp_all add: lifted_example_def)
  from unbounded_roundtrip[of lifted_example unbd_example] wf_lifted_example synced_lifted_example
  show ?thesis by (simp add: n l)
qed

end
